(* ===== verification/Prelude.thy ===== *)
theory Prelude
  imports Main "HOL-Library.Word"
begin

unbundle bit_operations_syntax

text \<open>
  Shared vocabulary of the development: the Go integer and byte types, the byte order of
  \<^verbatim>\<open>encoding/binary\<close>, \<^verbatim>\<open>io.ReadFull\<close> on a byte stream, and the generic lemmas the
  components use. A Go \<^verbatim>\<open>int\<close> is 64 bits wide where its width matters.
\<close>

type_synonym byte = "8 word"
type_synonym uint16 = "16 word"
type_synonym uint32 = "32 word"
type_synonym int64 = "64 word"

named_theorems codec_simps \<open>byte-order facts of the fixed-width codecs\<close>

subsection \<open>Big-endian byte order\<close>

definition PutUint16 :: "uint16 \<Rightarrow> byte list" where
  "PutUint16 v = [ucast (drop_bit 8 v), ucast v]"

definition Uint16 :: "byte list \<Rightarrow> uint16" where
  "Uint16 b = ucast (b ! 1) OR push_bit 8 (ucast (b ! 0))"

definition PutUint24 :: "int64 \<Rightarrow> byte list" where
  "PutUint24 v = [ucast (drop_bit 16 v), ucast (drop_bit 8 v), ucast v]"

definition Uint24 :: "byte list \<Rightarrow> int64" where
  "Uint24 b = push_bit 16 (ucast (b ! 0)) OR push_bit 8 (ucast (b ! 1)) OR ucast (b ! 2)"

definition PutUint32 :: "uint32 \<Rightarrow> byte list" where
  "PutUint32 v = [ucast (drop_bit 24 v), ucast (drop_bit 16 v), ucast (drop_bit 8 v), ucast v]"

definition Uint32 :: "byte list \<Rightarrow> uint32" where
  "Uint32 b = ucast (b ! 3) OR push_bit 8 (ucast (b ! 2)) OR push_bit 16 (ucast (b ! 1))
     OR push_bit 24 (ucast (b ! 0))"


text \<open>
  The contract of a fixed-width codec: \<open>get\<close> inverts \<open>put\<close> on the values that fit the
  width, and \<open>put\<close> inverts \<open>get\<close> on every field of that width.
\<close>

locale fixed_codec =
  fixes put :: "'a \<Rightarrow> byte list"
    and get :: "byte list \<Rightarrow> 'a"
    and width :: nat
    and fits :: "'a \<Rightarrow> bool"
  assumes put_length: "length (put v) = width"
    and get_put: "fits v \<Longrightarrow> get (put v) = v"
    and put_get: "length b = width \<Longrightarrow> put (get b) = b"
    and get_fits: "length b = width \<Longrightarrow> fits (get b)"
begin

lemma get_slot: "fits v \<Longrightarrow> n = length pre \<Longrightarrow> get (take width (drop n (pre @ put v @ post))) = v"
  by (simp add: put_length get_put)

lemma get_eq_iff: "length b = width \<Longrightarrow> fits v \<Longrightarrow> get b = v \<longleftrightarrow> b = put v"
  using get_put put_get by metis

lemma put_inj: "fits v \<Longrightarrow> fits w \<Longrightarrow> put v = put w \<Longrightarrow> v = w"
  by (metis get_put)

lemma put_nonempty: "0 < width \<Longrightarrow> put v \<noteq> []"
  using put_length [of v] by auto

end

lemma take_bit_word_self_iff: "take_bit n v = v \<longleftrightarrow> unat v < 2 ^ n" for v :: "'a::len word"
proof -
  have "take_bit n v = v \<longleftrightarrow> unat (take_bit n v) = unat v"
    by (simp add: word_eq_iff_unsigned)
  also have "\<dots> \<longleftrightarrow> unat v < 2 ^ n"
    by (simp add: unsigned_take_bit_eq take_bit_nat_eq_self_iff)
  finally show ?thesis .
qed

lemma take_2: "2 \<le> length xs \<Longrightarrow> take 2 xs = [xs ! 0, xs ! 1]"
  by (intro nth_equalityI) (auto simp: nth_Cons' less_Suc_eq numeral_eq_Suc)

lemma length_numeral_Suc:
  "length xs = 2 \<longleftrightarrow> (\<exists>a b. xs = [a, b])"
  "length xs = 3 \<longleftrightarrow> (\<exists>a b c. xs = [a, b, c])"
  "length xs = 4 \<longleftrightarrow> (\<exists>a b c d. xs = [a, b, c, d])"
  by (auto simp: numeral_eq_Suc length_Suc_conv)

interpretation u16: fixed_codec PutUint16 Uint16 2 "\<lambda>_. True"
proof unfold_locales
  show "Uint16 (PutUint16 v) = v" for v
    unfolding Uint16_def PutUint16_def by (rule bit_word_eqI) (auto simp: bit_simps)
  show "PutUint16 (Uint16 b) = b" if "length b = 2" for b
  proof -
    from that obtain x y where b: "b = [x, y]" by (auto simp: length_numeral_Suc)
    have "ucast (drop_bit 8 (Uint16 b)) = x" "ucast (Uint16 b) = y"
      unfolding Uint16_def b by (rule bit_word_eqI; auto simp: bit_simps dest: bit_imp_le_length)+
    then show ?thesis by (simp add: PutUint16_def b)
  qed
qed (simp_all add: PutUint16_def)

interpretation u24: fixed_codec PutUint24 Uint24 3 "\<lambda>v. unat v < 2 ^ 24"
proof unfold_locales
  show "Uint24 (PutUint24 v) = v" if "unat v < 2 ^ 24" for v
  proof -
    have "take_bit 24 v = v" using that by (simp add: take_bit_word_self_iff)
    then have "\<not> bit v n" if "24 \<le> n" for n using that
      by (metis bit_take_bit_iff not_le)
    moreover have "n - 8 < 8" if "\<not> bit v (16 + (n - 16))" "bit v n" for n
      using that by (cases "16 \<le> n") auto
    ultimately show ?thesis
      unfolding Uint24_def PutUint24_def
      by (intro bit_word_eqI) (auto simp: bit_simps not_less not_le)
  qed
  show "PutUint24 (Uint24 b) = b" if "length b = 3" for b
  proof -
    from that obtain x y z where b: "b = [x, y, z]" by (auto simp: length_numeral_Suc)
    have "ucast (drop_bit 16 (Uint24 b)) = x" "ucast (drop_bit 8 (Uint24 b)) = y" "ucast (Uint24 b) = z"
      unfolding Uint24_def b by (rule bit_word_eqI; auto simp: bit_simps dest: bit_imp_le_length)+
    then show ?thesis by (simp add: PutUint24_def b)
  qed
  show "unat (Uint24 b) < 2 ^ 24" if "length b = 3" for b
  proof -
    have "take_bit 24 (Uint24 b) = Uint24 b"
      unfolding Uint24_def by (rule bit_word_eqI) (auto simp: bit_simps dest: bit_imp_le_length)
    then show ?thesis by (simp add: take_bit_word_self_iff)
  qed
qed (simp_all add: PutUint24_def)

interpretation u32: fixed_codec PutUint32 Uint32 4 "\<lambda>_. True"
proof unfold_locales
  show "Uint32 (PutUint32 v) = v" for v
  proof -
    have "n - 16 < 8" if "\<not> bit v (24 + (n - 24))" "bit v n" for n
      using that by (cases "24 \<le> n") auto
    then show ?thesis
      unfolding Uint32_def PutUint32_def by (intro bit_word_eqI) (auto simp: bit_simps)
  qed
  show "PutUint32 (Uint32 b) = b" if "length b = 4" for b
  proof -
    from that obtain x y z t where b: "b = [x, y, z, t]" by (auto simp: length_numeral_Suc)
    have "ucast (drop_bit 24 (Uint32 b)) = x" "ucast (drop_bit 16 (Uint32 b)) = y"
      "ucast (drop_bit 8 (Uint32 b)) = z" "ucast (Uint32 b) = t"
      unfolding Uint32_def b by (rule bit_word_eqI; auto simp: bit_simps dest: bit_imp_le_length)+
    then show ?thesis by (simp add: PutUint32_def b)
  qed
qed (simp_all add: PutUint32_def)

subsection \<open>Reading from a byte stream\<close>

text \<open>
  An \<^verbatim>\<open>io.Reader\<close> over a pipe is the list of the bytes that are still to come before the
  peer closes it. \<^verbatim>\<open>io.ReadFull\<close> fills the whole buffer or fails: with \<open>EOF\<close> when no byte was
  read, with \<open>ErrUnexpectedEOF\<close> when the stream ended inside the buffer. A failed read has
  consumed what there was.
\<close>

datatype io_error = EOF | ErrUnexpectedEOF

definition ReadFull :: "nat \<Rightarrow> byte list \<Rightarrow> (io_error + byte list) \<times> byte list" where
  "ReadFull n r =
     (if n \<le> length r then (Inr (take n r), drop n r)
      else if r = [] then (Inl EOF, [])
      else (Inl ErrUnexpectedEOF, []))"

lemma ReadFull_append [simp]: "n = length xs \<Longrightarrow> ReadFull n (xs @ r) = (Inr xs, r)"
  by (simp add: ReadFull_def)

lemma ReadFull_InrD: "ReadFull n r = (Inr xs, r') \<Longrightarrow> r = xs @ r' \<and> length xs = n"
  by (auto simp: ReadFull_def split: if_splits)

lemma ReadFull_Inl_iff: "(\<exists>e r'. ReadFull n r = (Inl e, r')) \<longleftrightarrow> length r < n"
  by (auto simp: ReadFull_def)

lemma ReadFull_cases:
  obtains (full) xs r' where "ReadFull n r = (Inr xs, r')" "r = xs @ r'" "length xs = n"
  | (short) e where "ReadFull n r = (Inl e, [])" "length r < n"
      "e = (if r = [] then EOF else ErrUnexpectedEOF)"
proof (cases "n \<le> length r")
  case True
  then show ?thesis by (intro full [of "take n r" "drop n r"]) (auto simp: ReadFull_def)
next
  case False
  then show ?thesis by (intro short) (auto simp: ReadFull_def)
qed

subsection \<open>Go strings as byte slices\<close>

definition bytes_of_string :: "string \<Rightarrow> byte list" where
  "bytes_of_string s = map (\<lambda>c. word_of_nat (of_char c)) s"

lemma length_bytes_of_string [simp]: "length (bytes_of_string s) = length s"
  by (simp add: bytes_of_string_def)

lemma char_byte_inj: "inj (\<lambda>c. word_of_nat (of_char c) :: byte)"
proof (rule injI)
  fix c d :: char
  assume eq: "(word_of_nat (of_char c) :: byte) = word_of_nat (of_char d)"
  have "unat (word_of_nat (of_char x) :: byte) = of_char x" for x
  proof -
    have "(of_char x :: nat) mod 256 = of_char x" by (metis char_of_char of_char_of)
    then show ?thesis by (simp add: unat_of_nat)
  qed
  then show "c = d" using eq by (metis of_char_eq_iff)
qed

lemma bytes_of_string_inj [simp]: "bytes_of_string s = bytes_of_string t \<longleftrightarrow> s = t"
  unfolding bytes_of_string_def by (simp add: inj_map_eq_map char_byte_inj)

lemma sint_of_nat_small:
  assumes "n < 2 ^ (LENGTH('a::len) - 1)"
  shows "sint (of_nat n :: 'a word) = int n"
proof -
  have "int n < 2 ^ (LENGTH('a) - 1)" using assms of_nat_less_iff [of n "2 ^ (LENGTH('a) - 1)", where ?'a = int] by simp
  then have "signed_take_bit (LENGTH('a) - 1) (int n) = int n"
    by (intro signed_take_bit_int_eq_self) (auto intro: order_trans [of _ 0])
  then show ?thesis by (simp add: signed_of_nat)
qed

subsection \<open>Hexadecimal text\<close>

text \<open>\<^verbatim>\<open>hex.EncodeToString\<close> and \<^verbatim>\<open>hex.Encode\<close>.\<close>

definition hex_digit :: "nat \<Rightarrow> char" where
  "hex_digit n = ''0123456789abcdef'' ! n"

definition EncodeToString :: "byte list \<Rightarrow> string" where
  "EncodeToString bs = concat (map (\<lambda>b. [hex_digit (unat b div 16), hex_digit (unat b mod 16)]) bs)"

lemma length_EncodeToString [simp]: "length (EncodeToString bs) = 2 * length bs"
  by (induction bs) (simp_all add: EncodeToString_def)

end
