(* ===== verification/GoStrings.thy ===== *)
theory GoStrings
  imports Prelude "HOL-Library.Sublist"
begin

text \<open>
  The functions of Go's \<^verbatim>\<open>strings\<close> and \<^verbatim>\<open>path/filepath\<close> packages that maboo calls. A Go
  string is a sequence of bytes, so a \<open>char\<close> is one byte and a code point beyond ASCII is the
  sequence of bytes of its UTF-8 encoding. \<open>filepath.Clean\<close> is the lexical Unix algorithm, over the
  list of the path's elements.
\<close>

subsection \<open>Prefixes and substrings\<close>

definition HasPrefix :: "string \<Rightarrow> string \<Rightarrow> bool" where
  "HasPrefix s p = (take (length p) s = p)"

fun Contains :: "string \<Rightarrow> string \<Rightarrow> bool" where
  "Contains [] p = (p = [])"
| "Contains (c # s) p = (HasPrefix (c # s) p \<or> Contains s p)"

lemma HasPrefix_iff: "HasPrefix s p \<longleftrightarrow> prefix p s"
  by (metis HasPrefix_def append_eq_conv_conj append_take_drop_id prefixE prefixI)

lemma Contains_iff: "Contains s p \<longleftrightarrow> sublist p s"
  by (induction s) (auto simp: HasPrefix_iff sublist_Cons_right)

subsection \<open>Splitting and joining at a separator character\<close>

fun split_at :: "char \<Rightarrow> string \<Rightarrow> string list" where
  "split_at sep [] = [[]]"
| "split_at sep (c # s) =
     (if c = sep then [] # split_at sep s
      else case split_at sep s of [] \<Rightarrow> [[c]] | p # ps \<Rightarrow> (c # p) # ps)"

fun join_with :: "char \<Rightarrow> string list \<Rightarrow> string" where
  "join_with sep [] = []"
| "join_with sep [p] = p"
| "join_with sep (p # q # ps) = p @ sep # join_with sep (q # ps)"

lemma split_at_nonempty [simp]: "split_at sep s \<noteq> []"
  by (induction s) (auto split: list.splits)

lemma join_split [simp]: "join_with sep (split_at sep s) = s"
proof (induction s)
  case (Cons c s)
  then show ?case by (cases "split_at sep s"; cases "tl (split_at sep s)") auto
qed simp

lemma split_at_no_sep: "p \<in> set (split_at sep s) \<Longrightarrow> sep \<notin> set p"
proof (induction s arbitrary: p)
  case (Cons c s)
  then show ?case by (auto split: if_splits list.splits)
qed simp

lemma split_at_append:
  "sep \<notin> set p \<Longrightarrow> split_at sep (p @ sep # s) = p # split_at sep s"
  by (induction p) auto

lemma split_at_self: "sep \<notin> set p \<Longrightarrow> split_at sep p = [p]"
  by (induction p) auto

lemma split_join:
  assumes "ps \<noteq> []" "\<forall>p \<in> set ps. sep \<notin> set p"
  shows "split_at sep (join_with sep ps) = ps"
  using assms
  by (induction sep ps rule: join_with.induct) (auto simp: split_at_append split_at_self)

subsection \<open>Case and white space\<close>

definition lower_char :: "char \<Rightarrow> char" where
  "lower_char c = (let n = of_char c :: nat in if 65 \<le> n \<and> n \<le> 90 then char_of (n + 32) else c)"

definition upper_char :: "char \<Rightarrow> char" where
  "upper_char c = (let n = of_char c :: nat in if 97 \<le> n \<and> n \<le> 122 then char_of (n - 32) else c)"

text \<open>
  \<^verbatim>\<open>strings.ToLower\<close> is exact on ASCII and on the two code points beyond ASCII whose lower case
  is an ASCII letter (U+0130 and the Kelvin sign U+212A). Any other code point beyond ASCII lowers
  to a code point beyond ASCII; the model keeps its bytes, which no comparison with an ASCII
  literal can tell apart.
\<close>

fun ToLower :: "string \<Rightarrow> string" where
  "ToLower [] = []"
| "ToLower (c # s) =
     (if HasPrefix (c # s) [CHR 0xC4, CHR 0xB0] then CHR ''i'' # ToLower (drop 1 s)
      else if HasPrefix (c # s) [CHR 0xE2, CHR 0x84, CHR 0xAA] then CHR ''k'' # ToLower (drop 2 s)
      else lower_char c # ToLower s)"

definition spaces :: "string list" where
  "spaces = [[CHR 0x09], [CHR 0x0A], [CHR 0x0B], [CHR 0x0C], [CHR 0x0D], [CHR 0x20],
     [CHR 0xC2, CHR 0x85], [CHR 0xC2, CHR 0xA0], [CHR 0xE1, CHR 0x9A, CHR 0x80]]
   @ map (\<lambda>n. [CHR 0xE2, CHR 0x80, char_of (128 + n)]) [0 ..< 11]
   @ [[CHR 0xE2, CHR 0x80, CHR 0xA8], [CHR 0xE2, CHR 0x80, CHR 0xA9], [CHR 0xE2, CHR 0x80, CHR 0xAF],
      [CHR 0xE2, CHR 0x81, CHR 0x9F], [CHR 0xE3, CHR 0x80, CHR 0x80]]"

lemma spaces_nonempty: "sp \<in> set spaces \<Longrightarrow> sp \<noteq> []"
  by (auto simp: spaces_def)

fun trim_fuel :: "nat \<Rightarrow> string list \<Rightarrow> string \<Rightarrow> string" where
  "trim_fuel 0 ws s = s"
| "trim_fuel (Suc n) ws s =
     (case find (HasPrefix s) ws of None \<Rightarrow> s | Some w \<Rightarrow> trim_fuel n ws (drop (length w) s))"

definition TrimSpace :: "string \<Rightarrow> string" where
  "TrimSpace s =
     (let l = trim_fuel (length s) spaces s
      in rev (trim_fuel (length l) (map rev spaces) (rev l)))"

lemma trim_fuel_suffix: "\<exists>a. s = a @ trim_fuel n ws s"
proof (induction n arbitrary: s)
  case (Suc n)
  show ?case
  proof (cases "find (HasPrefix s) ws")
    case (Some w)
    with Suc [of "drop (length w) s"] obtain a where
      "drop (length w) s = a @ trim_fuel n ws (drop (length w) s)" by blast
    then have "s = (take (length w) s @ a) @ trim_fuel n ws (drop (length w) s)"
      by (metis append_assoc append_take_drop_id)
    with Some show ?thesis by (intro exI [of _ "take (length w) s @ a"]) simp
  qed simp
qed simp

text \<open>The fuel given in \<^term>\<open>TrimSpace\<close> is enough: no space is left at the front.\<close>

lemma trim_fuel_done:
  "(\<And>w. w \<in> set ws \<Longrightarrow> w \<noteq> []) \<Longrightarrow> length s \<le> n \<Longrightarrow> w \<in> set ws \<Longrightarrow> \<not> HasPrefix (trim_fuel n ws s) w"
proof (induction n arbitrary: s)
  case 0
  then show ?case by (auto simp: HasPrefix_def)
next
  case (Suc n)
  show ?case
  proof (cases "find (HasPrefix s) ws")
    case None
    then have "\<not> HasPrefix s w" using Suc.prems(3) by (simp add: find_None_iff)
    with None show ?thesis by simp
  next
    case (Some v)
    then have "v \<in> set ws" by (auto simp: find_Some_iff)
    then have "v \<noteq> []" by (rule Suc.prems(1))
    then have "length (drop (length v) s) \<le> n" using Suc.prems(2) by (cases v) auto
    with Suc.IH [of "drop (length v) s"] Suc.prems Some show ?thesis by auto
  qed
qed

lemma TrimSpace_trimmed: "sp \<in> set spaces \<Longrightarrow> \<not> HasPrefix (rev (TrimSpace s)) (rev sp)"
  unfolding TrimSpace_def Let_def rev_rev_ident
  by (rule trim_fuel_done) (auto dest: spaces_nonempty)

subsection \<open>Numbers\<close>

fun show_nat :: "nat \<Rightarrow> string" where
  "show_nat n = (if n < 10 then [char_of (48 + n)] else show_nat (n div 10) @ [char_of (48 + n mod 10)])"

declare show_nat.simps [simp del]

definition show_int :: "int \<Rightarrow> string" where
  "show_int i = (if i < 0 then CHR ''-'' # show_nat (nat (- i)) else show_nat (nat i))"

subsection \<open>Paths\<close>

fun clean_elems :: "bool \<Rightarrow> string list \<Rightarrow> string list \<Rightarrow> string list" where
  "clean_elems rooted out [] = rev out"
| "clean_elems rooted out (e # es) =
     (if e = [] \<or> e = ''.'' then clean_elems rooted out es
      else if e = ''..'' then
        (case out of
           o1 # os \<Rightarrow> if o1 = ''..'' then clean_elems rooted (e # out) es else clean_elems rooted os es
         | [] \<Rightarrow> if rooted then clean_elems rooted [] es else clean_elems rooted [e] es)
      else clean_elems rooted (e # out) es)"

definition path_elems :: "string \<Rightarrow> string list" where
  "path_elems path = clean_elems (HasPrefix path ''/'') [] (split_at CHR ''/'' path)"

definition Clean :: "string \<Rightarrow> string" where
  "Clean path =
     (if path = [] then ''.''
      else if HasPrefix path ''/'' then CHR ''/'' # join_with CHR ''/'' (path_elems path)
      else if path_elems path = [] then ''.'' else join_with CHR ''/'' (path_elems path))"

definition Join :: "string list \<Rightarrow> string" where
  "Join elems =
     (case filter (\<lambda>e. e \<noteq> []) elems of [] \<Rightarrow> [] | es \<Rightarrow> Clean (join_with CHR ''/'' es))"

definition Ext :: "string \<Rightarrow> string" where
  "Ext path =
     (let base = last (split_at CHR ''/'' path); parts = split_at CHR ''.'' base
      in if length parts = 1 then [] else CHR ''.'' # last parts)"

text \<open>A proper path element names an entry of its directory: no separator, no dot element.\<close>

definition proper :: "string \<Rightarrow> bool" where
  "proper e \<longleftrightarrow> e \<noteq> [] \<and> e \<noteq> ''.'' \<and> e \<noteq> ''..'' \<and> CHR ''/'' \<notin> set e"

lemma clean_elems_rooted_proper:
  "\<forall>e \<in> set out. proper e \<Longrightarrow> \<forall>e \<in> set es. CHR ''/'' \<notin> set e \<Longrightarrow>
   \<forall>e \<in> set (clean_elems True out es). proper e"
proof (induction es arbitrary: out)
  case (Cons e es)
  have ns: "\<forall>x \<in> set es. CHR ''/'' \<notin> set x" using Cons.prems by simp
  consider "e = [] \<or> e = ''.''" | "e = ''..''" "out = []" | o1 os where "e = ''..''" "out = o1 # os"
    | "proper e" using Cons.prems(2) by (cases out) (auto simp: proper_def)
  then show ?case
  proof cases
    case 1
    then show ?thesis using Cons.IH [OF Cons.prems(1) ns] by auto
  next
    case 2
    then show ?thesis using Cons.IH [of "[]"] ns by simp
  next
    case 3
    then have "o1 \<noteq> ''..''" "\<forall>x \<in> set os. proper x" using Cons.prems(1) by (simp_all add: proper_def)
    then show ?thesis using Cons.IH [of os] ns 3 by simp
  next
    case 4
    then have "\<forall>x \<in> set (e # out). proper x" using Cons.prems(1) by simp
    then show ?thesis using Cons.IH [of "e # out"] ns 4 by (simp add: proper_def)
  qed
qed simp

lemma clean_elems_append_proper:
  "\<forall>e \<in> set ps. proper e \<Longrightarrow> clean_elems r out (es @ ps) = clean_elems r out es @ ps"
proof (induction r out es rule: clean_elems.induct)
  case (1 r out)
  then show ?case
  proof (induction ps arbitrary: out)
    case (Cons p ps)
    then show ?case using Cons.IH [of "p # out"] by (simp add: proper_def)
  qed simp
next
  case (2 r out e es)
  then show ?case by (auto split: list.splits)
qed

lemma path_elems_proper: "HasPrefix p ''/'' \<Longrightarrow> \<forall>e \<in> set (path_elems p). proper e"
  unfolding path_elems_def
  by (simp, rule clean_elems_rooted_proper) (auto dest: split_at_no_sep)

lemma split_join_Cons:
  assumes "\<forall>e \<in> set ps. CHR ''/'' \<notin> set e"
  shows "split_at CHR ''/'' (root @ CHR ''/'' # join_with CHR ''/'' ps) =
    split_at CHR ''/'' root @ (if ps = [] then [[]] else ps)"
proof (induction root)
  case Nil
  then show ?case using split_join [of ps] assms by simp
next
  case (Cons c root)
  then show ?case by (cases "split_at CHR ''/'' root") auto
qed

lemma path_elems_under:
  assumes "\<forall>e \<in> set ps. proper e" "root \<noteq> []"
  shows "path_elems (root @ CHR ''/'' # CHR ''/'' # join_with CHR ''/'' ps) = path_elems root @ ps"
proof -
  have ns: "\<forall>e \<in> set ps. CHR ''/'' \<notin> set e" using assms(1) by (simp add: proper_def)
  have "split_at CHR ''/'' (root @ CHR ''/'' # CHR ''/'' # join_with CHR ''/'' ps) =
      split_at CHR ''/'' (root @ CHR ''/'' # join_with CHR ''/'' ([] # (if ps = [] then [[]] else ps)))"
    by (cases ps) auto
  also have "\<dots> = split_at CHR ''/'' root @ [[]] @ (if ps = [] then [[]] else ps)"
    using split_join_Cons [of "[] # (if ps = [] then [[]] else ps)" root] ns by auto
  finally have sp: "split_at CHR ''/'' (root @ CHR ''/'' # CHR ''/'' # join_with CHR ''/'' ps) =
      (split_at CHR ''/'' root @ [[]]) @ (if ps = [] then [[]] else ps)" by simp
  have skip: "clean_elems r out (es @ [] # fs) = clean_elems r out (es @ fs)" for r out es fs
    by (induction r out es rule: clean_elems.induct) (auto split: list.splits)
  have rooted: "HasPrefix (root @ x) ''/'' = HasPrefix root ''/''" for x
    using assms(2) by (cases root) (auto simp: HasPrefix_def)
  show ?thesis
    unfolding path_elems_def sp rooted
    using clean_elems_append_proper [OF assms(1), where out = "[]"] skip [of _ "[]" _ "[]"] skip
    by (cases ps) auto
qed

lemma Join_under:
  assumes "root \<noteq> []" "HasPrefix p ''/''"
  shows "path_elems (root @ CHR ''/'' # Clean p) = path_elems root @ path_elems p"
    and "Join [root, Clean p] = Clean (root @ CHR ''/'' # Clean p)"
proof -
  have "p \<noteq> []" using assms(2) by (auto simp: HasPrefix_def)
  then have "Clean p = CHR ''/'' # join_with CHR ''/'' (path_elems p)"
    using assms(2) by (simp add: Clean_def)
  then show "path_elems (root @ CHR ''/'' # Clean p) = path_elems root @ path_elems p"
    and "Join [root, Clean p] = Clean (root @ CHR ''/'' # Clean p)"
    using path_elems_under [OF path_elems_proper [OF assms(2)] assms(1)] assms(1)
    by (simp_all add: Join_def)
qed

end
