(* ===== verification/Digits.thy ===== *)
theory Digits
  imports GoStrings
begin

text \<open>
  Decimal digits, shared by the duration text of Go and the array keys of PHP: the value of a run of
  digits, and that it inverts the printing of numbers; and the binary logarithm that both need for floats.
\<close>

definition is_digit :: "char \<Rightarrow> bool" where
  "is_digit c \<longleftrightarrow> 48 \<le> (of_char c :: nat) \<and> (of_char c :: nat) \<le> 57"

definition digit_val :: "char \<Rightarrow> nat" where
  "digit_val c = of_char c - 48"

definition digit_char :: "nat \<Rightarrow> char" where
  "digit_char n = char_of (48 + n)"

definition read_nat :: "string \<Rightarrow> nat" where
  "read_nat s = foldl (\<lambda>x c. x * 10 + digit_val c) 0 s"

lemma digit_char_simps [simp]:
  assumes "n < 10"
  shows "is_digit (digit_char n)" "digit_val (digit_char n) = n"
  using assms by (simp_all add: is_digit_def digit_val_def digit_char_def of_char_of)

lemma digit_char_eq_iff: "m < 10 \<Longrightarrow> n < 10 \<Longrightarrow> digit_char m = digit_char n \<longleftrightarrow> m = n"
  using digit_char_simps(2) by metis

lemma digit_char_0: "digit_char 0 = CHR ''0''"
  unfolding digit_char_def by code_simp

lemma is_digit_char:
  assumes "is_digit c"
  shows "digit_char (digit_val c) = c" "digit_val c < 10"
  using assms by (auto simp: is_digit_def digit_val_def digit_char_def)

lemma not_digit [simp]: "\<not> is_digit CHR ''-''" "\<not> is_digit CHR ''.''" "\<not> is_digit CHR ''+''"
  by (simp_all add: is_digit_def)

lemma show_nat_rec:
  "show_nat n = (if n < 10 then [digit_char n] else show_nat (n div 10) @ [digit_char (n mod 10)])"
  by (subst show_nat.simps) (simp add: digit_char_def)

lemma read_nat_snoc: "read_nat (s @ [c]) = read_nat s * 10 + digit_val c"
  by (simp add: read_nat_def)

lemma show_nat_nonempty [simp]: "show_nat n \<noteq> []"
  by (subst show_nat_rec) simp

lemma show_nat_digits [simp]: "list_all is_digit (show_nat n)"
  by (induction n rule: less_induct, subst show_nat_rec) auto

lemma read_show_nat [simp]: "read_nat (show_nat n) = n"
proof (induction n rule: less_induct)
  case (less n)
  show ?case
  proof (cases "n < 10")
    case True
    then show ?thesis by (simp add: show_nat_rec read_nat_def)
  next
    case False
    then have "read_nat (show_nat (n div 10)) = n div 10" by (intro less.IH) simp
    then show ?thesis using False by (subst show_nat_rec) (simp add: read_nat_snoc)
  qed
qed

lemma show_nat_inj [simp]: "show_nat m = show_nat n \<longleftrightarrow> m = n"
  by (metis read_show_nat)

lemma hd_show_nat: "hd (show_nat n) = CHR ''0'' \<longleftrightarrow> n = 0"
proof (induction n rule: less_induct)
  case (less n)
  show ?case
  proof (cases "n < 10")
    case True
    then show ?thesis using digit_char_eq_iff [of n 0] by (simp add: show_nat_rec digit_char_0)
  next
    case False
    then have "hd (show_nat n) = hd (show_nat (n div 10))" by (subst show_nat_rec) simp
    then show ?thesis using False less.IH [of "n div 10"] by simp
  qed
qed

lemma show_nat_0 [simp]: "show_nat 0 = ''0''"
  by (simp add: show_nat_rec digit_char_0)

lemma length_show_nat: "n < 10 ^ Suc k \<Longrightarrow> length (show_nat n) \<le> Suc k"
proof (induction k arbitrary: n)
  case 0
  then show ?case by (simp add: show_nat_rec)
next
  case (Suc k)
  then have "n div 10 < 10 ^ Suc k" by (intro less_mult_imp_div_less) simp
  then show ?case using Suc.IH [of "n div 10"] by (cases "n < 10") (simp_all add: show_nat_rec [of n])
qed

lemma hd_show_nat_digit [simp]: "is_digit (hd (show_nat n))"
  by (metis hd_in_set list_all_iff show_nat_digits show_nat_nonempty)

text \<open>A canonical decimal without a leading zero is what printing its value gives.\<close>

lemma read_nat_ge: "s \<noteq> [] \<Longrightarrow> list_all is_digit s \<Longrightarrow> hd s \<noteq> CHR ''0'' \<Longrightarrow> 0 < read_nat s"
proof (induction s rule: rev_induct)
  case (snoc c s)
  show ?case
  proof (cases "s = []")
    case True
    then have "digit_val c \<noteq> 0" using snoc.prems is_digit_char(1) [of c] digit_char_0 by (intro notI) simp
    then show ?thesis by (simp add: True read_nat_def)
  next
    case False
    then show ?thesis using snoc by (simp add: read_nat_snoc)
  qed
qed simp

lemma show_read_nat:
  assumes "s \<noteq> []" "list_all is_digit s" "hd s \<noteq> CHR ''0'' \<or> length s = 1"
  shows "show_nat (read_nat s) = s"
  using assms
proof (induction s rule: rev_induct)
  case (snoc c s)
  have c: "is_digit c" using snoc.prems by simp
  note d = is_digit_char [OF c]
  show ?case
  proof (cases "s = []")
    case True
    then show ?thesis using d by (simp add: read_nat_def show_nat_rec)
  next
    case False
    then have h: "hd s \<noteq> CHR ''0''" using snoc.prems by auto
    then have pos: "0 < read_nat s" using read_nat_ge False snoc.prems by simp
    have "show_nat (read_nat s) = s" using snoc h False by simp
    then show ?thesis using pos d by (simp add: read_nat_snoc show_nat_rec [of "read_nat s * 10 + digit_val c"])
  qed
qed simp

subsection \<open>Binary logarithm\<close>

fun floor_log2 :: "nat \<Rightarrow> nat" where
  "floor_log2 n = (if n < 2 then 0 else Suc (floor_log2 (n div 2)))"

declare floor_log2.simps [simp del]

lemma floor_log2_le: "n < 2 ^ Suc k \<Longrightarrow> floor_log2 n \<le> k"
proof (induction k arbitrary: n)
  case (Suc k)
  then have "n div 2 < 2 ^ Suc k" by (intro less_mult_imp_div_less) (simp add: mult.commute)
  then show ?case using Suc.IH by (subst floor_log2.simps) auto
qed (simp add: floor_log2.simps)

end
