(* ===== verification/Config.thy ===== *)
theory Config
  imports Prelude
begin

text \<open>
  Configuration (\<^verbatim>\<open>internal/config\<close>): the nested records, \<open>Default\<close>, \<open>Validate\<close> with its checks
  in the order of the source, and \<open>Load\<close>. Reading the file and decoding YAML are parameters: a file
  system lookup and a function that updates a configuration from the bytes. Durations are
  nanoseconds.
\<close>

record ACMEConfig =
  ac_Email :: string
  ac_Domains :: "string list"
  ac_CacheDir :: string
  ac_Staging :: bool

record TLSConfig =
  tc_Auto :: bool
  tc_Cert :: string
  tc_Key :: string
  tc_ACME :: ACMEConfig

record ServerConfig =
  sc_Address :: string
  sc_Mode :: string
  sc_HTTP2 :: bool
  sc_HTTP3 :: bool
  sc_TLS :: TLSConfig
  sc_HTTPRedirect :: bool

record PHPConfig =
  ph_Version :: string
  ph_Mode :: string
  ph_Binary :: string
  ph_Worker :: string
  ph_INI :: "(string \<times> string) list"

record AppConfig =
  ap_Root :: string
  ap_Entry :: string
  ap_Env :: "(string \<times> string) list"

record PoolConfig =
  po_MinWorkers :: int
  po_MaxWorkers :: int
  po_MaxJobs :: int
  po_MaxMemory :: string
  po_IdleTimeout :: int
  po_AllocateTimeout :: int
  po_RequestTimeout :: int

record WebSocketConfig =
  ws_Enabled :: bool
  ws_Path :: string
  ws_Worker :: string
  ws_MaxConnections :: int
  ws_PingInterval :: int

record StaticConfig =
  st_Root :: string
  st_CacheControl :: string

record LogConfig =
  lg_Level :: string
  lg_Format :: string
  lg_Output :: string

record MetricsConfig =
  mt_Enabled :: bool
  mt_Path :: string

record WatchConfig =
  wt_Enabled :: bool
  wt_Dirs :: "string list"
  wt_Interval :: int

record WorkerConfig =
  wc_Script :: string
  wc_Pattern :: string
  wc_Count :: int
  wc_Watch :: "string list"

record Config =
  cf_Server :: ServerConfig
  cf_PHP :: PHPConfig
  cf_Pool :: PoolConfig
  cf_App :: AppConfig
  cf_WebSocket :: WebSocketConfig
  cf_Static :: StaticConfig
  cf_Logging :: LogConfig
  cf_Metrics :: MetricsConfig
  cf_Watch :: WatchConfig
  cf_Workers :: "WorkerConfig list"

definition ModeNative :: string where "ModeNative = ''native''"
definition ModeCaddy :: string where "ModeCaddy = ''caddy''"

definition Second :: int where "Second = 1000000000"

definition Default :: Config where
  "Default = \<lparr>
     cf_Server = \<lparr>sc_Address = ''0.0.0.0:8080'', sc_Mode = ModeNative, sc_HTTP2 = True, sc_HTTP3 = False,
       sc_TLS = \<lparr>tc_Auto = False, tc_Cert = '''', tc_Key = '''',
         tc_ACME = \<lparr>ac_Email = '''', ac_Domains = [], ac_CacheDir = '''', ac_Staging = False\<rparr>\<rparr>,
       sc_HTTPRedirect = False\<rparr>,
     cf_PHP = \<lparr>ph_Version = ''auto'', ph_Mode = ''worker'', ph_Binary = '''', ph_Worker = '''',
       ph_INI = [(''memory_limit'', ''256M''), (''max_execution_time'', ''30'')]\<rparr>,
     cf_Pool = \<lparr>po_MinWorkers = 4, po_MaxWorkers = 32, po_MaxJobs = 10000, po_MaxMemory = ''128M'',
       po_IdleTimeout = 60 * Second, po_AllocateTimeout = 30 * Second, po_RequestTimeout = 30 * Second\<rparr>,
     cf_App = \<lparr>ap_Root = ''.'', ap_Entry = ''auto'', ap_Env = []\<rparr>,
     cf_WebSocket = \<lparr>ws_Enabled = False, ws_Path = ''/ws'', ws_Worker = '''', ws_MaxConnections = 10000,
       ws_PingInterval = 30 * Second\<rparr>,
     cf_Static = \<lparr>st_Root = ''public'', st_CacheControl = ''public, max-age=3600''\<rparr>,
     cf_Logging = \<lparr>lg_Level = ''info'', lg_Format = ''json'', lg_Output = ''stdout''\<rparr>,
     cf_Metrics = \<lparr>mt_Enabled = True, mt_Path = ''/metrics''\<rparr>,
     cf_Watch = \<lparr>wt_Enabled = False, wt_Dirs = [], wt_Interval = 2 * Second\<rparr>,
     cf_Workers = []\<rparr>"

datatype config_error =
    ErrMinWorkers int
  | ErrMaxWorkers int int
  | ErrMaxJobs int
  | ErrPHPMode string
  | ErrPHPVersion string
  | ErrPHPWorker
  | ErrServerAddress
  | ErrWebSocketWorker

definition php_versions :: "string list" where
  "php_versions = [''7.4'', ''8.0'', ''8.1'', ''8.2'', ''8.3'', ''8.4'']"

definition Validate :: "Config \<Rightarrow> config_error option" where
  "Validate c =
     (let pool = cf_Pool c; php = cf_PHP c in
      if po_MinWorkers pool < 1 then Some (ErrMinWorkers (po_MinWorkers pool))
      else if po_MaxWorkers pool < po_MinWorkers pool
        then Some (ErrMaxWorkers (po_MaxWorkers pool) (po_MinWorkers pool))
      else if po_MaxJobs pool < 0 then Some (ErrMaxJobs (po_MaxJobs pool))
      else if ph_Mode php \<notin> set [''worker'', ''request''] then Some (ErrPHPMode (ph_Mode php))
      else if ph_Version php \<notin> set (''auto'' # php_versions) then Some (ErrPHPVersion (ph_Version php))
      else if ph_Binary php \<noteq> '''' \<and> ph_Worker php = '''' \<and> length (cf_Workers c) = 0
        then Some ErrPHPWorker
      else if sc_Address (cf_Server c) = '''' then Some ErrServerAddress
      else if ws_Enabled (cf_WebSocket c) \<and> ws_Worker (cf_WebSocket c) = ''''
        then Some ErrWebSocketWorker
      else None)"

datatype ('r, 'y) load_error = ErrReading 'r | ErrParsing 'y | ErrInvalid config_error

definition Load ::
  "(string \<Rightarrow> 'r + byte list) \<Rightarrow> (byte list \<Rightarrow> Config \<Rightarrow> 'y + Config) \<Rightarrow> string \<Rightarrow>
   ('r, 'y) load_error + Config" where
  "Load readFile yamlUnmarshal path =
     (let cfg = Default in
      case readFile path of
        Inl err \<Rightarrow> Inl (ErrReading err)
      | Inr data \<Rightarrow>
          (case yamlUnmarshal data cfg of
             Inl err \<Rightarrow> Inl (ErrParsing err)
           | Inr cfg' \<Rightarrow>
               (case Validate cfg' of
                  Some err \<Rightarrow> Inl (ErrInvalid err)
                | None \<Rightarrow> Inr cfg')))"

lemma Validate_None_iff:
  "Validate c = None \<longleftrightarrow>
     1 \<le> po_MinWorkers (cf_Pool c) \<and> po_MinWorkers (cf_Pool c) \<le> po_MaxWorkers (cf_Pool c) \<and>
     0 \<le> po_MaxJobs (cf_Pool c) \<and> ph_Mode (cf_PHP c) \<in> {''worker'', ''request''} \<and>
     ph_Version (cf_PHP c) \<in> set (''auto'' # php_versions) \<and>
     (ph_Binary (cf_PHP c) = '''' \<or> ph_Worker (cf_PHP c) \<noteq> '''' \<or> cf_Workers c \<noteq> []) \<and>
     sc_Address (cf_Server c) \<noteq> '''' \<and>
     (ws_Enabled (cf_WebSocket c) \<longrightarrow> ws_Worker (cf_WebSocket c) \<noteq> '''')"
  unfolding Validate_def Let_def by (auto simp: not_less)

lemma Validate_Default: "Validate Default = None"
  by (simp add: Validate_None_iff Default_def)

lemma Load_InrD: "Load rd un path = Inr c \<Longrightarrow> Validate c = None"
  by (auto simp: Load_def Let_def split: sum.splits option.splits)

text \<open>
  C28: Loading never yields an invalid configuration and never loses one that is valid: \<open>Load\<close>
  returns a configuration exactly when the file is read, YAML decodes it over the defaults, and the
  result satisfies every constraint (at least one worker, max not below min, non-negative job limit,
  a known mode and version, a worker script for an external binary, an address, a WebSocket worker
  when WebSockets are on).
\<close>
theorem Load_iff_valid:
  "Load readFile yamlUnmarshal path = Inr c \<longleftrightarrow>
     (\<exists>data. readFile path = Inr data \<and> yamlUnmarshal data Default = Inr c) \<and>
     1 \<le> po_MinWorkers (cf_Pool c) \<and> po_MinWorkers (cf_Pool c) \<le> po_MaxWorkers (cf_Pool c) \<and>
     0 \<le> po_MaxJobs (cf_Pool c) \<and> ph_Mode (cf_PHP c) \<in> {''worker'', ''request''} \<and>
     ph_Version (cf_PHP c) \<in> {''auto'', ''7.4'', ''8.0'', ''8.1'', ''8.2'', ''8.3'', ''8.4''} \<and>
     \<not> (ph_Binary (cf_PHP c) \<noteq> '''' \<and> ph_Worker (cf_PHP c) = '''' \<and> cf_Workers c = []) \<and>
     sc_Address (cf_Server c) \<noteq> '''' \<and>
     \<not> (ws_Enabled (cf_WebSocket c) \<and> ws_Worker (cf_WebSocket c) = '''')"
proof -
  have "Load readFile yamlUnmarshal path = Inr c \<longleftrightarrow>
      (\<exists>data. readFile path = Inr data \<and> yamlUnmarshal data Default = Inr c) \<and> Validate c = None"
    by (auto simp: Load_def Let_def split: sum.splits option.splits)
  then show ?thesis unfolding Validate_None_iff php_versions_def by simp
qed

end
