(* ===== verification/PhpEngine.thy ===== *)
theory PhpEngine
  imports Digits Config
begin

text \<open>
  The PHP engine package (\<^verbatim>\<open>internal/phpengine\<close>): the engine's lifecycle (\<^verbatim>\<open>engine.go\<close>), the
  choice of a PHP version (\<^verbatim>\<open>selector.go\<close>) and the detection of entry point and framework
  (\<^verbatim>\<open>detector.go\<close>). The file system is a parameter (a \<open>stat\<close> test, a \<open>readFile\<close> lookup), and so
  are the JSON decoding of \<^verbatim>\<open>composer.json\<close> and the embedded placeholder page.
\<close>

subsection \<open>Engine\<close>

record Engine =
  en_version :: string
  en_started :: bool

datatype engine_error = ErrUnsupportedVersion string | ErrNotStarted

definition validVersions :: "string list" where
  "validVersions = [''7.4'', ''8.0'', ''8.1'', ''8.2'', ''8.3'', ''8.4'']"

definition NewEngine :: "string \<Rightarrow> engine_error + Engine" where
  "NewEngine v =
     (if v \<notin> set validVersions then Inl (ErrUnsupportedVersion v)
      else Inr \<lparr>en_version = v, en_started = False\<rparr>)"

definition Startup :: "Engine \<Rightarrow> engine_error option \<times> Engine" where
  "Startup e = (if en_started e then (None, e) else (None, e\<lparr>en_started := True\<rparr>))"

definition Shutdown :: "Engine \<Rightarrow> engine_error option \<times> Engine" where
  "Shutdown e = (if \<not> en_started e then (None, e) else (None, e\<lparr>en_started := False\<rparr>))"

record Response =
  rp_Status :: int
  rp_Headers :: "(string \<times> string) list"
  rp_Body :: string

function ReplaceAll :: "string \<Rightarrow> string \<Rightarrow> string \<Rightarrow> string" where
  "ReplaceAll s old new =
     (if old = [] then s
      else case s of [] \<Rightarrow> []
      | c # s' \<Rightarrow> if HasPrefix s old then new @ ReplaceAll (drop (length old) s) old new
                   else c # ReplaceAll s' old new)"
  by pat_completeness auto
termination
  by (relation "measure (\<lambda>(s, old, new). length s)") auto

declare ReplaceAll.simps [simp del]

definition Execute :: "string \<Rightarrow> Engine \<Rightarrow> engine_error + Response" where
  "Execute placeholderHTML e =
     (if \<not> en_started e then Inl ErrNotStarted
      else Inr \<lparr>rp_Status = 200,
        rp_Headers = [(''Content-Type'', ''text/html; charset=utf-8'')],
        rp_Body = ReplaceAll placeholderHTML ''{{PHP_VERSION}}'' (en_version e)\<rparr>)"

lemma Startup_simps [simp]: "fst (Startup e) = None" "snd (Startup e) = e\<lparr>en_started := True\<rparr>"
  by (auto simp: Startup_def)

lemma Shutdown_simps [simp]: "fst (Shutdown e) = None" "snd (Shutdown e) = e\<lparr>en_started := False\<rparr>"
  by (auto simp: Shutdown_def)

lemma Execute_Inl_iff: "Execute html e = Inl err \<longleftrightarrow> \<not> en_started e \<and> err = ErrNotStarted"
  by (auto simp: Execute_def)

lemma Execute_started: "en_started e \<Longrightarrow> \<exists>r. Execute html e = Inr r \<and> rp_Status r = 200"
  by (simp add: Execute_def)

subsection \<open>Version selection\<close>

text \<open>\<^verbatim>\<open>\d+\.\d+\<close> at the front of a string: the longest match and what follows it.\<close>

definition major_minor :: "string \<Rightarrow> (string \<times> string) option" where
  "major_minor s =
     (let a = takeWhile is_digit s; r = dropWhile is_digit s in
      case r of
        c # r' \<Rightarrow>
          (let b = takeWhile is_digit r' in
           if c = CHR ''.'' \<and> a \<noteq> [] \<and> b \<noteq> [] then Some (a @ CHR ''.'' # b, dropWhile is_digit r')
           else None)
      | [] \<Rightarrow> None)"

text \<open>The four patterns, in the order of the source; the result is the captured group.\<close>

definition constraint_patterns :: "(string \<Rightarrow> string option) list" where
  "constraint_patterns =
    [\<lambda>s. if HasPrefix s ''>='' then
           map_option fst (major_minor (drop 2 s))
         else if HasPrefix s ''>'' then map_option fst (major_minor (drop 1 s)) else None,
     \<lambda>s. if HasPrefix s ''^'' then map_option fst (major_minor (drop 1 s)) else None,
     \<lambda>s. if HasPrefix s ''~'' then map_option fst (major_minor (drop 1 s)) else None,
     \<lambda>s. (case major_minor s of
            Some (m, c # d) \<Rightarrow>
              if c = CHR ''.'' \<and> d \<noteq> [] \<and> list_all is_digit d then Some m else None
          | _ \<Rightarrow> None)]"

definition atoi :: "string \<Rightarrow> int64" where
  "atoi s = foldl (\<lambda>n c. if is_digit c then n * 10 + word_of_nat (of_char c - 48) else n) 0 s"

definition part :: "string list \<Rightarrow> nat \<Rightarrow> int64" where
  "part parts i = (if i < length parts then atoi (parts ! i) else 0)"

fun compare_parts :: "nat list \<Rightarrow> string list \<Rightarrow> string list \<Rightarrow> int" where
  "compare_parts [] pa pb = 0"
| "compare_parts (i # is) pa pb =
     (let va = part pa i; vb = part pb i in
      if sint va < sint vb then -1 else if sint va > sint vb then 1 else compare_parts is pa pb)"

definition compareVersions :: "string \<Rightarrow> string \<Rightarrow> int" where
  "compareVersions a b = compare_parts [0, 1] (split_at CHR ''.'' a) (split_at CHR ''.'' b)"

fun highest_loop :: "string list \<Rightarrow> string \<Rightarrow> string" where
  "highest_loop [] m = ''8.3''"
| "highest_loop (v # vs) m = (if compareVersions v m \<ge> 0 then ''8.3'' else highest_loop vs m)"

definition getHighestCompatible :: "string \<Rightarrow> string" where
  "getHighestCompatible m = highest_loop [''7.4'', ''8.0'', ''8.1'', ''8.2'', ''8.3'', ''8.4''] m"

fun first_match :: "(string \<Rightarrow> string option) list \<Rightarrow> string \<Rightarrow> string option" where
  "first_match [] s = None"
| "first_match (p # ps) s = (case p s of Some m \<Rightarrow> Some m | None \<Rightarrow> first_match ps s)"

definition resolveVersionConstraint :: "string \<Rightarrow> string" where
  "resolveVersionConstraint constr =
     (let c = TrimSpace constr in
      case first_match constraint_patterns c of
        Some minVersion \<Rightarrow> getHighestCompatible minVersion
      | None \<Rightarrow>
          (case major_minor c of
             Some (m, []) \<Rightarrow> getHighestCompatible c
           | _ \<Rightarrow> ''''))"

definition parseComposerPHPVersion :: "(byte list \<Rightarrow> (string \<rightharpoonup> string) option) \<Rightarrow> byte list \<Rightarrow> string" where
  "parseComposerPHPVersion jsonRequire data =
     (case jsonRequire data of
        None \<Rightarrow> ''''
      | Some require \<Rightarrow>
          (case require ''php'' of
             None \<Rightarrow> ''''
           | Some phpConstraint \<Rightarrow> resolveVersionConstraint phpConstraint))"

definition SelectVersion ::
  "(string \<Rightarrow> byte list option) \<Rightarrow> (byte list \<Rightarrow> (string \<rightharpoonup> string) option) \<Rightarrow>
   string \<Rightarrow> string \<Rightarrow> string" where
  "SelectVersion readFile jsonRequire projectRoot explicit =
     (if explicit \<noteq> '''' \<and> explicit \<noteq> ''auto'' then explicit
      else case readFile (Join [projectRoot, ''composer.json'']) of
        Some data \<Rightarrow>
          (let version = parseComposerPHPVersion jsonRequire data
           in if version \<noteq> '''' then version else ''8.3'')
      | None \<Rightarrow> ''8.3'')"

subsection \<open>Detection\<close>

definition entry_candidates :: "string list" where
  "entry_candidates = [''public/index.php'', ''index.php'', ''app.php'', ''frontend.php'', ''main.php'']"

definition DetectEntryPoint :: "(string \<Rightarrow> bool) \<Rightarrow> string \<Rightarrow> string \<Rightarrow> string" where
  "DetectEntryPoint stat docRoot explicit =
     (if explicit \<noteq> '''' \<and> explicit \<noteq> ''auto'' then explicit
      else case find (\<lambda>candidate. stat (Join [docRoot, candidate])) entry_candidates of
        Some candidate \<Rightarrow> candidate
      | None \<Rightarrow> ''index.php'')"

definition DetectFramework :: "(string \<Rightarrow> bool) \<Rightarrow> string \<Rightarrow> string" where
  "DetectFramework stat docRoot =
     (if stat (Join [docRoot, ''artisan'']) then ''laravel''
      else if stat (Join [docRoot, ''bin'', ''console'']) then ''symfony''
      else if stat (Join [docRoot, ''wp-config.php'']) then ''wordpress''
      else if stat (Join [docRoot, ''core'', ''lib'', ''Drupal.php'']) then ''drupal''
      else ''generic'')"

subsection \<open>Lemmas\<close>

lemma highest_loop_const [simp]: "highest_loop vs m = ''8.3''"
  by (induction vs) auto

lemma resolveVersionConstraint_range: "resolveVersionConstraint c \<in> {'''', ''8.3''}"
  by (simp add: resolveVersionConstraint_def getHighestCompatible_def Let_def
      split: option.splits list.splits prod.splits)

lemma SelectVersion_eq:
  "SelectVersion rd js root explicit =
     (if explicit \<noteq> '''' \<and> explicit \<noteq> ''auto'' then explicit else ''8.3'')"
  using resolveVersionConstraint_range
  by (auto simp: SelectVersion_def parseComposerPHPVersion_def Let_def split: option.splits)

lemma NewEngine_ok_iff: "(\<exists>e. NewEngine v = Inr e) \<longleftrightarrow> v \<in> set validVersions"
  by (auto simp: NewEngine_def)

lemma validated_version_engine:
  assumes "Validate c = None"
  shows "\<exists>e. NewEngine (SelectVersion rd js root (ph_Version (cf_PHP c))) = Inr e \<and> \<not> en_started e"
  using assms by (auto simp: Validate_None_iff SelectVersion_eq NewEngine_def validVersions_def php_versions_def)

subsection \<open>Properties\<close>

text \<open>
  The chosen PHP version never depends on the project: whatever files the project has and
  whatever \<^verbatim>\<open>composer.json\<close> says, an explicit version is taken as it is and every other setting
  gives 8.3. The constraint found in \<^verbatim>\<open>composer.json\<close> is parsed, but the version it resolves to is
  always 8.3 or none.
\<close>
theorem SelectVersion_ignores_composer:
  "SelectVersion readFile jsonRequire root explicit =
     (if explicit = '''' \<or> explicit = ''auto'' then ''8.3'' else explicit)"
  by (simp add: SelectVersion_eq)

text \<open>
  The version resolved for a minimum is not always compatible with it: by the package's own
  comparison, the result 8.3 is below a minimum of 8.4, although 8.4 is one of the versions the
  function goes through.
\<close>
theorem getHighestCompatible_below_minimum:
  "compareVersions (getHighestCompatible ''8.4'') ''8.4'' = -1 \<and>
   resolveVersionConstraint ''^8.4'' = ''8.3'' \<and> ''8.4'' \<in> set validVersions"
  by code_simp

text \<open>
  Detection returns the first candidate that exists: an explicit entry point wins; otherwise the
  result is a candidate that exists while none before it does, or \<^verbatim>\<open>index.php\<close> when no candidate
  exists.
\<close>
theorem DetectEntryPoint_first:
  "if explicit \<noteq> '''' \<and> explicit \<noteq> ''auto'' then DetectEntryPoint stat root explicit = explicit
   else (\<exists>i < length entry_candidates.
           DetectEntryPoint stat root explicit = entry_candidates ! i \<and>
           stat (Join [root, entry_candidates ! i]) \<and>
           \<not> (\<exists>j < i. stat (Join [root, entry_candidates ! j])))
        \<or> DetectEntryPoint stat root explicit = ''index.php'' \<and>
          \<not> (\<exists>c \<in> set entry_candidates. stat (Join [root, c]))"
  unfolding DetectEntryPoint_def
  by (auto simp: find_Some_iff find_None_iff split: option.splits)

end
