(* ===== verification/EmbWorker.thy ===== *)
theory EmbWorker
  imports PhpEngine
begin

text \<open>
  One embedded worker (\<^verbatim>\<open>internal/worker/worker.go\<close>). The state, the job counter and the engine are
  shared with other goroutines, so each atomic store of \<open>Exec\<close> and \<open>Stop\<close> is an operation of its
  own (\<open>store_state\<close>, \<open>run_engine\<close>, \<open>add_job\<close>, \<open>shutdown_engine\<close>); \<open>Exec\<close> and \<open>Stop\<close> compose them
  as the source does when nothing interferes.
\<close>

datatype WorkerState = StateIdle | StateBusy | StateStopped

record Worker =
  wk_id :: int
  wk_engine :: Engine
  wk_state :: WorkerState
  wk_jobs :: int64
  wk_maxJobs :: int

text \<open>The environment of the pool: the file system, the JSON decoder, the placeholder page.\<close>

record env =
  ev_readFile :: "string \<Rightarrow> byte list option"
  ev_jsonRequire :: "byte list \<Rightarrow> (string \<rightharpoonup> string) option"
  ev_placeholder :: string

definition NewWorker :: "env \<Rightarrow> int \<Rightarrow> Config \<Rightarrow> engine_error + Worker" where
  "NewWorker ev wid cfg =
     (let v = SelectVersion (ev_readFile ev) (ev_jsonRequire ev) (ap_Root (cf_App cfg)) (ph_Version (cf_PHP cfg))
      in case NewEngine v of
        Inl err \<Rightarrow> Inl err
      | Inr engine \<Rightarrow> Inr \<lparr>wk_id = wid, wk_engine = engine, wk_state = StateIdle, wk_jobs = 0,
          wk_maxJobs = po_MaxJobs (cf_Pool cfg)\<rparr>)"

definition store_state :: "WorkerState \<Rightarrow> Worker \<Rightarrow> Worker" where
  "store_state st w = w\<lparr>wk_state := st\<rparr>"

definition Start :: "Worker \<Rightarrow> engine_error option \<times> Worker" where
  "Start w =
     (let w = store_state StateIdle w; (err, e) = Startup (wk_engine w)
      in (err, w\<lparr>wk_engine := e\<rparr>))"

definition shutdown_engine :: "Worker \<Rightarrow> Worker" where
  "shutdown_engine w = w\<lparr>wk_engine := snd (Shutdown (wk_engine w))\<rparr>"

definition Stop :: "Worker \<Rightarrow> engine_error option \<times> Worker" where
  "Stop w = (fst (Shutdown (wk_engine w)), shutdown_engine (store_state StateStopped w))"

definition run_engine :: "env \<Rightarrow> Worker \<Rightarrow> engine_error + Response" where
  "run_engine ev w = Execute (ev_placeholder ev) (wk_engine w)"

definition add_job :: "Worker \<Rightarrow> Worker" where
  "add_job w = w\<lparr>wk_jobs := wk_jobs w + 1\<rparr>"

definition Exec :: "env \<Rightarrow> Worker \<Rightarrow> (engine_error + Response) \<times> Worker" where
  "Exec ev w =
     (let w = store_state StateBusy w
      in case run_engine ev w of
        Inl err \<Rightarrow> (Inl err, store_state StateIdle w)
      | Inr resp \<Rightarrow> (Inr resp, store_state StateIdle (add_job w)))"

definition NeedsRecycle :: "Worker \<Rightarrow> bool" where
  "NeedsRecycle w \<longleftrightarrow> wk_maxJobs w > 0 \<and> sint (wk_jobs w) \<ge> wk_maxJobs w"

lemmas worker_defs = store_state_def shutdown_engine_def add_job_def

lemma worker_fields [simp]:
  "wk_id (store_state st w) = wk_id w" "wk_engine (store_state st w) = wk_engine w"
  "wk_jobs (store_state st w) = wk_jobs w" "wk_maxJobs (store_state st w) = wk_maxJobs w"
  "wk_state (store_state st w) = st"
  "wk_id (shutdown_engine w) = wk_id w" "en_started (wk_engine (shutdown_engine w)) = False"
  "en_version (wk_engine (shutdown_engine w)) = en_version (wk_engine w)"
  "wk_jobs (shutdown_engine w) = wk_jobs w" "wk_maxJobs (shutdown_engine w) = wk_maxJobs w"
  "wk_state (shutdown_engine w) = wk_state w"
  "wk_id (add_job w) = wk_id w" "wk_engine (add_job w) = wk_engine w"
  "wk_jobs (add_job w) = wk_jobs w + 1" "wk_maxJobs (add_job w) = wk_maxJobs w"
  "wk_state (add_job w) = wk_state w"
  by (simp_all add: worker_defs)

lemma NewWorker_valid:
  assumes "Validate cfg = None"
  obtains w where "NewWorker ev wid cfg = Inr w" "wk_id w = wid" "\<not> en_started (wk_engine w)"
    "wk_jobs w = 0" "wk_maxJobs w = po_MaxJobs (cf_Pool cfg)" "wk_state w = StateIdle"
proof -
  obtain e where "NewEngine (SelectVersion (ev_readFile ev) (ev_jsonRequire ev) (ap_Root (cf_App cfg))
      (ph_Version (cf_PHP cfg))) = Inr e" "\<not> en_started e"
    using validated_version_engine [OF assms] by blast
  then show thesis by (intro that) (auto simp: NewWorker_def Let_def)
qed

lemma run_engine_Inr_iff: "(\<exists>r. run_engine ev w = Inr r) \<longleftrightarrow> en_started (wk_engine w)"
  by (auto simp: run_engine_def Execute_def)

lemma run_engine_status: "run_engine ev w = Inr r \<Longrightarrow> rp_Status r = 200"
  by (auto simp: run_engine_def Execute_def split: if_splits)

lemma run_engine_Inl: "run_engine ev w = Inl e \<Longrightarrow> \<not> en_started (wk_engine w) \<and> e = ErrNotStarted"
  by (simp add: run_engine_def Execute_Inl_iff)

end
