(* ===== verification/GoChan.thy ===== *)
theory GoChan
  imports Prelude
begin

text \<open>
  A buffered Go channel: its buffer, its capacity and whether it is closed. A send on a closed
  channel panics, a send on a full one blocks; a receive takes the oldest element, blocks on an
  empty open channel and yields the zero value on an empty closed one; closing twice panics.
\<close>

record 'a chan =
  ch_buf :: "'a list"
  ch_cap :: nat
  ch_closed :: bool

datatype 'a send_result = Sent "'a chan" | SendBlocks | SendPanics
datatype 'a recv_result = Received 'a "'a chan" | RecvZero | RecvBlocks

definition make_chan :: "nat \<Rightarrow> 'a chan" where
  "make_chan n = \<lparr>ch_buf = [], ch_cap = n, ch_closed = False\<rparr>"

definition chan_send :: "'a \<Rightarrow> 'a chan \<Rightarrow> 'a send_result" where
  "chan_send x c =
     (if ch_closed c then SendPanics
      else if length (ch_buf c) < ch_cap c then Sent (c\<lparr>ch_buf := ch_buf c @ [x]\<rparr>)
      else SendBlocks)"

definition chan_recv :: "'a chan \<Rightarrow> 'a recv_result" where
  "chan_recv c =
     (case ch_buf c of
        x # xs \<Rightarrow> Received x (c\<lparr>ch_buf := xs\<rparr>)
      | [] \<Rightarrow> if ch_closed c then RecvZero else RecvBlocks)"

definition chan_close :: "'a chan \<Rightarrow> 'a chan option" where
  "chan_close c = (if ch_closed c then None else Some (c\<lparr>ch_closed := True\<rparr>))"

text \<open>
  What a client relies on: the buffer is a first-in first-out queue that never exceeds its
  capacity, whatever sends and receives succeed.
\<close>

locale bounded_queue =
  fixes items :: "'c \<Rightarrow> 'a list"
    and capacity :: "'c \<Rightarrow> nat"
    and send :: "'a \<Rightarrow> 'c \<Rightarrow> 'c \<Rightarrow> bool"
    and recv :: "'c \<Rightarrow> 'a \<Rightarrow> 'c \<Rightarrow> bool"
  assumes send_items: "send x c c' \<Longrightarrow> items c' = items c @ [x]"
    and send_room: "send x c c' \<Longrightarrow> length (items c) < capacity c"
    and send_cap: "send x c c' \<Longrightarrow> capacity c' = capacity c"
    and recv_items: "recv c x c' \<Longrightarrow> items c = x # items c'"
    and recv_cap: "recv c x c' \<Longrightarrow> capacity c' = capacity c"
begin

lemma send_bounded: "send x c c' \<Longrightarrow> length (items c') \<le> capacity c'"
  using send_items send_room send_cap by fastforce

lemma recv_bounded: "recv c x c' \<Longrightarrow> length (items c) \<le> capacity c \<Longrightarrow> length (items c') \<le> capacity c'"
  using recv_items recv_cap by fastforce

lemma send_count: "send x c c' \<Longrightarrow> count_list (items c') y = count_list (items c) y + (if x = y then 1 else 0)"
  by (simp add: send_items)

lemma recv_count: "recv c x c' \<Longrightarrow> count_list (items c) y = count_list (items c') y + (if x = y then 1 else 0)"
  by (simp add: recv_items)

lemma send_set: "send x c c' \<Longrightarrow> set (items c') = insert x (set (items c))"
  by (simp add: send_items)

lemma recv_set: "recv c x c' \<Longrightarrow> set (items c) = insert x (set (items c'))"
  by (simp add: recv_items)

end

interpretation gc: bounded_queue ch_buf ch_cap
  "\<lambda>x c c'. chan_send x c = Sent c'" "\<lambda>c x c'. chan_recv c = Received x c'"
  by unfold_locales (auto simp: chan_send_def chan_recv_def split: if_splits list.splits)

lemmas chan_count = gc.send_count gc.recv_count
lemmas chan_set = gc.send_set gc.recv_set

lemma chan_send_closed: "chan_send x c = Sent c' \<Longrightarrow> \<not> ch_closed c \<and> \<not> ch_closed c'"
  by (auto simp: chan_send_def split: if_splits)

lemma chan_recv_closed: "chan_recv c = Received x c' \<Longrightarrow> ch_closed c' = ch_closed c"
  by (auto simp: chan_recv_def split: if_splits list.splits)

lemma chan_recv_zero: "chan_recv c = RecvZero \<longleftrightarrow> ch_closed c \<and> ch_buf c = []"
  by (auto simp: chan_recv_def split: list.splits)

lemma chan_send_panics: "chan_send x c = SendPanics \<longleftrightarrow> ch_closed c"
  by (auto simp: chan_send_def)

end
