(* ===== verification/EmbPool.thy ===== *)
theory EmbPool
  imports EmbWorker GoChan
begin

text \<open>
  The embedded worker pool (\<^verbatim>\<open>internal/worker/pool.go\<close>) as the goroutines that share it. A worker
  is a pointer, so \<open>pl_heap\<close> holds every worker ever allocated and a reference is its index; the
  worker list, the channel of available workers and the goroutines hold references. Every function
  of the source is a program counter type and a transition function, one transition per atomic
  action (an atomic load or store, a critical section, a channel operation), so that every
  interleaving of the goroutines is a run. A transition is \<open>None\<close> where the goroutine blocks.
\<close>

subsection \<open>State\<close>

record pool =
  pl_cfg :: Config
  pl_heap :: "Worker list"
  pl_workers :: "nat list"
  pl_available :: "nat chan"
  pl_nextID :: "32 word"
  pl_cancelled :: bool
  pl_totalRequests :: int64
  pl_activeWorkers :: "32 word"
  pl_busyWorkers :: "32 word"

definition NewPool :: "Config \<Rightarrow> pool" where
  "NewPool cfg = \<lparr>pl_cfg = cfg, pl_heap = [], pl_workers = [],
     pl_available = make_chan (nat (po_MaxWorkers (cf_Pool cfg))), pl_nextID = 0,
     pl_cancelled = False, pl_totalRequests = 0, pl_activeWorkers = 0, pl_busyWorkers = 0\<rparr>"

definition Mode :: "pool \<Rightarrow> string" where
  "Mode p = ph_Mode (cf_PHP (pl_cfg p))"

definition worker_at :: "pool \<Rightarrow> nat \<Rightarrow> Worker" where
  "worker_at p r = pl_heap p ! r"

definition upd_worker :: "nat \<Rightarrow> (Worker \<Rightarrow> Worker) \<Rightarrow> pool \<Rightarrow> pool" where
  "upd_worker r f p = p\<lparr>pl_heap := (pl_heap p)[r := f (pl_heap p ! r)]\<rparr>"

record PoolStats =
  ps_totalWorkers :: int
  ps_activeWorkers :: int
  ps_busyWorkers :: int
  ps_idleWorkers :: int
  ps_totalRequests :: int

definition Stats :: "pool \<Rightarrow> PoolStats" where
  "Stats p =
     (let tot = int (length (pl_workers p))
      in \<lparr>ps_totalWorkers = tot, ps_activeWorkers = sint (pl_activeWorkers p),
          ps_busyWorkers = sint (pl_busyWorkers p),
          ps_idleWorkers = tot - sint (pl_busyWorkers p),
          ps_totalRequests = sint (pl_totalRequests p)\<rparr>)"

subsection \<open>Spawning and removing workers\<close>

definition spawn_alloc :: "env \<Rightarrow> pool \<Rightarrow> (engine_error + nat) \<times> pool" where
  "spawn_alloc ev p =
     (let wid = pl_nextID p + 1; p = p\<lparr>pl_nextID := wid\<rparr>
      in case NewWorker ev (sint wid) (pl_cfg p) of
        Inl err \<Rightarrow> (Inl err, p)
      | Inr w \<Rightarrow>
          if Mode p = ''worker'' then
            (case Start w of
               (Some err, w) \<Rightarrow> (Inl err, p)
             | (None, w) \<Rightarrow> (Inr (length (pl_heap p)), p\<lparr>pl_heap := pl_heap p @ [w]\<rparr>))
          else (Inr (length (pl_heap p)), p\<lparr>pl_heap := pl_heap p @ [w]\<rparr>))"

definition spawn_publish :: "nat \<Rightarrow> pool \<Rightarrow> pool" where
  "spawn_publish r p = p\<lparr>pl_workers := pl_workers p @ [r], pl_activeWorkers := pl_activeWorkers p + 1\<rparr>"

definition spawnWorker :: "env \<Rightarrow> pool \<Rightarrow> (engine_error + nat) \<times> pool" where
  "spawnWorker ev p =
     (case spawn_alloc ev p of
        (Inl err, p) \<Rightarrow> (Inl err, p)
      | (Inr r, p) \<Rightarrow> (Inr r, spawn_publish r p))"

fun remove_id :: "Worker list \<Rightarrow> int \<Rightarrow> nat list \<Rightarrow> nat list option" where
  "remove_id heap wid [] = None"
| "remove_id heap wid (r # rs) =
     (if wk_id (heap ! r) = wid then Some rs else map_option ((#) r) (remove_id heap wid rs))"

definition removeWorker :: "nat \<Rightarrow> pool \<Rightarrow> pool" where
  "removeWorker r p =
     (case remove_id (pl_heap p) (wk_id (worker_at p r)) (pl_workers p) of
        None \<Rightarrow> p
      | Some ws \<Rightarrow> p\<lparr>pl_workers := ws, pl_activeWorkers := pl_activeWorkers p - 1\<rparr>)"

subsection \<open>Program counters\<close>

datatype exec_result =
    ExecResp Response
  | ExecErr engine_error
  | NoWorker
  | ShuttingDown
  | ExecPanic

datatype exec_pc =
    XEnter
  | XSelect
  | XGot "nat option"
  | XBusy nat
  | XRun nat
  | XJobs nat Response
  | XIdle nat exec_result
  | XDone nat exec_result
  | XReturn nat exec_result
  | XLeave exec_result
  | XEnd exec_result

datatype repl_pc = RStop nat | RShut nat | RRemove nat | RCheck | RSpawn | RPublish nat | RSend nat | REnd | RPanic

datatype scale_pc =
    WIdle
  | WTotal
  | WBusy int
  | WUp int int
  | WPublish int int nat
  | WSend int int nat
  | WDown int int
  | WEnd
  | WPanic

datatype stopper_pc = SStop "nat option" | SShut nat | SRemove nat | SEnd | SPanic

datatype reload_pc =
    LSnap
  | LLoop "nat list" nat
  | LPublish "nat list" nat nat
  | LSend "nat list" nat nat
  | LEnd "engine_error option"
  | LPanic

datatype drain_pc = DWait "nat list" | DStop nat "nat list" | DShut nat "nat list" | DRemove nat "nat list" | DEnd

datatype wg_pc = GStop nat | GShut nat | GEnd

datatype stop_pc = PCancel | PSnap | PWait "nat list" | PClose | PEnd | PPanic

datatype start_pc = ILoop nat | IPublish nat nat | ISend nat nat | IFork | IEnd "engine_error option" | IPanic

datatype task =
    TStart start_pc
  | TExec exec_pc
  | TRepl repl_pc
  | TScale scale_pc
  | TStopper stopper_pc
  | TReload reload_pc
  | TDrain drain_pc
  | TWg wg_pc
  | TStop stop_pc

text \<open>What the scheduler chooses: to proceed, or another ready case of a \<^verbatim>\<open>select\<close>.\<close>

datatype choice = Proceed | Timeout | CtxDone

type_synonym fired = "(pool \<times> task \<times> task list) option"

definition send_then :: "nat \<Rightarrow> pool \<Rightarrow> task \<Rightarrow> task \<Rightarrow> fired" where
  "send_then r p sent panicked =
     (case chan_send r (pl_available p) of
        Sent c \<Rightarrow> Some (p\<lparr>pl_available := c\<rparr>, sent, [])
      | SendBlocks \<Rightarrow> None
      | SendPanics \<Rightarrow> Some (p, panicked, []))"

subsection \<open>Exec\<close>

fun Pool_Exec :: "env \<Rightarrow> choice \<Rightarrow> exec_pc \<Rightarrow> pool \<Rightarrow> fired" where
  "Pool_Exec ev ch XEnter p =
     Some (p\<lparr>pl_totalRequests := pl_totalRequests p + 1\<rparr>, TExec XSelect, [])"
| "Pool_Exec ev ch XSelect p =
     (case ch of
        Proceed \<Rightarrow>
          (case chan_recv (pl_available p) of
             Received r c \<Rightarrow> Some (p\<lparr>pl_available := c\<rparr>, TExec (XGot (Some r)), [])
           | RecvZero \<Rightarrow> Some (p, TExec (XGot None), [])
           | RecvBlocks \<Rightarrow> None)
      | Timeout \<Rightarrow> Some (p, TExec (XEnd NoWorker), [])
      | CtxDone \<Rightarrow> if pl_cancelled p then Some (p, TExec (XEnd ShuttingDown), []) else None)"
| "Pool_Exec ev ch (XGot w) p =
     Some (p\<lparr>pl_busyWorkers := pl_busyWorkers p + 1\<rparr>,
       TExec (case w of Some r \<Rightarrow> XBusy r | None \<Rightarrow> XLeave ExecPanic), [])"
| "Pool_Exec ev ch (XBusy r) p = Some (upd_worker r (store_state StateBusy) p, TExec (XRun r), [])"
| "Pool_Exec ev ch (XRun r) p =
     (case run_engine ev (worker_at p r) of
        Inl err \<Rightarrow> Some (p, TExec (XIdle r (ExecErr err)), [])
      | Inr resp \<Rightarrow> Some (p, TExec (XJobs r resp), []))"
| "Pool_Exec ev ch (XJobs r resp) p = Some (upd_worker r add_job p, TExec (XIdle r (ExecResp resp)), [])"
| "Pool_Exec ev ch (XIdle r res) p = Some (upd_worker r (store_state StateIdle) p, TExec (XDone r res), [])"
| "Pool_Exec ev ch (XDone r res) p =
     (if NeedsRecycle (worker_at p r) then Some (p, TExec (XLeave res), [TRepl (RStop r)])
      else Some (p, TExec (XReturn r res), []))"
| "Pool_Exec ev ch (XReturn r res) p = send_then r p (TExec (XLeave res)) (TExec (XLeave ExecPanic))"
| "Pool_Exec ev ch (XLeave res) p =
     Some (p\<lparr>pl_busyWorkers := pl_busyWorkers p - 1\<rparr>, TExec (XEnd res), [])"
| "Pool_Exec ev ch (XEnd res) p = None"

subsection \<open>replaceWorker\<close>

fun replaceWorker :: "env \<Rightarrow> repl_pc \<Rightarrow> pool \<Rightarrow> fired" where
  "replaceWorker ev (RStop r) p = Some (upd_worker r (store_state StateStopped) p, TRepl (RShut r), [])"
| "replaceWorker ev (RShut r) p = Some (upd_worker r shutdown_engine p, TRepl (RRemove r), [])"
| "replaceWorker ev (RRemove r) p = Some (removeWorker r p, TRepl RCheck, [])"
| "replaceWorker ev RCheck p = Some (p, TRepl (if pl_cancelled p then REnd else RSpawn), [])"
| "replaceWorker ev RSpawn p =
     (case spawn_alloc ev p of
        (Inl err, p) \<Rightarrow> Some (p, TRepl REnd, [])
      | (Inr r, p) \<Rightarrow> Some (p, TRepl (RPublish r), []))"
| "replaceWorker ev (RPublish r) p = Some (spawn_publish r p, TRepl (RSend r), [])"
| "replaceWorker ev (RSend r) p = send_then r p (TRepl REnd) (TRepl RPanic)"
| "replaceWorker ev REnd p = None"
| "replaceWorker ev RPanic p = None"

subsection \<open>The watchdog and autoScale\<close>

text \<open>
  \<^verbatim>\<open>busyPct >= 80\<close> and \<^verbatim>\<open>busyPct <= 20\<close> on worker counts. The source divides two floats and
  multiplies by 100; for counts below 2^31 a fraction other than 4/5 or 1/5 is further from the
  threshold than the rounding error, and 4/5 and 1/5 round to exactly 80 and 20, so the comparison
  is the exact one.
\<close>

definition pct_ge :: "int \<Rightarrow> int \<Rightarrow> int \<Rightarrow> bool" where
  "pct_ge busy tot k \<longleftrightarrow> busy * 100 \<ge> k * tot"

definition pct_le :: "int \<Rightarrow> int \<Rightarrow> int \<Rightarrow> bool" where
  "pct_le busy tot k \<longleftrightarrow> busy * 100 \<le> k * tot"

fun autoScale :: "env \<Rightarrow> choice \<Rightarrow> scale_pc \<Rightarrow> pool \<Rightarrow> fired" where
  "autoScale ev ch WIdle p =
     (case ch of
        Proceed \<Rightarrow> Some (p, TScale WTotal, [])
      | CtxDone \<Rightarrow> if pl_cancelled p then Some (p, TScale WEnd, []) else None
      | Timeout \<Rightarrow> None)"
| "autoScale ev ch WTotal p = Some (p, TScale (WBusy (ps_totalWorkers (Stats p))), [])"
| "autoScale ev ch (WBusy tot) p = Some (p, TScale (WUp tot (ps_busyWorkers (Stats p))), [])"
| "autoScale ev ch (WUp tot busy) p =
     (if tot > 0 then
        if pct_ge busy tot 80 \<and> tot < po_MaxWorkers (cf_Pool (pl_cfg p)) then
          (case spawn_alloc ev p of
             (Inl err, p) \<Rightarrow> Some (p, TScale (WDown tot busy), [])
           | (Inr r, p) \<Rightarrow> Some (p, TScale (WPublish tot busy r), []))
        else Some (p, TScale (WDown tot busy), [])
      else Some (p, TScale WIdle, []))"
| "autoScale ev ch (WPublish tot busy r) p = Some (spawn_publish r p, TScale (WSend tot busy r), [])"
| "autoScale ev ch (WSend tot busy r) p = send_then r p (TScale (WDown tot busy)) (TScale WPanic)"
| "autoScale ev ch (WDown tot busy) p =
     (if pct_le busy tot 20 \<and> tot > po_MinWorkers (cf_Pool (pl_cfg p)) then
        (case chan_recv (pl_available p) of
           Received r c \<Rightarrow> Some (p\<lparr>pl_available := c\<rparr>, TScale WIdle, [TStopper (SStop (Some r))])
         | RecvZero \<Rightarrow> Some (p, TScale WIdle, [TStopper (SStop None)])
         | RecvBlocks \<Rightarrow> Some (p, TScale WIdle, []))
      else Some (p, TScale WIdle, []))"
| "autoScale ev ch WEnd p = None"
| "autoScale ev ch WPanic p = None"

fun stop_idle :: "stopper_pc \<Rightarrow> pool \<Rightarrow> fired" where
  "stop_idle (SStop (Some r)) p = Some (upd_worker r (store_state StateStopped) p, TStopper (SShut r), [])"
| "stop_idle (SStop None) p = Some (p, TStopper SPanic, [])"
| "stop_idle (SShut r) p = Some (upd_worker r shutdown_engine p, TStopper (SRemove r), [])"
| "stop_idle (SRemove r) p = Some (removeWorker r p, TStopper SEnd, [])"
| "stop_idle SEnd p = None"
| "stop_idle SPanic p = None"

subsection \<open>Reload\<close>

fun Reload :: "env \<Rightarrow> reload_pc \<Rightarrow> pool \<Rightarrow> fired" where
  "Reload ev LSnap p =
     Some (p, TReload (LLoop (pl_workers p) (nat (po_MinWorkers (cf_Pool (pl_cfg p))))), [])"
| "Reload ev (LLoop old (Suc k)) p =
     (case spawn_alloc ev p of
        (Inl err, p) \<Rightarrow> Some (p, TReload (LEnd (Some err)), [])
      | (Inr r, p) \<Rightarrow> Some (p, TReload (LPublish old k r), []))"
| "Reload ev (LLoop old 0) p = Some (p, TReload (LEnd None), [TDrain (DWait old)])"
| "Reload ev (LPublish old k r) p = Some (spawn_publish r p, TReload (LSend old k r), [])"
| "Reload ev (LSend old k r) p = send_then r p (TReload (LLoop old k)) (TReload LPanic)"
| "Reload ev (LEnd e) p = None"
| "Reload ev LPanic p = None"

fun drain_old :: "drain_pc \<Rightarrow> pool \<Rightarrow> fired" where
  "drain_old (DWait []) p = Some (p, TDrain DEnd, [])"
| "drain_old (DWait (r # rs)) p =
     (if wk_state (worker_at p r) = StateBusy then None else Some (p, TDrain (DStop r rs), []))"
| "drain_old (DStop r rs) p = Some (upd_worker r (store_state StateStopped) p, TDrain (DShut r rs), [])"
| "drain_old (DShut r rs) p = Some (upd_worker r shutdown_engine p, TDrain (DRemove r rs), [])"
| "drain_old (DRemove r rs) p = Some (removeWorker r p, TDrain (DWait rs), [])"
| "drain_old DEnd p = None"

subsection \<open>Stop\<close>

fun stop_one :: "wg_pc \<Rightarrow> pool \<Rightarrow> fired" where
  "stop_one (GStop r) p = Some (upd_worker r (store_state StateStopped) p, TWg (GShut r), [])"
| "stop_one (GShut r) p = Some (upd_worker r shutdown_engine p, TWg GEnd, [])"
| "stop_one GEnd p = None"

fun Pool_Stop :: "task list \<Rightarrow> stop_pc \<Rightarrow> pool \<Rightarrow> fired" where
  "Pool_Stop ts PCancel p = Some (p\<lparr>pl_cancelled := True\<rparr>, TStop PSnap, [])"
| "Pool_Stop ts PSnap p =
     Some (p, TStop (PWait [length ts ..< length ts + length (pl_workers p)]),
       map (\<lambda>r. TWg (GStop r)) (pl_workers p))"
| "Pool_Stop ts (PWait gs) p =
     (if list_all (\<lambda>g. ts ! g = TWg GEnd) gs then Some (p, TStop PClose, []) else None)"
| "Pool_Stop ts PClose p =
     (case chan_close (pl_available p) of
        Some c \<Rightarrow> Some (p\<lparr>pl_available := c\<rparr>, TStop PEnd, [])
      | None \<Rightarrow> Some (p, TStop PPanic, []))"
| "Pool_Stop ts PEnd p = None"
| "Pool_Stop ts PPanic p = None"

subsection \<open>Start\<close>

fun Pool_Start :: "env \<Rightarrow> start_pc \<Rightarrow> pool \<Rightarrow> fired" where
  "Pool_Start ev (ILoop (Suc k)) p =
     (case spawn_alloc ev p of
        (Inl err, p) \<Rightarrow> Some (p, TStart (IEnd (Some err)), [])
      | (Inr r, p) \<Rightarrow> Some (p, TStart (IPublish k r), []))"
| "Pool_Start ev (ILoop 0) p = Some (p, TStart IFork, [])"
| "Pool_Start ev (IPublish k r) p = Some (spawn_publish r p, TStart (ISend k r), [])"
| "Pool_Start ev (ISend k r) p = send_then r p (TStart (ILoop k)) (TStart IPanic)"
| "Pool_Start ev IFork p = Some (p, TStart (IEnd None), [TScale WIdle])"
| "Pool_Start ev (IEnd e) p = None"
| "Pool_Start ev IPanic p = None"

subsection \<open>The system\<close>

fun fire :: "env \<Rightarrow> choice \<Rightarrow> task list \<Rightarrow> task \<Rightarrow> pool \<Rightarrow> fired" where
  "fire ev ch ts (TStart pc) p = Pool_Start ev pc p"
| "fire ev ch ts (TExec pc) p = Pool_Exec ev ch pc p"
| "fire ev ch ts (TRepl pc) p = replaceWorker ev pc p"
| "fire ev ch ts (TScale pc) p = autoScale ev ch pc p"
| "fire ev ch ts (TStopper pc) p = stop_idle pc p"
| "fire ev ch ts (TReload pc) p = Reload ev pc p"
| "fire ev ch ts (TDrain pc) p = drain_old pc p"
| "fire ev ch ts (TWg pc) p = stop_one pc p"
| "fire ev ch ts (TStop pc) p = Pool_Stop ts pc p"

record system =
  sy_pool :: pool
  sy_tasks :: "task list"

definition sys_fire :: "env \<Rightarrow> choice \<Rightarrow> nat \<Rightarrow> system \<Rightarrow> system option" where
  "sys_fire ev ch i s =
     (if i < length (sy_tasks s) then
        (case fire ev ch (sy_tasks s) (sy_tasks s ! i) (sy_pool s) of
           None \<Rightarrow> None
         | Some (p, t, new) \<Rightarrow> Some \<lparr>sy_pool = p, sy_tasks = (sy_tasks s)[i := t] @ new\<rparr>)
      else None)"

text \<open>
  The system starts with the goroutine that runs \<open>Start\<close>. At any time the environment may call one
  of the operations it is allowed to call: a request (\<open>TExec XEnter\<close>), a reload (\<open>TReload LSnap\<close>), a
  shutdown (\<open>TStop PCancel\<close>).
\<close>

definition pool_init :: "Config \<Rightarrow> system \<Rightarrow> bool" where
  "pool_init cfg s \<longleftrightarrow> Validate cfg = None \<and>
     s = \<lparr>sy_pool = NewPool cfg, sy_tasks = [TStart (ILoop (nat (po_MinWorkers (cf_Pool cfg))))]\<rparr>"

inductive pool_step :: "env \<Rightarrow> task set \<Rightarrow> system \<Rightarrow> system \<Rightarrow> bool" for ev A where
  run: "sys_fire ev ch i s = Some s' \<Longrightarrow> pool_step ev A s s'"
| call: "t \<in> A \<Longrightarrow> pool_step ev A s (s\<lparr>sy_tasks := sy_tasks s @ [t]\<rparr>)"

definition requests :: "task set" where "requests = {TExec XEnter}"
definition all_calls :: "task set" where "all_calls = {TExec XEnter, TReload LSnap, TStop PCancel}"

text \<open>A schedule: which goroutine moves and how, or which operation is called.\<close>

datatype move = Move nat choice | Call task

fun run_schedule :: "env \<Rightarrow> move list \<Rightarrow> system \<Rightarrow> system option" where
  "run_schedule ev [] s = Some s"
| "run_schedule ev (Move i ch # ms) s =
     (case sys_fire ev ch i s of None \<Rightarrow> None | Some s' \<Rightarrow> run_schedule ev ms s')"
| "run_schedule ev (Call t # ms) s = run_schedule ev ms (s\<lparr>sy_tasks := sy_tasks s @ [t]\<rparr>)"

end
