(* ===== verification/Transition.thy ===== *)
theory Transition
  imports Main
begin

text \<open>
  Transition systems shared by the concurrent components: the states reachable from the initial ones,
  and the interface of an inductive invariant. Sums over the goroutines of a system are counted
  through updates of one goroutine and the appending of new ones.
\<close>

inductive reachable :: "('s \<Rightarrow> bool) \<Rightarrow> ('s \<Rightarrow> 's \<Rightarrow> bool) \<Rightarrow> 's \<Rightarrow> bool" for init step where
  start: "init s \<Longrightarrow> reachable init step s"
| next_state: "reachable init step s \<Longrightarrow> step s s' \<Longrightarrow> reachable init step s'"

locale inductive_invariant =
  fixes init :: "'s \<Rightarrow> bool"
    and step :: "'s \<Rightarrow> 's \<Rightarrow> bool"
    and I :: "'s \<Rightarrow> bool"
  assumes init_holds: "init s \<Longrightarrow> I s"
    and step_keeps: "I s \<Longrightarrow> step s s' \<Longrightarrow> I s'"
begin

lemma reachable_holds: "reachable init step s \<Longrightarrow> I s"
  by (induction rule: reachable.induct) (auto intro: init_holds step_keeps)

lemma rtranclp_holds: "step\<^sup>*\<^sup>* s s' \<Longrightarrow> I s \<Longrightarrow> I s'"
  by (induction rule: rtranclp_induct) (auto intro: step_keeps)

end

lemma reachable_mono:
  assumes "\<And>s s'. step s s' \<Longrightarrow> step' s s'"
  shows "reachable init step s \<Longrightarrow> reachable init step' s"
  by (induction rule: reachable.induct) (auto intro: reachable.intros assms)

lemma reachable_init_mono:
  assumes "\<And>s. init s \<Longrightarrow> init' s"
  shows "reachable init step s \<Longrightarrow> reachable init' step s"
  by (induction rule: reachable.induct) (auto intro: reachable.intros assms)

lemma sum_list_upd_app:
  fixes f :: "'a \<Rightarrow> nat"
  assumes "i < length xs"
  shows "sum_list (map f (xs[i := y] @ zs)) + f (xs ! i) = sum_list (map f xs) + f y + sum_list (map f zs)"
proof -
  have "f (xs ! i) \<le> sum_list (map f xs)"
    using assms by (simp add: member_le_sum_list)
  then show ?thesis
    using assms by (simp add: map_update sum_list_update)
qed

lemma set_upd_app: "i < length xs \<Longrightarrow> set (xs[i := y] @ zs) \<subseteq> insert y (set xs \<union> set zs)"
  using set_update_subset_insert [of xs i y] by auto

end
