(* ===== verification/EmbPoolInv.thy ===== *)
theory EmbPoolInv
  imports EmbPool Transition
begin

text \<open>
  Invariants of every interleaving of the embedded pool. A goroutine owns a worker while it has
  taken it from the channel or has not yet sent it there; ownership is counted over the channel and
  all goroutines, as are the references in the worker list and the counters of the pool. Each count
  is shown for one transition, by cases on the program counters, and the invariant of the whole
  system follows. A second invariant ties worker identifiers and the job limit to the heap.
\<close>

subsection \<open>Ownership\<close>

fun owns_exec :: "exec_pc \<Rightarrow> nat list" where
  "owns_exec (XGot (Some r)) = [r]"
| "owns_exec (XBusy r) = [r]"
| "owns_exec (XRun r) = [r]"
| "owns_exec (XJobs r _) = [r]"
| "owns_exec (XIdle r _) = [r]"
| "owns_exec (XDone r _) = [r]"
| "owns_exec (XReturn r _) = [r]"
| "owns_exec _ = []"

fun owns :: "task \<Rightarrow> nat list" where
  "owns (TExec pc) = owns_exec pc"
| "owns (TRepl (RPublish r)) = [r]"
| "owns (TRepl (RSend r)) = [r]"
| "owns (TScale (WPublish _ _ r)) = [r]"
| "owns (TScale (WSend _ _ r)) = [r]"
| "owns (TReload (LPublish _ _ r)) = [r]"
| "owns (TReload (LSend _ _ r)) = [r]"
| "owns (TStart (IPublish _ r)) = [r]"
| "owns (TStart (ISend _ r)) = [r]"
| "owns _ = []"

definition held :: "system \<Rightarrow> nat \<Rightarrow> nat" where
  "held s r = count_list (ch_buf (pl_available (sy_pool s))) r
     + sum_list (map (\<lambda>t. count_list (owns t) r) (sy_tasks s))"

lemma spawn_alloc_InrD:
  assumes "spawn_alloc ev p = (Inr r, p')"
  obtains w where "r = length (pl_heap p)"
    "p' = p\<lparr>pl_nextID := pl_nextID p + 1, pl_heap := pl_heap p @ [w]\<rparr>"
    "wk_id w = sint (pl_nextID p + 1)" "wk_jobs w = 0" "wk_state w = StateIdle"
    "wk_maxJobs w = po_MaxJobs (cf_Pool (pl_cfg p))"
    "en_started (wk_engine w) \<longleftrightarrow> Mode p = ''worker''"
proof -
  obtain w where w: "NewWorker ev (sint (pl_nextID p + 1)) (pl_cfg p) = Inr w"
    using assms by (auto simp: spawn_alloc_def Let_def split: sum.splits)
  then have f: "wk_id w = sint (pl_nextID p + 1)" "wk_jobs w = 0" "wk_state w = StateIdle"
    "wk_maxJobs w = po_MaxJobs (cf_Pool (pl_cfg p))" "\<not> en_started (wk_engine w)"
    by (auto simp: NewWorker_def NewEngine_def Let_def split: sum.splits if_splits)
  show thesis
    using assms w f
    by (intro that [of "if Mode p = ''worker'' then snd (Start w) else w"])
      (auto simp: spawn_alloc_def Let_def Mode_def Start_def Startup_def split: sum.splits if_splits prod.splits option.splits)
qed

lemma spawn_alloc_InlD:
  "spawn_alloc ev p = (Inl e, p') \<Longrightarrow> p' = p\<lparr>pl_nextID := pl_nextID p + 1\<rparr>"
  by (auto simp: spawn_alloc_def Let_def split: sum.splits if_splits prod.splits option.splits)

lemma upd_worker_fields [simp]:
  "pl_cfg (upd_worker r f p) = pl_cfg p" "pl_workers (upd_worker r f p) = pl_workers p"
  "pl_available (upd_worker r f p) = pl_available p" "pl_nextID (upd_worker r f p) = pl_nextID p"
  "pl_cancelled (upd_worker r f p) = pl_cancelled p"
  "pl_totalRequests (upd_worker r f p) = pl_totalRequests p"
  "pl_activeWorkers (upd_worker r f p) = pl_activeWorkers p"
  "pl_busyWorkers (upd_worker r f p) = pl_busyWorkers p"
  "length (pl_heap (upd_worker r f p)) = length (pl_heap p)"
  by (simp_all add: upd_worker_def)

lemma removeWorker_fields [simp]:
  "pl_cfg (removeWorker r p) = pl_cfg p" "pl_heap (removeWorker r p) = pl_heap p"
  "pl_available (removeWorker r p) = pl_available p" "pl_nextID (removeWorker r p) = pl_nextID p"
  "pl_cancelled (removeWorker r p) = pl_cancelled p"
  "pl_totalRequests (removeWorker r p) = pl_totalRequests p"
  "pl_busyWorkers (removeWorker r p) = pl_busyWorkers p"
  by (simp_all add: removeWorker_def split: option.splits)

lemma spawn_publish_fields [simp]:
  "pl_cfg (spawn_publish r p) = pl_cfg p" "pl_heap (spawn_publish r p) = pl_heap p"
  "pl_available (spawn_publish r p) = pl_available p" "pl_nextID (spawn_publish r p) = pl_nextID p"
  "pl_cancelled (spawn_publish r p) = pl_cancelled p"
  "pl_totalRequests (spawn_publish r p) = pl_totalRequests p"
  "pl_busyWorkers (spawn_publish r p) = pl_busyWorkers p"
  by (simp_all add: spawn_publish_def)

lemmas fire_splits = sum.splits if_splits prod.splits option.splits send_result.splits
  recv_result.splits choice.splits


fun_cases Pool_Start_SomeE: "Pool_Start ev pc p = Some x"
fun_cases Pool_Exec_SomeE: "Pool_Exec ev ch pc p = Some x"
fun_cases replaceWorker_SomeE: "replaceWorker ev pc p = Some x"
fun_cases autoScale_SomeE: "autoScale ev ch pc p = Some x"
fun_cases stop_idle_SomeE: "stop_idle pc p = Some x"
fun_cases Reload_SomeE: "Reload ev pc p = Some x"
fun_cases drain_old_SomeE: "drain_old pc p = Some x"
fun_cases stop_one_SomeE: "stop_one pc p = Some x"
fun_cases Pool_Stop_SomeE: "Pool_Stop ts pc p = Some x"

lemma fire_SomeE:
  assumes "fire ev ch ts t p = Some x"
  obtains pc where "t = TStart pc" "Pool_Start ev pc p = Some x"
  | pc where "t = TExec pc" "Pool_Exec ev ch pc p = Some x"
  | pc where "t = TRepl pc" "replaceWorker ev pc p = Some x"
  | pc where "t = TScale pc" "autoScale ev ch pc p = Some x"
  | pc where "t = TStopper pc" "stop_idle pc p = Some x"
  | pc where "t = TReload pc" "Reload ev pc p = Some x"
  | pc where "t = TDrain pc" "drain_old pc p = Some x"
  | pc where "t = TWg pc" "stop_one pc p = Some x"
  | pc where "t = TStop pc" "Pool_Stop ts pc p = Some x"
  using assms by (cases t) auto

lemma send_then_SomeE:
  assumes "send_then r p t1 t2 = Some (p', t', new)"
  obtains (sent) c where "chan_send r (pl_available p) = Sent c" "p' = p\<lparr>pl_available := c\<rparr>" "t' = t1" "new = []"
  | (panics) "chan_send r (pl_available p) = SendPanics" "p' = p" "t' = t2" "new = []"
  using assms by (auto simp: send_then_def split: send_result.splits)

lemmas fire_elims = fire_SomeE Pool_Start_SomeE Pool_Exec_SomeE replaceWorker_SomeE autoScale_SomeE
  stop_idle_SomeE Reload_SomeE drain_old_SomeE stop_one_SomeE Pool_Stop_SomeE send_then_SomeE send_then_SomeE [OF sym]
  spawn_alloc_InrD

lemma remove_id_SomeD: "remove_id h wid rs = Some rs' \<Longrightarrow> \<exists>a r b. rs = a @ r # b \<and> rs' = a @ b \<and>
    wk_id (h ! r) = wid \<and> (\<forall>x \<in> set a. wk_id (h ! x) \<noteq> wid)"
proof (induction rs arbitrary: rs')
  case (Cons x rs)
  show ?case
  proof (cases "wk_id (h ! x) = wid")
    case True
    with Cons.prems show ?thesis by (intro exI [of _ "[]"]) auto
  next
    case False
    with Cons.prems obtain rs1 where "remove_id h wid rs = Some rs1" "rs' = x # rs1" by auto
    with Cons.IH obtain a r b where "rs = a @ r # b" "rs1 = a @ b" "wk_id (h ! r) = wid"
      "\<forall>y \<in> set a. wk_id (h ! y) \<noteq> wid" by blast
    with False \<open>rs' = x # rs1\<close> show ?thesis by (intro exI [of _ "x # a"]) auto
  qed
qed simp

fun stops :: "task \<Rightarrow> nat list" where
  "stops (TRepl (RStop r)) = [r]"
| "stops (TRepl (RShut r)) = [r]"
| "stops (TStopper (SStop (Some r))) = [r]"
| "stops (TStopper (SShut r)) = [r]"
| "stops _ = []"

fun publishes :: "task \<Rightarrow> nat list" where
  "publishes (TRepl (RPublish r)) = [r]"
| "publishes (TScale (WPublish _ _ r)) = [r]"
| "publishes (TReload (LPublish _ _ r)) = [r]"
| "publishes (TStart (IPublish _ r)) = [r]"
| "publishes _ = []"

text \<open>
  What one transition does to the references: it moves one between the channel and the goroutine,
  creates a fresh one, or retires one to a goroutine that stops it; it never duplicates one.
\<close>

lemma fire_held:
  assumes "fire ev ch ts t p = Some (p', t', new)"
  shows "count_list (ch_buf (pl_available p')) r + count_list (owns t') r
      + sum_list (map (\<lambda>t. count_list (owns t) r) new) + sum_list (map (\<lambda>t. count_list (stops t) r) new)
    \<le> count_list (ch_buf (pl_available p)) r + count_list (owns t) r
      + (if length (pl_heap p) \<le> r \<and> r < length (pl_heap p') then 1 else 0)"
  using assms
  by (elim fire_elims)
    (auto elim!: fire_elims dest!: spawn_alloc_InlD simp: chan_count chan_close_def comp_def split: fire_splits)

lemma fire_stops:
  assumes "fire ev ch ts t p = Some (p', t', new)"
  shows "set (stops t') \<subseteq> set (stops t)"
  using assms
  by (elim fire_elims) (auto elim!: fire_elims dest!: spawn_alloc_InlD split: fire_splits)

lemma fire_listed:
  assumes "fire ev ch ts t p = Some (p', t', new)"
  shows "count_list (pl_workers p') r + count_list (publishes t') r
      + sum_list (map (\<lambda>t. count_list (publishes t) r) new)
    \<le> count_list (pl_workers p) r + count_list (publishes t) r
      + (if length (pl_heap p) \<le> r \<and> r < length (pl_heap p') then 1 else 0)"
  using assms
  by (elim fire_elims)
    (auto elim!: fire_elims dest!: spawn_alloc_InlD remove_id_SomeD
      simp: spawn_publish_def removeWorker_def comp_def split: fire_splits)

fun busy_exec :: "exec_pc \<Rightarrow> nat" where
  "busy_exec (XBusy _) = 1"
| "busy_exec (XRun _) = 1"
| "busy_exec (XJobs _ _) = 1"
| "busy_exec (XIdle _ _) = 1"
| "busy_exec (XDone _ _) = 1"
| "busy_exec (XReturn _ _) = 1"
| "busy_exec (XLeave _) = 1"
| "busy_exec _ = 0"

fun busy_bit :: "task \<Rightarrow> nat" where
  "busy_bit (TExec pc) = busy_exec pc"
| "busy_bit _ = 0"

fun entered_bit :: "task \<Rightarrow> nat" where
  "entered_bit (TExec pc) = (if pc = XEnter then 0 else 1)"
| "entered_bit _ = 0"

lemma fire_counters:
  assumes "fire ev ch ts t p = Some (p', t', new)"
  shows "pl_busyWorkers p' + of_nat (busy_bit t) = pl_busyWorkers p + of_nat (busy_bit t' + sum_list (map busy_bit new))"
    and "pl_totalRequests p' + of_nat (entered_bit t) =
      pl_totalRequests p + of_nat (entered_bit t' + sum_list (map entered_bit new))"
    and "pl_activeWorkers p' - of_nat (length (pl_workers p')) = pl_activeWorkers p - of_nat (length (pl_workers p))"
  subgoal using assms
    by (elim fire_elims)
      (auto elim!: fire_elims dest!: spawn_alloc_InlD simp: comp_def split: fire_splits)
  subgoal using assms
    by (elim fire_elims)
      (auto elim!: fire_elims dest!: spawn_alloc_InlD simp: comp_def split: fire_splits)
  subgoal using assms
    by (elim fire_elims)
      (auto elim!: fire_elims dest!: spawn_alloc_InlD remove_id_SomeD
        simp: spawn_publish_def removeWorker_def split: fire_splits)
  done

lemma fire_frame:
  assumes "fire ev ch ts t p = Some (p', t', new)"
  shows "pl_cfg p' = pl_cfg p" "ch_cap (pl_available p') = ch_cap (pl_available p)"
    "length (pl_heap p) \<le> length (pl_heap p')"
    "length (ch_buf (pl_available p)) \<le> ch_cap (pl_available p) \<Longrightarrow>
       length (ch_buf (pl_available p')) \<le> ch_cap (pl_available p')"
  subgoal using assms
    by (elim fire_elims)
      (auto elim!: fire_elims dest!: spawn_alloc_InlD split: fire_splits)
  subgoal using assms
    by (elim fire_elims)
      (auto elim!: fire_elims dest!: spawn_alloc_InlD simp: gc.send_cap gc.recv_cap chan_close_def split: fire_splits)
  subgoal using assms
    by (elim fire_elims)
      (auto elim!: fire_elims dest!: spawn_alloc_InlD split: fire_splits)
  subgoal using assms
    by (elim fire_elims)
      (auto elim!: fire_elims dest!: spawn_alloc_InlD gc.send_bounded gc.recv_bounded
        simp: chan_close_def split: fire_splits)
  done

text \<open>The references a goroutine holds without owning them, and all it holds.\<close>

fun others :: "task \<Rightarrow> nat list" where
  "others (TRepl (RStop r)) = [r]"
| "others (TRepl (RShut r)) = [r]"
| "others (TRepl (RRemove r)) = [r]"
| "others (TStopper (SStop (Some r))) = [r]"
| "others (TStopper (SShut r)) = [r]"
| "others (TStopper (SRemove r)) = [r]"
| "others (TReload (LLoop old _)) = old"
| "others (TReload (LPublish old _ _)) = old"
| "others (TReload (LSend old _ _)) = old"
| "others (TDrain (DWait rs)) = rs"
| "others (TDrain (DStop r rs)) = r # rs"
| "others (TDrain (DShut r rs)) = r # rs"
| "others (TDrain (DRemove r rs)) = r # rs"
| "others (TWg (GStop r)) = [r]"
| "others (TWg (GShut r)) = [r]"
| "others _ = []"

definition refs :: "task \<Rightarrow> nat list" where
  "refs t = owns t @ others t"

definition pool_refs :: "pool \<Rightarrow> nat set" where
  "pool_refs p = set (pl_workers p) \<union> set (ch_buf (pl_available p))"

lemma removeWorker_refs: "pool_refs (removeWorker r p) \<subseteq> pool_refs p"
  by (auto simp: pool_refs_def removeWorker_def split: option.splits dest!: remove_id_SomeD)


lemma fire_refs:
  assumes "fire ev ch ts t p = Some (p', t', new)"
  shows "pool_refs p' \<union> set (refs t') \<union> (\<Union>x \<in> set new. set (refs x))
    \<subseteq> pool_refs p \<union> set (refs t) \<union> {r. length (pl_heap p) \<le> r \<and> r < length (pl_heap p')}"
  using assms removeWorker_refs
  by (elim fire_elims)
    (auto elim!: fire_elims dest!: spawn_alloc_InlD
      simp: refs_def chan_set chan_close_def pool_refs_def spawn_publish_def split: fire_splits)

subsection \<open>The invariant of every run\<close>

definition listed :: "system \<Rightarrow> nat \<Rightarrow> nat" where
  "listed s r = count_list (pl_workers (sy_pool s)) r
     + sum_list (map (\<lambda>t. count_list (publishes t) r) (sy_tasks s))"

definition sys_refs :: "system \<Rightarrow> nat set" where
  "sys_refs s = pool_refs (sy_pool s) \<union> (\<Union>t \<in> set (sy_tasks s). set (refs t))"

definition pool_inv :: "system \<Rightarrow> bool" where
  "pool_inv s \<longleftrightarrow>
     (\<forall>r. held s r \<le> 1) \<and> (\<forall>r. listed s r \<le> 1) \<and>
     sys_refs s \<subseteq> {r. r < length (pl_heap (sy_pool s))} \<and>
     length (ch_buf (pl_available (sy_pool s))) \<le> ch_cap (pl_available (sy_pool s)) \<and>
     pl_busyWorkers (sy_pool s) = of_nat (sum_list (map busy_bit (sy_tasks s))) \<and>
     pl_totalRequests (sy_pool s) = of_nat (sum_list (map entered_bit (sy_tasks s))) \<and>
     pl_activeWorkers (sy_pool s) = of_nat (length (pl_workers (sy_pool s)))"

lemma owns_refs: "r \<in> set (owns t) \<Longrightarrow> r \<in> set (refs t)"
  by (simp add: refs_def)

lemma publishes_refs: "r \<in> set (publishes t) \<Longrightarrow> r \<in> set (refs t)"
  by (cases t rule: publishes.cases) (simp_all add: refs_def)

lemma sum_count_eq_0: "sum_list (map (\<lambda>t. count_list (f t) r) ts) = 0 \<longleftrightarrow> (\<forall>t \<in> set ts. r \<notin> set (f t))"
  by (induction ts) (auto simp: count_list_0_iff)

lemma held_eq_0_iff: "held s r = 0 \<longleftrightarrow>
   r \<notin> set (ch_buf (pl_available (sy_pool s))) \<and> (\<forall>t \<in> set (sy_tasks s). r \<notin> set (owns t))"
  by (simp add: held_def count_list_0_iff sum_count_eq_0)

lemma listed_eq_0_iff: "listed s r = 0 \<longleftrightarrow>
   r \<notin> set (pl_workers (sy_pool s)) \<and> (\<forall>t \<in> set (sy_tasks s). r \<notin> set (publishes t))"
  by (simp add: listed_def count_list_0_iff sum_count_eq_0)

lemma held_fresh: "r \<notin> sys_refs s \<Longrightarrow> held s r = 0"
  by (auto simp: held_eq_0_iff sys_refs_def pool_refs_def dest: owns_refs)

lemma listed_fresh: "r \<notin> sys_refs s \<Longrightarrow> listed s r = 0"
  by (auto simp: listed_eq_0_iff sys_refs_def pool_refs_def dest: publishes_refs)

lemma sys_fireE:
  assumes "sys_fire ev ch i s = Some s'"
  obtains p' t' new where "i < length (sy_tasks s)"
    "fire ev ch (sy_tasks s) (sy_tasks s ! i) (sy_pool s) = Some (p', t', new)"
    "s' = \<lparr>sy_pool = p', sy_tasks = (sy_tasks s)[i := t'] @ new\<rparr>"
  using assms by (auto simp: sys_fire_def split: if_splits option.splits)

lemma held_step:
  assumes "i < length (sy_tasks s)" "fire ev ch (sy_tasks s) (sy_tasks s ! i) (sy_pool s) = Some (p', t', new)"
  shows "held \<lparr>sy_pool = p', sy_tasks = (sy_tasks s)[i := t'] @ new\<rparr> r
      + sum_list (map (\<lambda>t. count_list (stops t) r) new)
    \<le> held s r + (if length (pl_heap (sy_pool s)) \<le> r \<and> r < length (pl_heap p') then 1 else 0)"
  using fire_held [OF assms(2), of r]
    sum_list_upd_app [OF assms(1), of "\<lambda>t. count_list (owns t) r" t' new]
  by (simp add: held_def)

lemma listed_step:
  assumes "i < length (sy_tasks s)" "fire ev ch (sy_tasks s) (sy_tasks s ! i) (sy_pool s) = Some (p', t', new)"
  shows "listed \<lparr>sy_pool = p', sy_tasks = (sy_tasks s)[i := t'] @ new\<rparr> r
    \<le> listed s r + (if length (pl_heap (sy_pool s)) \<le> r \<and> r < length (pl_heap p') then 1 else 0)"
  using fire_listed [OF assms(2), of r]
    sum_list_upd_app [OF assms(1), of "\<lambda>t. count_list (publishes t) r" t' new]
  by (simp add: listed_def)

lemma refs_step:
  assumes "i < length (sy_tasks s)" "fire ev ch (sy_tasks s) (sy_tasks s ! i) (sy_pool s) = Some (p', t', new)"
  shows "sys_refs \<lparr>sy_pool = p', sy_tasks = (sy_tasks s)[i := t'] @ new\<rparr>
    \<subseteq> sys_refs s \<union> {r. length (pl_heap (sy_pool s)) \<le> r \<and> r < length (pl_heap p')}"
proof -
  have "(\<Union>t \<in> set ((sy_tasks s)[i := t'] @ new). set (refs t))
      \<subseteq> set (refs t') \<union> (\<Union>t \<in> set (sy_tasks s). set (refs t)) \<union> (\<Union>t \<in> set new. set (refs t))"
    using set_upd_app [OF assms(1), of t' new] by blast
  moreover have "set (refs (sy_tasks s ! i)) \<subseteq> (\<Union>t \<in> set (sy_tasks s). set (refs t))"
    using nth_mem [OF assms(1)] by blast
  ultimately show ?thesis
    using fire_refs [OF assms(2)] unfolding sys_refs_def system.simps by blast
qed

lemma counters_step:
  fixes b :: "'a::len word"
  assumes "i < length ts" "b' + of_nat (f (ts ! i)) = b + of_nat (f t' + sum_list (map f new))"
    "b = of_nat (sum_list (map f ts))"
  shows "b' = of_nat (sum_list (map f (ts[i := t'] @ new)))"
proof -
  have "(of_nat (sum_list (map f (ts[i := t'] @ new)) + f (ts ! i)) :: 'a word)
      = of_nat (sum_list (map f ts) + f t' + sum_list (map f new))"
    by (simp only: sum_list_upd_app [OF assms(1)])
  then have "of_nat (sum_list (map f (ts[i := t'] @ new))) + of_nat (f (ts ! i)) = b' + of_nat (f (ts ! i))"
    using assms(2,3) by (simp only: of_nat_add add.assoc)
  then show ?thesis by simp
qed

lemma pool_inv_run:
  assumes inv: "pool_inv s" and step: "sys_fire ev ch i s = Some s'"
  shows "pool_inv s'"
proof -
  from step obtain p' t' new where i: "i < length (sy_tasks s)"
    and f: "fire ev ch (sy_tasks s) (sy_tasks s ! i) (sy_pool s) = Some (p', t', new)"
    and s': "s' = \<lparr>sy_pool = p', sy_tasks = (sy_tasks s)[i := t'] @ new\<rparr>" by (rule sys_fireE)
  have ref: "sys_refs s \<subseteq> {r. r < length (pl_heap (sy_pool s))}" using inv by (simp add: pool_inv_def)
  have fresh: "held s r = 0" "listed s r = 0" if "length (pl_heap (sy_pool s)) \<le> r" for r
    using ref that by (auto intro!: held_fresh listed_fresh)
  have "held s' r \<le> 1" "listed s' r \<le> 1" for r
    using held_step [OF i f, of r] listed_step [OF i f, of r] fresh [of r] inv
    by (auto simp: s' pool_inv_def split: if_splits dest: spec [of _ r])
  moreover have "sys_refs s' \<subseteq> {r. r < length (pl_heap (sy_pool s'))}"
    using refs_step [OF i f] ref fire_frame(3) [OF f] by (fastforce simp: s')
  moreover have "pl_activeWorkers p' = of_nat (length (pl_workers p'))"
    using fire_counters(3) [OF f] inv by (simp add: pool_inv_def)
  ultimately show ?thesis
    using inv counters_step [OF i fire_counters(1) [OF f]] counters_step [OF i fire_counters(2) [OF f]]
      fire_frame(4) [OF f]
    by (simp add: pool_inv_def s')
qed

lemma call_neutral:
  assumes "t \<in> all_calls"
  shows "owns t = []" "publishes t = []" "refs t = []" "busy_bit t = 0" "entered_bit t = 0" "stops t = []"
  using assms by (auto simp: all_calls_def refs_def)

lemma held_call: "t \<in> all_calls \<Longrightarrow> held (s\<lparr>sy_tasks := sy_tasks s @ [t]\<rparr>) r = held s r"
  by (simp add: held_def call_neutral)

lemma pool_inv_call: "pool_inv s \<Longrightarrow> t \<in> all_calls \<Longrightarrow> pool_inv (s\<lparr>sy_tasks := sy_tasks s @ [t]\<rparr>)"
  by (simp add: pool_inv_def held_def listed_def sys_refs_def call_neutral)

lemma pool_inv_init: "pool_init cfg s \<Longrightarrow> pool_inv s"
  by (auto simp: pool_init_def pool_inv_def held_def listed_def sys_refs_def pool_refs_def refs_def
      NewPool_def make_chan_def)

interpretation pinv: inductive_invariant "pool_init cfg" "pool_step ev all_calls" pool_inv
  by unfold_locales (auto intro: pool_inv_init pool_inv_run pool_inv_call elim!: pool_step.cases)

subsection \<open>Workers through a transition\<close>

fun shuts :: "task \<Rightarrow> nat list" where
  "shuts (TRepl (RShut r)) = [r]"
| "shuts (TStopper (SShut r)) = [r]"
| "shuts (TDrain (DShut r _)) = [r]"
| "shuts (TWg (GShut r)) = [r]"
| "shuts _ = []"

fun adds_job :: "task \<Rightarrow> nat list" where
  "adds_job (TExec (XJobs r _)) = [r]"
| "adds_job _ = []"

lemma worker_at_upd:
  "r < length (pl_heap p) \<Longrightarrow>
   worker_at (upd_worker x f p) r = (if x = r then f (worker_at p r) else worker_at p r)"
  by (simp add: worker_at_def upd_worker_def)

lemma worker_at_frame [simp]:
  "worker_at (removeWorker x p) r = worker_at p r"
  "worker_at (spawn_publish x p) r = worker_at p r"
  "worker_at (p\<lparr>pl_available := c\<rparr>) r = worker_at p r"
  "worker_at (p\<lparr>pl_busyWorkers := b\<rparr>) r = worker_at p r"
  "worker_at (p\<lparr>pl_totalRequests := q\<rparr>) r = worker_at p r"
  "worker_at (p\<lparr>pl_cancelled := d\<rparr>) r = worker_at p r"
  "worker_at (p\<lparr>pl_nextID := n\<rparr>) r = worker_at p r"
  by (simp_all add: worker_at_def)

lemma worker_at_alloc:
  "worker_at (p\<lparr>pl_nextID := n, pl_heap := pl_heap p @ [w]\<rparr>) r =
   (if r < length (pl_heap p) then worker_at p r else if r = length (pl_heap p) then w
    else worker_at (p\<lparr>pl_nextID := n, pl_heap := pl_heap p @ [w]\<rparr>) r)"
  by (simp add: worker_at_def nth_append)

lemma fire_old_worker:
  assumes "fire ev ch ts t p = Some (p', t', new)" "r < length (pl_heap p)"
  shows "wk_id (worker_at p' r) = wk_id (worker_at p r) \<and>
    wk_maxJobs (worker_at p' r) = wk_maxJobs (worker_at p r) \<and>
    (en_started (wk_engine (worker_at p' r)) \<longleftrightarrow> en_started (wk_engine (worker_at p r)) \<and> r \<notin> set (shuts t)) \<and>
    wk_jobs (worker_at p' r) = wk_jobs (worker_at p r) + (if r \<in> set (adds_job t) then 1 else 0)"
  using assms
  by (elim fire_elims)
    (auto elim!: fire_elims dest!: spawn_alloc_InlD simp: worker_at_upd worker_at_alloc split: fire_splits)

lemma fire_new_worker:
  assumes "fire ev ch ts t p = Some (p', t', new)" "length (pl_heap p) \<le> r" "r < length (pl_heap p')"
  shows "r = length (pl_heap p) \<and> wk_id (worker_at p' r) = sint (pl_nextID p + 1) \<and>
    wk_maxJobs (worker_at p' r) = po_MaxJobs (cf_Pool (pl_cfg p)) \<and> wk_jobs (worker_at p' r) = 0 \<and>
    (en_started (wk_engine (worker_at p' r)) \<longleftrightarrow> Mode p = ''worker'')"
  using assms
  by (elim fire_elims)
    (auto elim!: fire_elims dest!: spawn_alloc_InlD simp: worker_at_alloc split: fire_splits)

lemma spawn_alloc_valid:
  assumes "Validate (pl_cfg p) = None"
  shows "spawn_alloc ev p \<noteq> (Inl err, p')"
proof -
  obtain w where "NewWorker ev (sint (pl_nextID p + 1)) (pl_cfg p) = Inr w"
    using NewWorker_valid [OF assms] by blast
  then show ?thesis by (auto simp: spawn_alloc_def Let_def Start_def Startup_def split: prod.splits option.splits if_splits)
qed

lemma fire_nextID:
  assumes "fire ev ch ts t p = Some (p', t', new)" "Validate (pl_cfg p) = None"
  shows "pl_nextID p' - of_nat (length (pl_heap p')) = pl_nextID p - of_nat (length (pl_heap p))"
  using assms
  by (elim fire_elims)
    (auto elim!: fire_elims simp: spawn_alloc_valid split: fire_splits)

subsection \<open>Worker identifiers\<close>

definition ids_inv :: "Config \<Rightarrow> system \<Rightarrow> bool" where
  "ids_inv cfg s \<longleftrightarrow>
     (let p = sy_pool s in
      pl_cfg p = cfg \<and> Validate cfg = None \<and> ch_cap (pl_available p) = nat (po_MaxWorkers (cf_Pool cfg)) \<and>
      pl_nextID p = of_nat (length (pl_heap p)) \<and>
      (\<forall>r < length (pl_heap p). wk_id (worker_at p r) = sint (of_nat (Suc r) :: 32 word) \<and>
         wk_maxJobs (worker_at p r) = po_MaxJobs (cf_Pool cfg)))"

lemma ids_inv_run:
  assumes inv: "ids_inv cfg s" and step: "sys_fire ev ch i s = Some s'"
  shows "ids_inv cfg s'"
proof -
  from step obtain p' t' new where
    f: "fire ev ch (sy_tasks s) (sy_tasks s ! i) (sy_pool s) = Some (p', t', new)"
    and s': "s' = \<lparr>sy_pool = p', sy_tasks = (sy_tasks s)[i := t'] @ new\<rparr>" by (rule sys_fireE)
  let ?p = "sy_pool s"
  have valid: "Validate (pl_cfg ?p) = None" using inv by (simp add: ids_inv_def Let_def)
  have n: "pl_nextID ?p = of_nat (length (pl_heap ?p))" using inv by (simp add: ids_inv_def Let_def)
  have "wk_id (worker_at p' r) = sint (of_nat (Suc r) :: 32 word) \<and>
      wk_maxJobs (worker_at p' r) = po_MaxJobs (cf_Pool cfg)" if "r < length (pl_heap p')" for r
  proof (cases "r < length (pl_heap ?p)")
    case True
    then show ?thesis using fire_old_worker [OF f True] inv by (simp add: ids_inv_def Let_def)
  next
    case False
    then show ?thesis
      using fire_new_worker [OF f _ that] inv n by (auto simp: ids_inv_def Let_def add.commute)
  qed
  moreover have "pl_nextID p' = of_nat (length (pl_heap p'))"
    using fire_nextID [OF f valid] n by simp
  ultimately show ?thesis
    using inv fire_frame(1,2) [OF f] by (simp add: ids_inv_def Let_def s')
qed

lemma ids_inv_call: "ids_inv cfg s \<Longrightarrow> ids_inv cfg (s\<lparr>sy_tasks := ts\<rparr>)"
  by (simp add: ids_inv_def)

lemma ids_inv_init: "pool_init cfg s \<Longrightarrow> ids_inv cfg s"
  by (simp add: pool_init_def ids_inv_def NewPool_def make_chan_def)

interpretation idinv: inductive_invariant "pool_init cfg" "pool_step ev A" "ids_inv cfg"
  by unfold_locales (auto intro: ids_inv_init ids_inv_run ids_inv_call elim!: pool_step.cases)

lemma worker_id_inj:
  assumes "ids_inv cfg s" "length (pl_heap (sy_pool s)) \<le> 2 ^ 32 - 1"
    and "r < length (pl_heap (sy_pool s))" "x < length (pl_heap (sy_pool s))"
    and "wk_id (worker_at (sy_pool s) r) = wk_id (worker_at (sy_pool s) x)"
  shows "r = x"
proof -
  have "sint (of_nat (Suc r) :: 32 word) = sint (of_nat (Suc x) :: 32 word)"
    using assms by (simp add: ids_inv_def Let_def del: of_nat_Suc)
  then have "(of_nat (Suc r) :: 32 word) = of_nat (Suc x)" by (rule signed_word_eqI)
  then have "unat (of_nat (Suc r) :: 32 word) = unat (of_nat (Suc x) :: 32 word)" by simp
  then show ?thesis using assms(2-4) by (simp add: unat_of_nat del: of_nat_Suc)
qed

lemma distinct_count_le: "(\<And>r. count_list xs r \<le> 1) \<Longrightarrow> distinct xs"
proof (induction xs)
  case (Cons x xs)
  have "count_list xs r \<le> 1" for r using Cons.prems [of r] by (auto split: if_splits)
  moreover have "x \<notin> set xs" using Cons.prems [of x] by (simp add: count_list_0_iff)
  ultimately show ?case using Cons.IH by simp
qed simp

lemma pool_inv_distinct: "pool_inv s \<Longrightarrow> distinct (pl_workers (sy_pool s))"
  by (rule distinct_count_le) (auto simp: pool_inv_def listed_def intro: order_trans [OF le_add1])

lemma removeWorker_exact:
  assumes "ids_inv cfg s" "pool_inv s" "length (pl_heap (sy_pool s)) \<le> 2 ^ 32 - 1"
    and r: "r < length (pl_heap (sy_pool s))"
  shows "pl_workers (removeWorker r (sy_pool s)) = remove1 r (pl_workers (sy_pool s))"
proof -
  let ?p = "sy_pool s"
  have lt: "x < length (pl_heap ?p)" if "x \<in> set (pl_workers ?p)" for x
    using assms(2) that by (auto simp: pool_inv_def sys_refs_def pool_refs_def)
  have same: "wk_id (pl_heap ?p ! x) = wk_id (pl_heap ?p ! r) \<longleftrightarrow> x = r" if "x \<in> set (pl_workers ?p)" for x
    using worker_id_inj [OF assms(1,3) lt [OF that] r] by (auto simp: worker_at_def)
  have "remove_id (pl_heap ?p) (wk_id (pl_heap ?p ! r)) ws =
      (if r \<in> set ws then Some (remove1 r ws) else None)" if "set ws \<subseteq> set (pl_workers ?p)" for ws
    using that same by (induction ws) auto
  then show ?thesis
    by (simp add: removeWorker_def worker_at_def remove1_idem)
qed

end
