(* ===== verification/EmbPoolServe.thy ===== *)
theory EmbPoolServe
  imports EmbPoolInv
begin

text \<open>
  What clients of the embedded pool see: which results requests end with while the pool is neither
  reloaded nor stopped, how many jobs a worker runs, and what happens to the workers otherwise.
\<close>

subsection \<open>Serving requests\<close>

fun result_ok :: "exec_result \<Rightarrow> bool" where
  "result_ok (ExecResp resp) = (rp_Status resp = 200)"
| "result_ok NoWorker = True"
| "result_ok _ = False"

fun ok_exec :: "exec_pc \<Rightarrow> bool" where
  "ok_exec (XGot w) = (w \<noteq> None)"
| "ok_exec (XJobs r resp) = (rp_Status resp = 200)"
| "ok_exec (XIdle r res) = result_ok res"
| "ok_exec (XDone r res) = result_ok res"
| "ok_exec (XReturn r res) = result_ok res"
| "ok_exec (XLeave res) = result_ok res"
| "ok_exec (XEnd res) = result_ok res"
| "ok_exec _ = True"

fun ok_task :: "task \<Rightarrow> bool" where
  "ok_task (TExec pc) = ok_exec pc"
| "ok_task (TReload _) = False"
| "ok_task (TDrain _) = False"
| "ok_task (TWg _) = False"
| "ok_task (TStop _) = False"
| "ok_task (TStart IPanic) = False"
| "ok_task (TRepl RPanic) = False"
| "ok_task (TScale WPanic) = False"
| "ok_task (TStopper SPanic) = False"
| "ok_task (TStopper (SStop None)) = False"
| "ok_task _ = True"

lemma fire_ok:
  assumes "fire ev ch ts t p = Some (p', t', new)" "ok_task t"
    and "\<not> ch_closed (pl_available p)" "\<not> pl_cancelled p"
    and "\<forall>r \<in> set (owns t). en_started (wk_engine (worker_at p r))"
  shows "ok_task t' \<and> (\<forall>x \<in> set new. ok_task x) \<and> \<not> ch_closed (pl_available p') \<and> \<not> pl_cancelled p'"
  using assms
  by (elim fire_elims)
    (auto elim!: fire_elims dest!: spawn_alloc_InlD run_engine_Inl run_engine_status chan_send_closed
       simp: chan_recv_closed chan_recv_zero chan_send_panics split: fire_splits)

lemma shuts_stops: "ok_task t \<Longrightarrow> set (shuts t) \<subseteq> set (stops t)"
  by (cases t rule: shuts.cases) auto

definition serving_inv :: "system \<Rightarrow> bool" where
  "serving_inv s \<longleftrightarrow> pool_inv s \<and> Mode (sy_pool s) = ''worker'' \<and>
     \<not> pl_cancelled (sy_pool s) \<and> \<not> ch_closed (pl_available (sy_pool s)) \<and>
     (\<forall>t \<in> set (sy_tasks s). ok_task t) \<and>
     (\<forall>r. 0 < held s r \<longrightarrow> en_started (wk_engine (worker_at (sy_pool s) r))) \<and>
     (\<forall>t \<in> set (sy_tasks s). \<forall>r \<in> set (stops t). held s r = 0)"

lemma sum_count_pos: "x \<in> set ts \<Longrightarrow> r \<in> set (f x) \<Longrightarrow> 0 < sum_list (map (\<lambda>t. count_list (f t) r) ts)"
  using sum_count_eq_0 [of f r ts] by fastforce

lemma serving_inv_run:
  assumes inv: "serving_inv s" and step: "sys_fire ev ch i s = Some s'"
  shows "serving_inv s'"
proof -
  from step obtain p' t' new where i: "i < length (sy_tasks s)"
    and f: "fire ev ch (sy_tasks s) (sy_tasks s ! i) (sy_pool s) = Some (p', t', new)"
    and s': "s' = \<lparr>sy_pool = p', sy_tasks = (sy_tasks s)[i := t'] @ new\<rparr>" by (rule sys_fireE)
  let ?t = "sy_tasks s ! i" and ?p = "sy_pool s"
  have t: "?t \<in> set (sy_tasks s)" using i by simp
  have pinv: "pool_inv s" and okt: "ok_task ?t" and st: "\<forall>r. 0 < held s r \<longrightarrow> en_started (wk_engine (worker_at ?p r))"
    and sz: "\<forall>t \<in> set (sy_tasks s). \<forall>r \<in> set (stops t). held s r = 0"
    using inv t by (auto simp: serving_inv_def)
  have "\<forall>r \<in> set (owns ?t). en_started (wk_engine (worker_at ?p r))"
    using st t held_eq_0_iff [of s] by fastforce
  then have ok: "ok_task t' \<and> (\<forall>x \<in> set new. ok_task x) \<and> \<not> ch_closed (pl_available p') \<and> \<not> pl_cancelled p'"
    using fire_ok [OF f okt] inv by (simp add: serving_inv_def)
  have bound: "held s r \<le> 1" and hs: "held s' r + sum_list (map (\<lambda>t. count_list (stops t) r) new)
      \<le> held s r + (if length (pl_heap ?p) \<le> r \<and> r < length (pl_heap p') then 1 else 0)" for r
    using held_step [OF i f, of r] pinv by (auto simp: s' pool_inv_def)
  have fresh: "held s r = 0" if "length (pl_heap ?p) \<le> r" for r
    using pinv that by (auto simp: pool_inv_def intro!: held_fresh)
  have old: "r < length (pl_heap ?p)" if "0 < held s r" for r
    using fresh [of r] that by (cases "r < length (pl_heap ?p)") auto
  have started: "en_started (wk_engine (worker_at p' r))" if "0 < held s' r" for r
  proof (cases "0 < held s r")
    case True
    then have "r \<notin> set (stops ?t)" using sz t by auto
    then have "r \<notin> set (shuts ?t)" using shuts_stops [OF okt] by blast
    then show ?thesis using fire_old_worker [OF f old [OF True]] st True by simp
  next
    case False
    then have "length (pl_heap ?p) \<le> r \<and> r < length (pl_heap p')" using hs [of r] that by (auto split: if_splits)
    then show ?thesis using fire_new_worker [OF f, of r] inv by (auto simp: serving_inv_def)
  qed
  have ret: "held s' r = 0" if x: "x \<in> set ((sy_tasks s)[i := t'] @ new)" and r: "r \<in> set (stops x)" for x r
  proof (cases "x \<in> set new")
    case True
    then show ?thesis using sum_count_pos [of x new r stops] r hs [of r] bound [of r] fresh [of r]
      by (auto split: if_splits)
  next
    case False
    then have "x \<in> insert t' (set (sy_tasks s))"
      using x set_update_subset_insert [of "sy_tasks s" i t'] by auto
    then obtain y where y: "y \<in> set (sy_tasks s)" "r \<in> set (stops y)"
      using r fire_stops [OF f] t by auto
    then have "r \<in> set (refs y)" by (cases y rule: stops.cases) (auto simp: refs_def)
    then have "r < length (pl_heap ?p)"
      using pinv y(1) by (auto simp: pool_inv_def sys_refs_def)
    then show ?thesis using hs [of r] sz y by auto
  qed
  have "\<forall>x \<in> set ((sy_tasks s)[i := t'] @ new). ok_task x"
    using set_upd_app [OF i, of t' new] ok inv by (auto simp: serving_inv_def)
  then show ?thesis
    using inv ok started ret pool_inv_run [OF pinv step] fire_frame(1) [OF f]
    by (auto simp: serving_inv_def s' Mode_def)
qed

lemma serving_inv_call:
  assumes "serving_inv s" "t \<in> requests"
  shows "serving_inv (s\<lparr>sy_tasks := sy_tasks s @ [t]\<rparr>)"
proof -
  have t: "t = TExec XEnter" "t \<in> all_calls" using assms(2) by (simp_all add: requests_def all_calls_def)
  show ?thesis
    using assms(1) pool_inv_call [OF _ t(2)] held_call [OF t(2), of s]
    unfolding serving_inv_def by (auto simp: t(1))
qed

lemma serving_inv_init:
  assumes "pool_init cfg s" "ph_Mode (cf_PHP cfg) = ''worker''"
  shows "serving_inv s"
proof -
  have "held s r = 0" for r
    using assms(1) by (auto simp: held_eq_0_iff pool_init_def NewPool_def make_chan_def)
  then show ?thesis
    using pool_inv_init [OF assms(1)] assms
    by (auto simp: serving_inv_def pool_init_def Mode_def NewPool_def make_chan_def)
qed

interpretation serving: inductive_invariant
  "\<lambda>s. pool_init cfg s \<and> ph_Mode (cf_PHP cfg) = ''worker''" "pool_step ev requests" serving_inv
  by unfold_locales (auto intro: serving_inv_init serving_inv_run serving_inv_call elim!: pool_step.cases)

subsection \<open>Job limits\<close>

fun strict :: "task \<Rightarrow> nat list" where
  "strict (TExec (XIdle _ _)) = []"
| "strict (TExec (XDone _ _)) = []"
| "strict t = owns t"

definition jobs_at :: "pool \<Rightarrow> nat \<Rightarrow> int" where
  "jobs_at p r = sint (wk_jobs (worker_at p r))"

lemma fire_strict:
  assumes "fire ev ch ts t p = Some (p', t', new)"
    and "r \<in> set (ch_buf (pl_available p')) \<union> set (strict t') \<union> (\<Union>x \<in> set new. set (strict x))"
  shows "r \<in> set (ch_buf (pl_available p)) \<union> set (strict t) \<or> (length (pl_heap p) \<le> r \<and> r < length (pl_heap p')) \<or>
    ((\<exists>res. t = TExec (XDone r res)) \<and> \<not> NeedsRecycle (worker_at p r))"
  using assms
  by (elim fire_elims)
    (auto elim!: fire_elims dest!: spawn_alloc_InlD simp: chan_set chan_close_def split: fire_splits)

lemma strict_owns: "set (strict t) \<subseteq> set (owns t)"
  by (cases t rule: strict.cases) auto

lemma adds_job_cases: "r \<in> set (adds_job t) \<Longrightarrow> \<exists>resp. t = TExec (XJobs r resp)"
  by (cases t rule: adds_job.cases) auto

definition jobs_inv :: "Config \<Rightarrow> system \<Rightarrow> bool" where
  "jobs_inv cfg s \<longleftrightarrow> pool_inv s \<and> ids_inv cfg s \<and>
     (let p = sy_pool s; m = po_MaxJobs (cf_Pool cfg) in
      (\<forall>r < length (pl_heap p). 0 \<le> jobs_at p r \<and> jobs_at p r \<le> m) \<and>
      (\<forall>r \<in> set (ch_buf (pl_available p)) \<union> (\<Union>t \<in> set (sy_tasks s). set (strict t)). jobs_at p r < m))"

lemma sint_Suc:
  assumes "0 \<le> sint w" "sint w < 2 ^ 63 - 1"
  shows "sint ((w :: int64) + 1) = sint w + 1"
proof -
  have "signed_take_bit 63 (sint w + 1) = sint w + 1"
    using assms by (intro signed_take_bit_int_eq_self) auto
  then show ?thesis by (simp add: sint_word_ariths(1))
qed

lemma upd_app_cases:
  assumes "x \<in> set (xs[i := y] @ zs)" "i < length xs"
  obtains "x = y" | "x \<in> set zs" | j where "j < length xs" "j \<noteq> i" "x = xs ! j"
  using assms by (auto simp: in_set_conv_nth nth_list_update split: if_splits)

lemma sum_count_other:
  assumes "i < length ts" "j < length ts" "i \<noteq> j"
    and "r \<in> set (f (ts ! i))" "r \<in> set (f (ts ! j))"
  shows "2 \<le> sum_list (map (\<lambda>t. count_list (f t) r) ts)"
proof -
  let ?g = "\<lambda>k. count_list (f (ts ! k)) r"
  have pos: "0 < ?g i" "0 < ?g j" using assms(4,5) by (simp_all add: count_list_0_iff zero_less_iff_neq_zero)
  have "sum_list (map (\<lambda>t. count_list (f t) r) ts) = sum ?g {..<length ts}"
    by (simp add: sum_list_sum_nth atLeast0LessThan)
  moreover have "sum ?g {i, j} \<le> sum ?g {..<length ts}"
    using assms by (intro sum_mono2) auto
  ultimately show ?thesis using pos assms(3) by simp
qed

lemma held_exclusive:
  assumes "pool_inv s" "i < length (sy_tasks s)" "r \<in> set (owns (sy_tasks s ! i))"
  shows "r \<notin> set (ch_buf (pl_available (sy_pool s)))"
    and "\<lbrakk>j < length (sy_tasks s); j \<noteq> i\<rbrakk> \<Longrightarrow> r \<notin> set (owns (sy_tasks s ! j))"
proof -
  let ?T = "sum_list (map (\<lambda>t. count_list (owns t) r) (sy_tasks s))"
  have h: "count_list (ch_buf (pl_available (sy_pool s))) r + ?T \<le> 1"
    using assms(1) by (simp add: pool_inv_def held_def)
  have "0 < ?T" using assms(2,3) by (intro sum_count_pos [of "sy_tasks s ! i"]) auto
  then show "r \<notin> set (ch_buf (pl_available (sy_pool s)))"
    using h count_list_0_iff [of "ch_buf (pl_available (sy_pool s))" r] by linarith
  show "r \<notin> set (owns (sy_tasks s ! j))" if "j < length (sy_tasks s)" "j \<noteq> i"
    using sum_count_other [of i "sy_tasks s" j r owns] assms(2,3) that h by fastforce
qed

lemma strict_step:
  assumes inv: "jobs_inv cfg s" and i: "i < length (sy_tasks s)"
    and f: "fire ev ch (sy_tasks s) (sy_tasks s ! i) (sy_pool s) = Some (p', t', new)"
    and m: "0 < po_MaxJobs (cf_Pool cfg)"
    and r: "r \<in> set (ch_buf (pl_available p')) \<union> set (strict t') \<union> (\<Union>x \<in> set new. set (strict x))"
  shows "(r < length (pl_heap (sy_pool s)) \<and> r \<notin> set (adds_job (sy_tasks s ! i)) \<and>
      jobs_at (sy_pool s) r < po_MaxJobs (cf_Pool cfg)) \<or>
    (length (pl_heap (sy_pool s)) \<le> r \<and> r < length (pl_heap p'))"
proof -
  let ?t = "sy_tasks s ! i" and ?p = "sy_pool s" and ?m = "po_MaxJobs (cf_Pool cfg)"
  have pinv: "pool_inv s" and ids: "ids_inv cfg s" using inv by (simp_all add: jobs_inv_def)
  have heap: "r < length (pl_heap ?p)" if "r \<in> sys_refs s" using pinv that by (auto simp: pool_inv_def)
  consider "r \<in> set (ch_buf (pl_available ?p)) \<union> set (strict ?t)" | "length (pl_heap ?p) \<le> r" "r < length (pl_heap p')"
    | res where "?t = TExec (XDone r res)" "\<not> NeedsRecycle (worker_at ?p r)"
    using fire_strict [OF f r] by blast
  then show ?thesis
  proof cases
    case 1
    then have "r \<in> sys_refs s"
      using i strict_owns [of ?t] nth_mem [OF i] by (auto simp: sys_refs_def pool_refs_def refs_def)
    moreover have "jobs_at ?p r < ?m" using 1 inv nth_mem [OF i] by (auto simp: jobs_inv_def Let_def)
    moreover have False if "r \<in> set (adds_job ?t)"
    proof -
      from adds_job_cases [OF that] obtain resp where t: "?t = TExec (XJobs r resp)" by blast
      then have "r \<in> set (ch_buf (pl_available ?p))" using f r by auto
      then show False using held_exclusive(1) [OF pinv i, of r] t by simp
    qed
    ultimately show ?thesis using heap by blast
  next
    case 2
    then show ?thesis by simp
  next
    case 3
    then have "r \<in> set (refs ?t)" by (simp add: refs_def)
    then have "r < length (pl_heap ?p)" using i by (intro heap) (auto simp: sys_refs_def)
    moreover from this have "wk_maxJobs (worker_at ?p r) = ?m" using ids by (simp add: ids_inv_def Let_def)
    then have "jobs_at ?p r < ?m" using 3(2) m by (simp add: NeedsRecycle_def jobs_at_def)
    ultimately show ?thesis using 3(1) by simp
  qed
qed

lemma jobs_inv_run:
  assumes inv: "jobs_inv cfg s" and step: "sys_fire ev ch i s = Some s'"
    and m: "0 < po_MaxJobs (cf_Pool cfg)" "po_MaxJobs (cf_Pool cfg) < 2 ^ 63"
  shows "jobs_inv cfg s'"
proof -
  from step obtain p' t' new where i: "i < length (sy_tasks s)"
    and f: "fire ev ch (sy_tasks s) (sy_tasks s ! i) (sy_pool s) = Some (p', t', new)"
    and s': "s' = \<lparr>sy_pool = p', sy_tasks = (sy_tasks s)[i := t'] @ new\<rparr>" by (rule sys_fireE)
  let ?t = "sy_tasks s ! i" and ?p = "sy_pool s" and ?m = "po_MaxJobs (cf_Pool cfg)"
  have pinv: "pool_inv s" and idinv: "ids_inv cfg s"
    and le: "\<And>r. r < length (pl_heap ?p) \<Longrightarrow> 0 \<le> jobs_at ?p r \<and> jobs_at ?p r \<le> ?m"
    and lt: "\<And>r t. \<lbrakk>t \<in> set (sy_tasks s); r \<in> set (strict t)\<rbrakk> \<Longrightarrow> jobs_at ?p r < ?m"
      "\<And>r. r \<in> set (ch_buf (pl_available ?p)) \<Longrightarrow> jobs_at ?p r < ?m"
    using inv by (auto simp: jobs_inv_def Let_def)
  have heap: "r < length (pl_heap ?p)" if "r \<in> sys_refs s" for r using pinv that by (auto simp: pool_inv_def)
  have refs: "r < length (pl_heap ?p)" if "t \<in> set (sy_tasks s)" "r \<in> set (strict t)" for r t
    using that strict_owns [of t] by (intro heap) (auto simp: sys_refs_def refs_def)
  have adds: "r \<in> set (strict ?t) \<and> r < length (pl_heap ?p)" if "r \<in> set (adds_job ?t)" for r
    using adds_job_cases [OF that] i refs [of ?t r] by auto
  have old: "jobs_at p' r = (if r \<in> set (adds_job ?t) then jobs_at ?p r + 1 else jobs_at ?p r)"
    if "r < length (pl_heap ?p)" for r
    using fire_old_worker [OF f that] le [OF that] adds [of r] lt(1) [of ?t r] m(2) i
    by (auto simp: jobs_at_def sint_Suc)
  have fresh: "jobs_at p' r = 0" if "length (pl_heap ?p) \<le> r" "r < length (pl_heap p')" for r
    using fire_new_worker [OF f that] by (metis jobs_at_def signed_0)
  have all: "0 \<le> jobs_at p' r \<and> jobs_at p' r \<le> ?m" if "r < length (pl_heap p')" for r
    using old [of r] fresh [of r] that le [of r] adds [of r] lt(1) [of ?t r] m(1) i
    by (cases "r < length (pl_heap ?p)") (auto split: if_splits)
  have loc: "jobs_at p' r < ?m"
    if "r \<in> set (ch_buf (pl_available p')) \<union> set (strict t') \<union> (\<Union>x \<in> set new. set (strict x))" for r
    using strict_step [OF inv i f m(1) that] old fresh m(1) by auto
  have oth: "jobs_at p' r < ?m" if "j < length (sy_tasks s)" "j \<noteq> i" "r \<in> set (strict (sy_tasks s ! j))" for j r
  proof -
    have "r \<notin> set (adds_job ?t)"
      using held_exclusive(2) [OF pinv that(1), of r i] that strict_owns adds [of r] i by blast
    then show ?thesis using old [of r] refs [of "sy_tasks s ! j" r] lt(1) [of "sy_tasks s ! j" r] that by auto
  qed
  have "jobs_at p' r < ?m" if "x \<in> set ((sy_tasks s)[i := t'] @ new)" "r \<in> set (strict x)" for x r
    using that(1) i by (cases rule: upd_app_cases) (use that(2) loc oth in auto)
  then show ?thesis
    using pool_inv_run [OF pinv step] ids_inv_run [OF idinv step] all loc
    by (auto simp: jobs_inv_def Let_def s')
qed

lemma jobs_inv_call:
  assumes "jobs_inv cfg s" "t \<in> all_calls"
  shows "jobs_inv cfg (s\<lparr>sy_tasks := sy_tasks s @ [t]\<rparr>)"
proof -
  have "strict t = []" using assms(2) by (auto simp: all_calls_def)
  then show ?thesis
    using assms pool_inv_call [OF _ assms(2)] by (auto simp: jobs_inv_def Let_def ids_inv_def)
qed

lemma jobs_inv_init: "pool_init cfg s \<Longrightarrow> jobs_inv cfg s"
  using pool_inv_init [of cfg s] ids_inv_init [of cfg s]
  by (auto simp: jobs_inv_def pool_init_def NewPool_def make_chan_def)

interpretation jinv: inductive_invariant
  "\<lambda>s. pool_init cfg s \<and> 0 < po_MaxJobs (cf_Pool cfg) \<and> po_MaxJobs (cf_Pool cfg) < 2 ^ 63" "pool_step ev all_calls"
  "\<lambda>s. jobs_inv cfg s \<and> 0 < po_MaxJobs (cf_Pool cfg) \<and> po_MaxJobs (cf_Pool cfg) < 2 ^ 63"
  by unfold_locales (auto intro: jobs_inv_init jobs_inv_run jobs_inv_call elim!: pool_step.cases)

subsection \<open>Schedules\<close>

lemma run_schedule_reachable:
  assumes "reachable init (pool_step ev A) s" "run_schedule ev ms s = Some s'" "\<forall>t. Call t \<in> set ms \<longrightarrow> t \<in> A"
  shows "reachable init (pool_step ev A) s'"
  using assms
proof (induction ev ms s rule: run_schedule.induct)
  case (2 ev i ch ms s)
  then show ?case by (auto intro: reachable.next_state pool_step.run split: option.splits)
next
  case (3 ev t ms s)
  then show ?case by (auto intro: reachable.next_state pool_step.call)
qed simp

lemma run_schedule_append:
  "run_schedule ev (ms @ ns) s = Option.bind (run_schedule ev ms s) (run_schedule ev ns)"
  by (induction ev ms s rule: run_schedule.induct) (auto split: option.splits)

text \<open>A small configuration, its initial state, and a goroutine that moves n times.\<close>

definition demo_env :: env where
  "demo_env = \<lparr>ev_readFile = (\<lambda>_. None), ev_jsonRequire = (\<lambda>_. None), ev_placeholder = ''ok''\<rparr>"

definition demo_cfg :: "string \<Rightarrow> int \<Rightarrow> int \<Rightarrow> int \<Rightarrow> Config" where
  "demo_cfg mode mn mx jobs = Default\<lparr>cf_PHP := (cf_PHP Default)\<lparr>ph_Mode := mode\<rparr>,
     cf_Pool := (cf_Pool Default)\<lparr>po_MinWorkers := mn, po_MaxWorkers := mx, po_MaxJobs := jobs\<rparr>\<rparr>"

definition demo_start :: "Config \<Rightarrow> system" where
  "demo_start cfg = \<lparr>sy_pool = NewPool cfg, sy_tasks = [TStart (ILoop (nat (po_MinWorkers (cf_Pool cfg))))]\<rparr>"

definition moves :: "nat \<Rightarrow> nat \<Rightarrow> move list" where
  "moves n i = replicate n (Move i Proceed)"

lemma demo_reachable:
  assumes "run_schedule ev ms (demo_start cfg) = Some s" "Validate cfg = None" "\<forall>t. Call t \<in> set ms \<longrightarrow> t \<in> A"
  shows "reachable (pool_init cfg) (pool_step ev A) s"
  using assms(2,3) by (intro run_schedule_reachable [OF _ assms(1)] reachable.start) (simp_all add: pool_init_def demo_start_def)

end
