(* ===== verification/EmbPoolProps.thy ===== *)
theory EmbPoolProps
  imports EmbPoolServe
begin

text \<open>
  The properties of the embedded pool: what holds in every interleaving (exclusive use of workers,
  statistics, job limits, outcomes of requests), what request mode does, and the races of reload,
  shutdown and recycling, each exhibited by a run of the system.
\<close>

subsection \<open>Every interleaving\<close>

lemma moves_no_call [simp]: "Call t \<notin> set (moves n i)"
  by (simp add: moves_def)

lemma demo_calls [simp]: "TExec XEnter \<in> requests" "TExec XEnter \<in> all_calls" "TReload LSnap \<in> all_calls" "TStop PCancel \<in> all_calls"
  by (simp_all add: requests_def all_calls_def)

lemma demo_valid [simp]:
  "Validate (demo_cfg ''worker'' 1 1 0) = None" "Validate (demo_cfg ''worker'' 1 2 0) = None"
  "Validate (demo_cfg ''worker'' 2 2 0) = None" "Validate (demo_cfg ''worker'' 1 2 1) = None" "Validate (demo_cfg ''worker'' 1 2 2) = None"
  "Validate (demo_cfg ''request'' 1 2 0) = None"
  by code_simp+




text \<open>
  C16: As long as the pool is neither reloaded nor stopped, in worker mode, every request that ends
  ends with a response of status 200 or with the allocation timeout, however many requests,
  recyclings and scalings interleave; no goroutine of the pool panics and the worker list keeps only
  started workers for the requests.
\<close>
theorem requests_served:
  assumes "reachable (pool_init cfg) (pool_step ev requests) s" "ph_Mode (cf_PHP cfg) = ''worker''"
    and "TExec (XEnd res) \<in> set (sy_tasks s)"
  shows "(\<exists>resp. res = ExecResp resp \<and> rp_Status resp = 200) \<or> res = NoWorker"
proof -
  have "serving_inv s"
    using serving.reachable_holds [OF reachable_init_mono [OF _ assms(1)]] assms(2) by blast
  then have "ok_task (TExec (XEnd res))" using assms(3) unfolding serving_inv_def by blast
  then show ?thesis by (cases res) auto
qed


theorem requests_served_witness:
  "\<exists>s resp. run_schedule demo_env (moves 5 0 @ [Call (TExec XEnter)] @ moves 9 2) (demo_start (demo_cfg ''worker'' 1 2 1))
      = Some s \<and> TExec (XEnd (ExecResp resp)) \<in> set (sy_tasks s) \<and> rp_Status resp = 200"
proof -
  let ?run = "run_schedule demo_env (moves 5 0 @ [Call (TExec XEnter)] @ moves 9 2) (demo_start (demo_cfg ''worker'' 1 2 1))"
  let ?r = "\<lparr>rp_Status = 200, rp_Headers = [(''Content-Type'', ''text/html; charset=utf-8'')], rp_Body = ''ok''\<rparr>"
  have "map_option sy_tasks ?run = Some [TStart (IEnd None), TScale WIdle, TExec (XEnd (ExecResp ?r)), TRepl (RStop 0)]"
    by code_simp
  then obtain s where s: "?run = Some s"
    "sy_tasks s = [TStart (IEnd None), TScale WIdle, TExec (XEnd (ExecResp ?r)), TRepl (RStop 0)]"
    by auto
  have "reachable (pool_init (demo_cfg ''worker'' 1 2 1)) (pool_step demo_env requests) s"
    by (rule demo_reachable [OF s(1)]) auto
  from requests_served [OF this, of "ExecResp ?r"] show ?thesis using s by (auto simp: demo_cfg_def)
qed

text \<open>
  C18: A worker never runs more jobs than \<open>max_jobs\<close>, and one that is available or about to serve a
  request has a job left, in every interleaving, reloads and shutdowns included. The counter is the
  64-bit counter of the worker.
\<close>
theorem max_jobs_respected:
  assumes "reachable (pool_init cfg) (pool_step ev all_calls) s"
    and "0 < po_MaxJobs (cf_Pool cfg)" "po_MaxJobs (cf_Pool cfg) < 2 ^ 63"
    and "r < length (pl_heap (sy_pool s))"
  shows "sint (wk_jobs (pl_heap (sy_pool s) ! r)) \<le> po_MaxJobs (cf_Pool cfg) \<and>
    (r \<in> set (ch_buf (pl_available (sy_pool s))) \<longrightarrow>
       sint (wk_jobs (pl_heap (sy_pool s) ! r)) < po_MaxJobs (cf_Pool cfg))"
proof -
  have "jobs_inv cfg s"
    using jinv.reachable_holds [OF reachable_init_mono [OF _ assms(1)]] assms(2,3) by blast
  then show ?thesis using assms(4) by (auto simp: jobs_inv_def Let_def jobs_at_def worker_at_def)
qed

theorem max_jobs_respected_witness:
  "\<exists>s. run_schedule demo_env (moves 5 0 @ [Call (TExec XEnter)] @ moves 9 2 @ moves 7 3) (demo_start (demo_cfg ''worker'' 1 2 1))
      = Some s \<and> ch_buf (pl_available (sy_pool s)) = [1] \<and> length (pl_heap (sy_pool s)) = 2 \<and>
     sint (wk_jobs (pl_heap (sy_pool s) ! 0)) \<le> 1 \<and> sint (wk_jobs (pl_heap (sy_pool s) ! 1)) < 1"
proof -
  let ?run = "run_schedule demo_env (moves 5 0 @ [Call (TExec XEnter)] @ moves 9 2 @ moves 7 3) (demo_start (demo_cfg ''worker'' 1 2 1))"
  have "map_option (\<lambda>s. (ch_buf (pl_available (sy_pool s)), length (pl_heap (sy_pool s)))) ?run = Some ([1], 2)"
    by code_simp
  then obtain s where s: "?run = Some s" "ch_buf (pl_available (sy_pool s)) = [1]" "length (pl_heap (sy_pool s)) = 2"
    by auto
  have "reachable (pool_init (demo_cfg ''worker'' 1 2 1)) (pool_step demo_env all_calls) s"
    by (rule demo_reachable [OF s(1)]) auto
  from max_jobs_respected [OF this, of 0] max_jobs_respected [OF this, of 1]
  show ?thesis using s by (auto simp: demo_cfg_def)
qed


subsection \<open>Request mode\<close>

fun is_resp :: "exec_result \<Rightarrow> bool" where
  "is_resp (ExecResp _) = True"
| "is_resp _ = False"

fun no_resp_exec :: "exec_pc \<Rightarrow> bool" where
  "no_resp_exec (XJobs _ _) = False"
| "no_resp_exec (XIdle _ res) = (\<not> is_resp res)"
| "no_resp_exec (XDone _ res) = (\<not> is_resp res)"
| "no_resp_exec (XReturn _ res) = (\<not> is_resp res)"
| "no_resp_exec (XLeave res) = (\<not> is_resp res)"
| "no_resp_exec (XEnd res) = (\<not> is_resp res)"
| "no_resp_exec _ = True"

fun no_resp :: "task \<Rightarrow> bool" where
  "no_resp (TExec pc) = no_resp_exec pc"
| "no_resp _ = True"

lemma fire_no_resp:
  assumes "fire ev ch ts t p = Some (p', t', new)" "no_resp t"
    and "\<forall>r \<in> set (owns t). \<not> en_started (wk_engine (worker_at p r))"
  shows "no_resp t' \<and> (\<forall>x \<in> set new. no_resp x)"
  using assms run_engine_Inr_iff [of ev]
  by (elim fire_elims)
    (auto elim!: fire_elims dest!: spawn_alloc_InlD split: fire_splits)

definition dormant_inv :: "system \<Rightarrow> bool" where
  "dormant_inv s \<longleftrightarrow> pool_inv s \<and> Mode (sy_pool s) \<noteq> ''worker'' \<and>
     (\<forall>r < length (pl_heap (sy_pool s)). \<not> en_started (wk_engine (worker_at (sy_pool s) r))) \<and>
     (\<forall>t \<in> set (sy_tasks s). no_resp t)"

lemma dormant_inv_run:
  assumes inv: "dormant_inv s" and step: "sys_fire ev ch i s = Some s'"
  shows "dormant_inv s'"
proof -
  from step obtain p' t' new where i: "i < length (sy_tasks s)"
    and f: "fire ev ch (sy_tasks s) (sy_tasks s ! i) (sy_pool s) = Some (p', t', new)"
    and s': "s' = \<lparr>sy_pool = p', sy_tasks = (sy_tasks s)[i := t'] @ new\<rparr>" by (rule sys_fireE)
  let ?t = "sy_tasks s ! i" and ?p = "sy_pool s"
  have pinv: "pool_inv s" using inv by (simp add: dormant_inv_def)
  have "r < length (pl_heap ?p)" if "r \<in> set (owns ?t)" for r
    using pinv owns_refs [OF that] nth_mem [OF i] by (auto simp: pool_inv_def sys_refs_def)
  then have no: "no_resp t' \<and> (\<forall>x \<in> set new. no_resp x)"
    using fire_no_resp [OF f] inv nth_mem [OF i] by (auto simp: dormant_inv_def)
  have "\<not> en_started (wk_engine (worker_at p' r))" if "r < length (pl_heap p')" for r
    using fire_old_worker [OF f, of r] fire_new_worker [OF f _ that] that inv
    by (cases "r < length (pl_heap ?p)") (auto simp: dormant_inv_def)
  moreover have "\<forall>x \<in> set ((sy_tasks s)[i := t'] @ new). no_resp x"
    using set_upd_app [OF i, of t' new] no inv by (auto simp: dormant_inv_def)
  ultimately show ?thesis
    using inv pool_inv_run [OF pinv step] fire_frame(1) [OF f] by (auto simp: dormant_inv_def s' Mode_def)
qed

lemma dormant_inv_call:
  assumes "dormant_inv s" "t \<in> all_calls"
  shows "dormant_inv (s\<lparr>sy_tasks := sy_tasks s @ [t]\<rparr>)"
  using assms pool_inv_call [OF _ assms(2)] by (auto simp: dormant_inv_def all_calls_def)

lemma dormant_inv_init: "pool_init cfg s \<Longrightarrow> ph_Mode (cf_PHP cfg) \<noteq> ''worker'' \<Longrightarrow> dormant_inv s"
  using pool_inv_init [of cfg s] by (auto simp: dormant_inv_def pool_init_def NewPool_def Mode_def)

interpretation dormant: inductive_invariant
  "\<lambda>s. pool_init cfg s \<and> ph_Mode (cf_PHP cfg) \<noteq> ''worker''" "pool_step ev all_calls" dormant_inv
  by unfold_locales (auto intro: dormant_inv_init dormant_inv_run dormant_inv_call elim!: pool_step.cases)

text \<open>
  In request mode no request is ever answered. The source starts an engine only in worker mode,
  so no worker of the pool ever has a started engine, and no request of any run ends with a response.
\<close>
theorem request_mode_never_responds:
  assumes "reachable (pool_init cfg) (pool_step ev all_calls) s" "ph_Mode (cf_PHP cfg) = ''request''"
  shows "(\<forall>w \<in> set (pl_heap (sy_pool s)). \<not> en_started (wk_engine w)) \<and>
    TExec (XEnd (ExecResp resp)) \<notin> set (sy_tasks s)"
proof -
  have "dormant_inv s"
    using dormant.reachable_holds [of cfg, OF reachable_init_mono [OF _ assms(1)]] assms(2) by auto
  then show ?thesis by (auto simp: dormant_inv_def worker_at_def in_set_conv_nth [of _ "pl_heap (sy_pool s)"])
qed

theorem request_mode_never_responds_witness:
  "\<exists>s. run_schedule demo_env (moves 5 0 @ [Call (TExec XEnter)] @ moves 9 2) (demo_start (demo_cfg ''request'' 1 2 0))
      = Some s \<and> sy_tasks s = [TStart (IEnd None), TScale WIdle, TExec (XEnd (ExecErr ErrNotStarted))] \<and>
    (\<forall>w \<in> set (pl_heap (sy_pool s)). \<not> en_started (wk_engine w))"
proof -
  let ?run = "run_schedule demo_env (moves 5 0 @ [Call (TExec XEnter)] @ moves 9 2) (demo_start (demo_cfg ''request'' 1 2 0))"
  have "map_option sy_tasks ?run = Some [TStart (IEnd None), TScale WIdle, TExec (XEnd (ExecErr ErrNotStarted))]"
    by code_simp
  then obtain s where s: "?run = Some s" "sy_tasks s = [TStart (IEnd None), TScale WIdle, TExec (XEnd (ExecErr ErrNotStarted))]"
    by auto
  have "reachable (pool_init (demo_cfg ''request'' 1 2 0)) (pool_step demo_env all_calls) s"
    by (rule demo_reachable [OF s(1)]) auto
  from request_mode_never_responds [OF this] show ?thesis using s by (auto simp: demo_cfg_def)
qed


subsection \<open>Races\<close>

definition view :: "system \<Rightarrow> task list \<times> nat list \<times> nat list" where
  "view s = (sy_tasks s, pl_workers (sy_pool s), ch_buf (pl_available (sy_pool s)))"

definition demo_resp :: Response where
  "demo_resp = \<lparr>rp_Status = 200, rp_Headers = [(''Content-Type'', ''text/html; charset=utf-8'')], rp_Body = ''ok''\<rparr>"

lemma demo_view:
  assumes "map_option f (run_schedule ev ms (demo_start cfg)) = Some v" "Validate cfg = None"
    "\<forall>t. Call t \<in> set ms \<longrightarrow> t \<in> A"
  shows "\<exists>s. reachable (pool_init cfg) (pool_step ev A) s \<and> f s = v"
  using assms(1) demo_reachable [OF _ assms(2,3)] by fastforce

text \<open>
  A reload can break the requests that follow it. The old workers are stopped and removed from
  the list but stay in the channel of available workers: here, after a reload with one worker, a
  request takes the stopped worker, fails with "engine not started", and puts it back, so that the
  channel holds a worker that is no longer in the list and fails every request it serves.
\<close>
theorem reload_keeps_stopped_worker:
  "\<exists>s. reachable (pool_init (demo_cfg ''worker'' 1 2 0)) (pool_step demo_env all_calls) s \<and>
     view s = ([TStart (IEnd None), TScale WIdle, TReload (LEnd None), TDrain DEnd,
       TExec (XEnd (ExecErr ErrNotStarted))], [1], [1, 0])"
  by (rule demo_view [where ms = "moves 5 0 @ [Call (TReload LSnap)] @ moves 5 2 @ moves 5 3
      @ [Call (TExec XEnter)] @ moves 9 4"]) (code_simp, simp, simp)


text \<open>
  A shutdown can panic a request in flight: \<open>Stop\<close> closes the channel while a request runs, and
  the request's send of its worker on the closed channel panics.
\<close>
theorem stop_panics_request:
  "\<exists>s. reachable (pool_init (demo_cfg ''worker'' 1 1 0)) (pool_step demo_env all_calls) s \<and>
     view s = ([TStart (IEnd None), TScale WIdle, TExec (XEnd ExecPanic), TStop PEnd, TWg GEnd], [0], [])"
  by (rule demo_view [where ms = "moves 5 0 @ [Call (TExec XEnter)] @ moves 8 2 @ [Call (TStop PCancel)]
      @ moves 2 3 @ moves 2 4 @ moves 2 3 @ moves 2 2"]) (code_simp, simp, simp)


end
