(* ===== verification/EmbPoolLive.thy ===== *)
theory EmbPoolLive
  imports EmbPoolProps
begin

text \<open>
  Progress of the embedded pool: \<open>Start\<close> and \<open>Exec\<close> run to their ends when nothing interferes, and
  without recycling the pool keeps its size limit, so that a request never blocks on returning its
  worker. The last is a counting argument over the goroutines that may add workers.
\<close>

subsection \<open>Start and Exec when nothing interferes\<close>

definition full_to :: "Config \<Rightarrow> nat \<Rightarrow> pool \<Rightarrow> bool" where
  "full_to cfg n p \<longleftrightarrow> pl_cfg p = cfg \<and> length (pl_heap p) = n \<and> pl_workers p = [0..<n] \<and>
     ch_buf (pl_available p) = [0..<n] \<and> \<not> ch_closed (pl_available p) \<and>
     ch_cap (pl_available p) = nat (po_MaxWorkers (cf_Pool cfg)) \<and>
     (\<forall>w \<in> set (pl_heap p). wk_state w = StateIdle \<and> wk_jobs w = 0 \<and>
        (en_started (wk_engine w) \<longleftrightarrow> ph_Mode (cf_PHP cfg) = ''worker''))"

lemma start_round:
  assumes "full_to cfg n p" "Validate cfg = None" "n < nat (po_MaxWorkers (cf_Pool cfg))"
  shows "\<exists>p'. full_to cfg (Suc n) p' \<and>
    run_schedule ev (moves 3 0) \<lparr>sy_pool = p, sy_tasks = [TStart (ILoop (Suc k))]\<rparr> =
      Some \<lparr>sy_pool = p', sy_tasks = [TStart (ILoop k)]\<rparr>"
proof -
  have v: "Validate (pl_cfg p) = None" using assms by (simp add: full_to_def)
  obtain r p1 where sp: "spawn_alloc ev p = (Inr r, p1)"
    using spawn_alloc_valid [OF v] by (metis obj_sumE prod.exhaust)
  then obtain w where w: "r = length (pl_heap p)"
    "p1 = p\<lparr>pl_nextID := pl_nextID p + 1, pl_heap := pl_heap p @ [w]\<rparr>"
    "wk_jobs w = 0" "wk_state w = StateIdle" "en_started (wk_engine w) \<longleftrightarrow> Mode p = ''worker''"
    by (elim spawn_alloc_InrD) 
  then show ?thesis
    using assms sp
    by (auto simp: moves_def numeral_3_eq_3 sys_fire_def send_then_def chan_send_def spawn_publish_def full_to_def Mode_def)
qed

lemma start_rounds:
  assumes "Validate cfg = None" "full_to cfg n p" "n + k \<le> nat (po_MaxWorkers (cf_Pool cfg))"
  shows "\<exists>p'. full_to cfg (n + k) p' \<and>
    run_schedule ev (moves (3 * k) 0) \<lparr>sy_pool = p, sy_tasks = [TStart (ILoop k)]\<rparr> =
      Some \<lparr>sy_pool = p', sy_tasks = [TStart (ILoop 0)]\<rparr>"
  using assms(2,3)
proof (induction k arbitrary: n p)
  case (Suc k)
  then obtain p1 where 1: "full_to cfg (Suc n) p1" "run_schedule ev (moves 3 0) \<lparr>sy_pool = p, sy_tasks = [TStart (ILoop (Suc k))]\<rparr> =
      Some \<lparr>sy_pool = p1, sy_tasks = [TStart (ILoop k)]\<rparr>"
    using start_round [OF Suc.prems(1) assms(1), where ev = ev and k = k] by auto
  have "moves (3 * Suc k) 0 = moves 3 0 @ moves (3 * k) 0" by (simp add: moves_def replicate_add [symmetric])
  then show ?case using Suc.IH [OF 1(1)] Suc.prems(2) 1(2) by (simp add: run_schedule_append)
qed (simp add: moves_def)

lemma moves_add: "moves (m + n) i = moves m i @ moves n i"
  by (simp add: moves_def replicate_add)

lemma sys_fire_last [simp]:
  "sys_fire ev ch (length ts) \<lparr>sy_pool = p, sy_tasks = ts @ [t]\<rparr> =
     (case fire ev ch (ts @ [t]) t p of
        None \<Rightarrow> None
      | Some (p', t', new) \<Rightarrow> Some \<lparr>sy_pool = p', sy_tasks = ts @ t' # new\<rparr>)"
  by (simp add: sys_fire_def nth_append split: option.splits)

text \<open>
  C21: \<open>Start\<close> terminates and fills the pool: after \<open>3 * MinWorkers + 2\<close> steps it has returned without
  an error, the watchdog runs, and exactly \<open>MinWorkers\<close> workers exist, are listed, idle and in the
  channel, in the order they were spawned, with their engines started in worker mode.
\<close>
theorem Start_fills_pool:
  assumes "pool_init cfg s"
  shows "\<exists>p. run_schedule ev (moves (3 * nat (po_MinWorkers (cf_Pool cfg)) + 2) 0) s =
       Some \<lparr>sy_pool = p, sy_tasks = [TStart (IEnd None), TScale WIdle]\<rparr> \<and>
     full_to cfg (nat (po_MinWorkers (cf_Pool cfg))) p"
proof -
  let ?n = "nat (po_MinWorkers (cf_Pool cfg))"
  have v: "Validate cfg = None" and s: "s = \<lparr>sy_pool = NewPool cfg, sy_tasks = [TStart (ILoop ?n)]\<rparr>"
    using assms by (simp_all add: pool_init_def)
  have le: "?n \<le> nat (po_MaxWorkers (cf_Pool cfg))" using v by (simp add: Validate_None_iff nat_mono)
  have "full_to cfg 0 (NewPool cfg)" by (simp add: full_to_def NewPool_def make_chan_def)
  then obtain p where p: "full_to cfg ?n p" "run_schedule ev (moves (3 * ?n) 0) s =
      Some \<lparr>sy_pool = p, sy_tasks = [TStart (ILoop 0)]\<rparr>"
    using start_rounds [OF v, of 0 "NewPool cfg" ?n ev] le by (auto simp: s)
  moreover have "moves 2 0 = [Move 0 Proceed, Move 0 Proceed]" by (simp add: moves_def numeral_2_eq_2)
  ultimately show ?thesis unfolding moves_add run_schedule_append by (simp add: sys_fire_def)
qed

theorem Start_fills_pool_witness:
  "\<exists>p. run_schedule demo_env (moves 8 0) (demo_start (demo_cfg ''worker'' 2 2 0)) =
       Some \<lparr>sy_pool = p, sy_tasks = [TStart (IEnd None), TScale WIdle]\<rparr> \<and>
     full_to (demo_cfg ''worker'' 2 2 0) 2 p"
proof -
  have "pool_init (demo_cfg ''worker'' 2 2 0) (demo_start (demo_cfg ''worker'' 2 2 0))"
    by (simp add: pool_init_def demo_start_def)
  from Start_fills_pool [OF this, of demo_env] show ?thesis by (simp add: demo_cfg_def)
qed



subsection \<open>The size of the pool without recycling\<close>

fun plain :: "task \<Rightarrow> bool" where
  "plain (TStart _) = True"
| "plain (TExec _) = True"
| "plain (TScale _) = True"
| "plain (TStopper _) = True"
| "plain _ = False"

fun grows :: "task \<Rightarrow> nat" where
  "grows (TStart (IEnd _)) = 0"
| "grows (TStart _) = 1"
| "grows (TScale _) = 1"
| "grows _ = 0"

fun pending :: "task \<Rightarrow> nat" where
  "pending (TStart (ILoop k)) = k"
| "pending (TStart (IPublish k _)) = Suc k"
| "pending (TStart (ISend k _)) = k"
| "pending (TScale (WPublish _ _ _)) = 1"
| "pending _ = 0"

fun counted :: "task \<Rightarrow> int option" where
  "counted (TScale (WBusy tot)) = Some tot"
| "counted (TScale (WUp tot _)) = Some tot"
| "counted _ = None"

fun retiring :: "task \<Rightarrow> nat" where
  "retiring (TStopper (SStop (Some _))) = 1"
| "retiring (TStopper (SShut _)) = 1"
| "retiring (TStopper (SRemove _)) = 1"
| "retiring _ = 0"

definition slots :: "task \<Rightarrow> nat" where
  "slots t = length (owns t) + retiring t"

lemma fire_plain:
  assumes "fire ev ch ts t p = Some (p', t', new)" "plain t"
    and "\<forall>r \<in> set (owns t). wk_maxJobs (worker_at p r) \<le> 0"
  shows "plain t' \<and> (\<forall>x \<in> set new. plain x)"
  using assms
  by (elim fire_elims) (auto elim!: fire_elims simp: NeedsRecycle_def split: fire_splits)

lemma removeWorker_length: "length (pl_workers p) \<le> Suc (length (pl_workers (removeWorker r p)))"
  "length (pl_workers (removeWorker r p)) \<le> length (pl_workers p)"
  by (auto simp: removeWorker_def split: option.splits dest!: remove_id_SomeD)

lemma chan_length:
  "chan_send x c = Sent c' \<Longrightarrow> length (ch_buf c') = Suc (length (ch_buf c))"
  "chan_recv c = Received x c' \<Longrightarrow> length (ch_buf c) = Suc (length (ch_buf c'))"
  by (simp_all add: gc.send_items gc.recv_items)

lemma fire_slots:
  assumes "fire ev ch ts t p = Some (p', t', new)" "plain t"
  shows "length (ch_buf (pl_available p')) + (slots t' + sum_list (map slots new)) + length (pl_workers p) + length (publishes t)
    \<le> length (ch_buf (pl_available p)) + slots t + length (pl_workers p') +
      (length (publishes t') + sum_list (map (\<lambda>t. length (publishes t)) new))"
  using assms removeWorker_length
  by (elim fire_elims)
    (auto elim!: fire_elims dest!: spawn_alloc_InlD chan_length simp: slots_def spawn_publish_def split: fire_splits)

lemma fire_grows:
  assumes "fire ev ch ts t p = Some (p', t', new)" "plain t"
  shows "grows t' + sum_list (map grows new) \<le> grows t"
  using assms by (elim fire_elims) (auto elim!: fire_elims split: fire_splits)

lemma fire_pending:
  assumes "fire ev ch ts t p = Some (p', t', new)" "plain t"
  shows "length (pl_workers p') + (pending t' + sum_list (map pending new)) \<le> length (pl_workers p) + pending t \<or>
    (length (pl_workers p') = length (pl_workers p) \<and> pending t' = 1 \<and> new = [] \<and>
     (\<exists>tot. counted t = Some tot \<and> tot < po_MaxWorkers (cf_Pool (pl_cfg p))))"
  using assms removeWorker_length
  by (elim fire_elims)
    (auto elim!: fire_elims dest!: spawn_alloc_InlD simp: spawn_publish_def split: fire_splits)

lemma fire_counted:
  assumes "fire ev ch ts t p = Some (p', t', new)" "plain t" "\<forall>tot. counted t = Some tot \<longrightarrow> int (length (pl_workers p)) \<le> tot"
  shows "\<forall>x \<in> insert t' (set new). \<forall>tot. counted x = Some tot \<longrightarrow> int (length (pl_workers p')) \<le> tot"
  using assms
  by (elim fire_elims)
    (auto elim!: fire_elims dest!: spawn_alloc_InlD simp: Stats_def Let_def split: fire_splits)

lemma fire_shrinks:
  assumes "fire ev ch ts t p = Some (p', t', new)" "plain t" "grows t = 0"
  shows "length (pl_workers p') \<le> length (pl_workers p)"
  using assms removeWorker_length
  by (elim fire_elims)
    (auto elim!: fire_elims dest!: spawn_alloc_InlD split: fire_splits)


definition capped :: "Config \<Rightarrow> system \<Rightarrow> bool" where
  "capped cfg s \<longleftrightarrow> pool_inv s \<and> ids_inv cfg s \<and>
     (\<forall>t \<in> set (sy_tasks s). plain t) \<and> sum_list (map grows (sy_tasks s)) \<le> 1 \<and>
     (\<forall>t \<in> set (sy_tasks s). \<forall>tot. counted t = Some tot \<longrightarrow> int (length (pl_workers (sy_pool s))) \<le> tot) \<and>
     length (ch_buf (pl_available (sy_pool s))) + sum_list (map slots (sy_tasks s)) \<le>
       length (pl_workers (sy_pool s)) + sum_list (map (\<lambda>t. length (publishes t)) (sy_tasks s)) \<and>
     int (length (pl_workers (sy_pool s)) + sum_list (map pending (sy_tasks s))) \<le> po_MaxWorkers (cf_Pool cfg)"

lemma pending_grows: "0 < pending t \<or> counted t \<noteq> None \<Longrightarrow> grows t = 1"
  by (cases t rule: pending.cases) (auto split: scale_pc.splits elim: counted.elims)

lemma publishes_pending: "length (publishes t) \<le> pending t \<or> \<not> plain t"
  by (cases t rule: publishes.cases) auto

lemma sum_list_one:
  fixes f :: "'a \<Rightarrow> nat"
  assumes "sum_list (map f xs) \<le> 1" "i < length xs" "f (xs ! i) = 1" "j < length xs" "j \<noteq> i"
  shows "f (xs ! j) = 0"
proof -
  have "sum_list (map f xs) = sum (\<lambda>k. f (xs ! k)) {..<length xs}"
    by (simp add: sum_list_sum_nth atLeast0LessThan)
  moreover have "sum (\<lambda>k. f (xs ! k)) {i, j} \<le> sum (\<lambda>k. f (xs ! k)) {..<length xs}"
    using assms by (intro sum_mono2) auto
  ultimately show ?thesis using assms by auto
qed

lemma capped_pending:
  assumes inv: "capped cfg s" and i: "i < length (sy_tasks s)"
    and f: "fire ev ch (sy_tasks s) (sy_tasks s ! i) (sy_pool s) = Some (p', t', new)"
  shows "int (length (pl_workers p') + sum_list (map pending ((sy_tasks s)[i := t'] @ new))) \<le> po_MaxWorkers (cf_Pool cfg)"
proof -
  let ?t = "sy_tasks s ! i"
  have pl: "plain ?t" and cfg: "pl_cfg (sy_pool s) = cfg"
    and mx: "int (length (pl_workers (sy_pool s)) + sum_list (map pending (sy_tasks s))) \<le> po_MaxWorkers (cf_Pool cfg)"
    using inv nth_mem [OF i] by (auto simp: capped_def ids_inv_def Let_def)
  note upd = sum_list_upd_app [OF i, of pending t' new]
  from fire_pending [OF f pl] show ?thesis
  proof
    assume "length (pl_workers p') + (pending t' + sum_list (map pending new)) \<le> length (pl_workers (sy_pool s)) + pending ?t"
    then show ?thesis using upd mx by linarith
  next
    assume *: "length (pl_workers p') = length (pl_workers (sy_pool s)) \<and> pending t' = 1 \<and> new = [] \<and>
      (\<exists>tot. counted ?t = Some tot \<and> tot < po_MaxWorkers (cf_Pool (pl_cfg (sy_pool s))))"
    then obtain tot where tot: "counted ?t = Some tot" "tot < po_MaxWorkers (cf_Pool cfg)" by (auto simp: cfg)
    then have g: "grows ?t = 1" by (intro pending_grows) simp
    have "pending (sy_tasks s ! j) = 0" if "j < length (sy_tasks s)" "j \<noteq> i" for j
      using sum_list_one [of grows "sy_tasks s" i j] i g that pending_grows [of "sy_tasks s ! j"] inv unfolding capped_def by fastforce
    then have "sum_list (map pending ((sy_tasks s)[i := t'])) = 1"
      using * i by (simp add: sum_list_sum_nth nth_list_update sum.remove [of _ i])
    moreover have "int (length (pl_workers (sy_pool s))) \<le> tot"
      using inv tot nth_mem [OF i] by (auto simp: capped_def)
    ultimately show ?thesis using * tot(2) by simp
  qed
qed

lemma capped_counted:
  assumes inv: "capped cfg s" and i: "i < length (sy_tasks s)"
    and f: "fire ev ch (sy_tasks s) (sy_tasks s ! i) (sy_pool s) = Some (p', t', new)"
    and x: "x \<in> set ((sy_tasks s)[i := t'] @ new)" "counted x = Some tot"
  shows "int (length (pl_workers p')) \<le> tot"
proof -
  let ?t = "sy_tasks s ! i"
  have pl: "plain ?t" and old: "\<And>t tot. \<lbrakk>t \<in> set (sy_tasks s); counted t = Some tot\<rbrakk> \<Longrightarrow> int (length (pl_workers (sy_pool s))) \<le> tot"
    using inv nth_mem [OF i] by (auto simp: capped_def)
  have *: "\<forall>x \<in> insert t' (set new). \<forall>tot. counted x = Some tot \<longrightarrow> int (length (pl_workers p')) \<le> tot"
    using fire_counted [OF f pl] old [OF nth_mem [OF i]] by blast
  from x(1) i show ?thesis
  proof (cases rule: upd_app_cases)
    case (3 j)
    have "grows ?t = 0"
    proof (rule ccontr)
      assume "grows ?t \<noteq> 0"
      then have "grows ?t = 1" by (cases ?t rule: grows.cases) auto
      moreover have "grows (sy_tasks s ! j) = 1" using pending_grows [of x] x(2) 3 by simp
      ultimately show False using sum_list_one [of grows "sy_tasks s" i j] inv i 3 by (simp add: capped_def)
    qed
    then have "length (pl_workers p') \<le> length (pl_workers (sy_pool s))" by (rule fire_shrinks [OF f pl])
    then show ?thesis using old [OF _ x(2)] 3 by fastforce
  qed (use * x in auto)
qed

lemma capped_run:
  assumes inv: "capped cfg s" and jobs: "po_MaxJobs (cf_Pool cfg) = 0" and step: "sys_fire ev ch i s = Some s'"
  shows "capped cfg s'"
proof -
  from step obtain p' t' new where i: "i < length (sy_tasks s)"
    and f: "fire ev ch (sy_tasks s) (sy_tasks s ! i) (sy_pool s) = Some (p', t', new)"
    and s': "s' = \<lparr>sy_pool = p', sy_tasks = (sy_tasks s)[i := t'] @ new\<rparr>" by (rule sys_fireE)
  let ?t = "sy_tasks s ! i"
  have pinv: "pool_inv s" and ids: "ids_inv cfg s" and pl: "plain ?t" using inv nth_mem [OF i] by (auto simp: capped_def)
  have "r < length (pl_heap (sy_pool s))" if "r \<in> set (owns ?t)" for r
    using pinv owns_refs [OF that] nth_mem [OF i] by (auto simp: pool_inv_def sys_refs_def)
  then have "\<forall>r \<in> set (owns ?t). wk_maxJobs (worker_at (sy_pool s) r) \<le> 0"
    using ids jobs by (simp add: ids_inv_def Let_def)
  then have "plain t' \<and> (\<forall>x \<in> set new. plain x)" using fire_plain [OF f pl] by blast
  then have "\<forall>x \<in> set ((sy_tasks s)[i := t'] @ new). plain x"
    using set_upd_app [OF i, of t' new] inv by (auto simp: capped_def)
  moreover have "sum_list (map grows ((sy_tasks s)[i := t'] @ new)) \<le> 1"
    using sum_list_upd_app [OF i, of grows t' new] fire_grows [OF f pl] inv by (simp add: capped_def)
  moreover have "length (ch_buf (pl_available p')) + sum_list (map slots ((sy_tasks s)[i := t'] @ new)) \<le>
      length (pl_workers p') + sum_list (map (\<lambda>t. length (publishes t)) ((sy_tasks s)[i := t'] @ new))"
    using sum_list_upd_app [OF i, of slots t' new] sum_list_upd_app [OF i, of "\<lambda>t. length (publishes t)" t' new]
      fire_slots [OF f pl] inv by (simp add: capped_def)
  ultimately show ?thesis
    using pool_inv_run [OF pinv step] ids_inv_run [OF ids step] capped_counted [OF inv i f] capped_pending [OF inv i f]
    unfolding capped_def s' by simp
qed

lemma capped_call: "capped cfg s \<Longrightarrow> t \<in> requests \<Longrightarrow> capped cfg (s\<lparr>sy_tasks := sy_tasks s @ [t]\<rparr>)"
  using pool_inv_call [of s t] by (auto simp: capped_def requests_def all_calls_def ids_inv_def slots_def)

lemma capped_init:
  assumes "pool_init cfg s"
  shows "capped cfg s"
proof -
  have "int (nat (po_MinWorkers (cf_Pool cfg))) \<le> po_MaxWorkers (cf_Pool cfg)"
    using assms by (simp add: pool_init_def Validate_None_iff)
  then show ?thesis
    using assms pool_inv_init [OF assms] ids_inv_init [OF assms]
    by (auto simp: capped_def pool_init_def NewPool_def make_chan_def slots_def)
qed

interpretation cap: inductive_invariant
  "\<lambda>s. pool_init cfg s \<and> po_MaxJobs (cf_Pool cfg) = 0" "pool_step ev requests"
  "\<lambda>s. capped cfg s \<and> po_MaxJobs (cf_Pool cfg) = 0"
  by unfold_locales (auto intro: capped_init capped_run capped_call elim!: pool_step.cases)

lemma capped_room:
  assumes "capped cfg s" "i < length (sy_tasks s)" "owns (sy_tasks s ! i) \<noteq> []"
  shows "length (ch_buf (pl_available (sy_pool s))) < ch_cap (pl_available (sy_pool s))"
proof -
  have "0 < sum_list (map slots (sy_tasks s))"
    using assms(3) member_le_sum_list [of "slots (sy_tasks s ! i)" "map slots (sy_tasks s)"] nth_mem [OF assms(2)]
    by (auto simp: slots_def intro: less_le_trans [rotated])
  moreover have "sum_list (map (\<lambda>t. length (publishes t)) (sy_tasks s)) \<le> sum_list (map pending (sy_tasks s))"
    using assms(1) publishes_pending by (intro sum_list_mono) (auto simp: capped_def)
  ultimately show ?thesis using assms(1) by (auto simp: capped_def ids_inv_def Let_def)
qed



end
