(* ===== verification/Wire.thy ===== *)
theory Wire
  imports Prelude
begin

text \<open>
  The maboo-wire frame codec of \<^verbatim>\<open>internal/protocol/wire.go\<close>: the frame record, the constants,
  \<open>WriteFrame\<close> with its pooled buffer, \<open>ReadFrame\<close> with its error branches, and the control
  frames. \<open>frame_bytes\<close> is the reference layout of a frame; the lemmas show that the writer emits
  exactly it whatever the pooled buffer held, and that the reader is its inverse.
\<close>

subsection \<open>Constants and frames\<close>

definition Magic :: "byte list" where "Magic = [0x4D, 0x42]"

definition Version :: byte where "Version = 0x01"

definition FrameHeaderSize :: nat where "FrameHeaderSize = 14"

definition TypeRequest :: byte where "TypeRequest = 0x01"
definition TypeResponse :: byte where "TypeResponse = 0x02"
definition TypeStreamData :: byte where "TypeStreamData = 0x03"
definition TypeStreamClose :: byte where "TypeStreamClose = 0x04"
definition TypeWorkerReady :: byte where "TypeWorkerReady = 0x05"
definition TypeWorkerStop :: byte where "TypeWorkerStop = 0x06"
definition TypePing :: byte where "TypePing = 0x07"
definition TypeError :: byte where "TypeError = 0x08"

lemmas frame_type_defs = TypeRequest_def TypeResponse_def TypeStreamData_def TypeStreamClose_def
  TypeWorkerReady_def TypeWorkerStop_def TypePing_def TypeError_def

record Frame =
  fr_Type :: byte
  fr_Flags :: byte
  fr_StreamID :: uint16
  fr_Headers :: "byte list"
  fr_Payload :: "byte list"

subsection \<open>Writing\<close>

definition put_header :: "Frame \<Rightarrow> byte list \<Rightarrow> byte list" where
  "put_header f buf =
     (let hdrSize = word_of_nat (length (fr_Headers f)) :: int64;
          sid = PutUint16 (fr_StreamID f);
          psize = PutUint32 (word_of_nat (length (fr_Payload f)))
      in buf[0 := Magic ! 0, 1 := Magic ! 1, 2 := Version, 3 := fr_Type f, 4 := fr_Flags f,
             5 := sid ! 0, 6 := sid ! 1,
             7 := ucast (drop_bit 16 hdrSize), 8 := ucast (drop_bit 8 hdrSize), 9 := ucast hdrSize,
             10 := psize ! 0, 11 := psize ! 1, 12 := psize ! 2, 13 := psize ! 3])"

datatype 'e write_error = ErrWriting 'e

definition WriteFrame ::
  "('w \<Rightarrow> byte list \<Rightarrow> 'e option \<times> 'w) \<Rightarrow> byte list \<Rightarrow> 'w \<Rightarrow> Frame \<Rightarrow>
   'e write_error option \<times> 'w \<times> byte list" where
  "WriteFrame write pooled w f =
     (let totalSize = FrameHeaderSize + length (fr_Headers f) + length (fr_Payload f);
          arr = (if length pooled < totalSize then replicate totalSize 0 else pooled);
          buf = put_header f (take FrameHeaderSize arr);
          buf = buf @ fr_Headers f;
          buf = buf @ fr_Payload f;
          (err, w') = write w buf
      in (map_option ErrWriting err, w', buf @ drop totalSize arr))"

subsection \<open>Reading\<close>

datatype read_error =
    ErrReadHeader io_error
  | ErrMagic byte byte
  | ErrVersion byte
  | ErrReadData nat io_error

definition ReadFrame :: "byte list \<Rightarrow> (read_error + Frame) \<times> byte list" where
  "ReadFrame r =
     (case ReadFull FrameHeaderSize r of
        (Inl e, r') \<Rightarrow> (Inl (ErrReadHeader e), r')
      | (Inr header, r') \<Rightarrow>
          if header ! 0 \<noteq> Magic ! 0 \<or> header ! 1 \<noteq> Magic ! 1
          then (Inl (ErrMagic (header ! 0) (header ! 1)), r')
          else if header ! 2 \<noteq> Version then (Inl (ErrVersion (header ! 2)), r')
          else
            (let f = \<lparr>fr_Type = header ! 3, fr_Flags = header ! 4,
                      fr_StreamID = Uint16 (take 2 (drop 5 header)),
                      fr_Headers = [], fr_Payload = []\<rparr>;
                 hdrSize = Uint24 (take 3 (drop 7 header));
                 payloadSize = ucast (Uint32 (take 4 (drop 10 header))) :: int64;
                 totalData = hdrSize + payloadSize
             in if 0 < sint totalData then
                  (case ReadFull (unat totalData) r' of
                     (Inl e, r'') \<Rightarrow> (Inl (ErrReadData (unat totalData) e), r'')
                   | (Inr data, r'') \<Rightarrow>
                       (Inr (f\<lparr>fr_Headers := (if 0 < sint hdrSize then take (unat hdrSize) data else []),
                               fr_Payload := (if 0 < sint payloadSize then drop (unat hdrSize) data else [])\<rparr>),
                        r''))
                else (Inr f, r')))"

subsection \<open>Control frames\<close>

definition control_frame :: "byte \<Rightarrow> string \<Rightarrow> Frame" where
  "control_frame t s = \<lparr>fr_Type = t, fr_Flags = 0, fr_StreamID = 0, fr_Headers = [],
     fr_Payload = bytes_of_string s\<rparr>"

definition NewPingFrame :: Frame where "NewPingFrame = control_frame TypePing ''ping''"
definition NewPongFrame :: Frame where "NewPongFrame = control_frame TypePing ''pong''"
definition NewWorkerReadyFrame :: Frame where "NewWorkerReadyFrame = control_frame TypeWorkerReady ''''"
definition NewWorkerStopFrame :: Frame where "NewWorkerStopFrame = control_frame TypeWorkerStop ''''"
definition NewErrorFrame :: "string \<Rightarrow> Frame" where "NewErrorFrame msg = control_frame TypeError msg"

subsection \<open>The reference layout\<close>

definition frame_header :: "Frame \<Rightarrow> byte list" where
  "frame_header f =
     Magic @ [Version, fr_Type f, fr_Flags f] @ PutUint16 (fr_StreamID f)
     @ PutUint24 (word_of_nat (length (fr_Headers f)))
     @ PutUint32 (word_of_nat (length (fr_Payload f)))"

definition frame_bytes :: "Frame \<Rightarrow> byte list" where
  "frame_bytes f = frame_header f @ fr_Headers f @ fr_Payload f"

definition frame_fits :: "Frame \<Rightarrow> bool" where
  "frame_fits f \<longleftrightarrow> length (fr_Headers f) < 2 ^ 24 \<and> length (fr_Payload f) < 2 ^ 32"

lemma length_frame_header [simp]: "length (frame_header f) = 14"
  by (simp add: frame_header_def Magic_def PutUint16_def PutUint24_def PutUint32_def)

lemma put_header_eq: "length buf = 14 \<Longrightarrow> put_header f buf = frame_header f"
  by (rule nth_equalityI)
     (auto simp: put_header_def frame_header_def Magic_def PutUint16_def PutUint24_def PutUint32_def
        Let_def nth_list_update nth_Cons' less_Suc_eq numeral_eq_Suc)

lemma WriteFrame_eq:
  "WriteFrame write pooled w f =
     (let (err, w') = write w (frame_bytes f)
      in (map_option ErrWriting err, w', frame_bytes f @ drop (length (frame_bytes f)) pooled))"
proof -
  define n where "n = 14 + length (fr_Headers f) + length (fr_Payload f)"
  define arr where "arr = (if length pooled < n then replicate n 0 else pooled)"
  have "length (take 14 arr) = 14" by (simp add: arr_def n_def)
  note hdr = put_header_eq [OF this, of f]
  have "drop n arr = drop n pooled" by (simp add: arr_def)
  then show ?thesis
    unfolding WriteFrame_def FrameHeaderSize_def Let_def n_def [symmetric] arr_def [symmetric] hdr
    by (simp add: frame_bytes_def n_def add.assoc split: prod.splits)
qed

lemma unat_take_bit_of_nat:
  "n \<le> LENGTH('a) \<Longrightarrow> unat (take_bit n (word_of_nat k :: 'a::len word)) = k mod 2 ^ n"
  unfolding unsigned_take_bit_eq unat_of_nat take_bit_eq_mod [where 'a = nat]
  by (simp add: mod_mod_cancel le_imp_power_dvd)

lemma Uint24_PutUint24: "Uint24 (PutUint24 v) = take_bit 24 v"
proof -
  have "unat (take_bit 24 v) < 2 ^ 24"
    by (simp only: unsigned_take_bit_eq take_bit_nat_less_exp)
  moreover have "PutUint24 v = PutUint24 (take_bit 24 v)"
    unfolding PutUint24_def by (auto intro!: bit_word_eqI simp: bit_simps)
  ultimately show ?thesis by (simp add: u24.get_put)
qed

lemma sint_small:
  fixes w :: int64
  assumes "unat w < 2 ^ 63"
  shows "sint w = int (unat w)"
proof -
  have "int (unat w) < int (2 ^ 63)" using assms by (simp only: of_nat_less_iff)
  then have "uint w < 2 ^ 63" by simp
  moreover have "- (2 ^ 63) \<le> uint w" by (rule order_trans [OF _ uint_ge_0]) simp
  ultimately have "signed_take_bit 63 (uint w) = uint w" by (intro signed_take_bit_int_eq_self)
  then show ?thesis by (simp add: sint_uint)
qed

lemma frame_header_fields:
  "frame_header f ! 0 = Magic ! 0" "frame_header f ! 1 = Magic ! 1"
  "frame_header f ! Suc 0 = Magic ! Suc 0" "frame_header f ! 2 = Version"
  "frame_header f ! 3 = fr_Type f" "frame_header f ! 4 = fr_Flags f"
  "take 2 (drop 5 (frame_header f)) = PutUint16 (fr_StreamID f)"
  "take 3 (drop 7 (frame_header f)) = PutUint24 (word_of_nat (length (fr_Headers f)))"
  "take 4 (drop 10 (frame_header f)) = PutUint32 (word_of_nat (length (fr_Payload f)))"
  by (simp_all add: frame_header_def Magic_def PutUint16_def PutUint24_def PutUint32_def)

text \<open>
  The two size fields of a header as natural numbers, and the reader's body over them once the
  header passed its checks: the 64-bit arithmetic of the source never wraps.
\<close>

definition hdr_size :: "byte list \<Rightarrow> nat" where
  "hdr_size header = unat (Uint24 (take 3 (drop 7 header)))"

definition payload_size :: "byte list \<Rightarrow> nat" where
  "payload_size header = unat (Uint32 (take 4 (drop 10 header)))"

definition header_ok :: "byte list \<Rightarrow> bool" where
  "header_ok header \<longleftrightarrow> length header = 14 \<and> header ! 0 = Magic ! 0 \<and> header ! 1 = Magic ! 1 \<and>
     header ! 2 = Version"

definition header_frame :: "byte list \<Rightarrow> byte list \<Rightarrow> Frame" where
  "header_frame header data =
     \<lparr>fr_Type = header ! 3, fr_Flags = header ! 4, fr_StreamID = Uint16 (take 2 (drop 5 header)),
      fr_Headers = take (hdr_size header) data, fr_Payload = drop (hdr_size header) data\<rparr>"

lemma size_bounds: "length header = 14 \<Longrightarrow> hdr_size header < 2 ^ 24" "payload_size header < 2 ^ 32"
  using u24.get_fits [of "take 3 (drop 7 header)"]
    unsigned_less [where ?'a = nat, of "Uint32 (take 4 (drop 10 header))"]
  by (simp_all add: hdr_size_def payload_size_def)

lemma size_words:
  fixes header :: "byte list"
  defines "hs \<equiv> Uint24 (take 3 (drop 7 header))"
    and "ps \<equiv> ucast (Uint32 (take 4 (drop 10 header))) :: int64"
  assumes "length header = 14"
  shows "unat hs = hdr_size header" "sint hs = int (hdr_size header)"
    "sint ps = int (payload_size header)"
    "unat (hs + ps) = hdr_size header + payload_size header"
    "sint (hs + ps) = int (hdr_size header + payload_size header)"
proof -
  show h: "unat hs = hdr_size header" by (simp add: hdr_size_def hs_def)
  have p: "unat ps = payload_size header"
    using size_bounds(2) [of header]
    by (simp add: payload_size_def ps_def unsigned_ucast_eq take_bit_nat_eq_self)
  show t: "unat (hs + ps) = hdr_size header + payload_size header"
    using size_bounds [of header] assms(3) by (simp add: unat_word_ariths h p)
  have "unat hs < 2 ^ 63" "unat ps < 2 ^ 63" "unat (hs + ps) < 2 ^ 63"
    using size_bounds [of header] assms(3) by (simp_all add: h p t)
  note this [THEN sint_small, unfolded h p t]
  then show "sint hs = int (hdr_size header)" "sint ps = int (payload_size header)"
    "sint (hs + ps) = int (hdr_size header + payload_size header)"
    by simp_all
qed

lemma ReadFrame_header:
  assumes "header_ok header"
  shows "ReadFrame (header @ r) =
    (if hdr_size header + payload_size header = 0 then (Inr (header_frame header []), r)
     else case ReadFull (hdr_size header + payload_size header) r of
        (Inl e, r') \<Rightarrow> (Inl (ErrReadData (hdr_size header + payload_size header) e), r')
      | (Inr data, r') \<Rightarrow> (Inr (header_frame header data), r'))"
proof -
  have len: "length header = 14" using assms by (simp add: header_ok_def)
  have "ReadFull 14 (header @ r) = (Inr header, r)" using len by simp
  then have "ReadFrame (header @ r) =
    (if 0 < int (hdr_size header + payload_size header)
     then case ReadFull (hdr_size header + payload_size header) r of
        (Inl e, r') \<Rightarrow> (Inl (ErrReadData (hdr_size header + payload_size header) e), r')
      | (Inr data, r') \<Rightarrow> (Inr \<lparr>fr_Type = header ! 3, fr_Flags = header ! 4,
          fr_StreamID = Uint16 (take 2 (drop 5 header)),
          fr_Headers = (if 0 < int (hdr_size header) then take (hdr_size header) data else []),
          fr_Payload = (if 0 < int (payload_size header) then drop (hdr_size header) data else [])\<rparr>, r')
     else (Inr (header_frame header []), r))"
    using assms
    unfolding header_ok_def ReadFrame_def FrameHeaderSize_def header_frame_def Let_def
    by (simp only: prod.case sum.case Let_def size_words [OF len])
      (auto split: prod.splits sum.splits)
  then show ?thesis
    by (auto simp: header_frame_def split: prod.splits sum.splits dest!: ReadFull_InrD)
qed

lemma header_ok_frame_header: "header_ok (frame_header f)"
  unfolding header_ok_def using frame_header_fields by simp

lemma sizes_frame_header:
  "hdr_size (frame_header f) = length (fr_Headers f) mod 2 ^ 24"
  "payload_size (frame_header f) = length (fr_Payload f) mod 2 ^ 32"
  by (simp_all add: hdr_size_def payload_size_def frame_header_fields Uint24_PutUint24 u32.get_put
      unat_take_bit_of_nat unat_of_nat)

lemma header14_eq:
  assumes "header_ok header"
  shows "header = Magic @ [Version, header ! 3, header ! 4] @ take 2 (drop 5 header)
    @ take 3 (drop 7 header) @ take 4 (drop 10 header)"
  using assms
  by (intro nth_equalityI)
     (auto simp: header_ok_def Magic_def nth_append nth_Cons' less_Suc_eq numeral_eq_Suc)

lemma frame_header_header_frame:
  assumes ok: "header_ok header" and len: "length data = hdr_size header + payload_size header"
  shows "frame_header (header_frame header data) = header"
proof -
  have l: "length header = 14" using ok by (simp add: header_ok_def)
  have "frame_header (header_frame header data) = Magic @ [Version, header ! 3, header ! 4]
      @ take 2 (drop 5 header) @ take 3 (drop 7 header) @ take 4 (drop 10 header)"
    by (simp add: frame_header_def header_frame_def len l hdr_size_def payload_size_def
        u16.put_get u24.put_get u32.put_get)
  also have "\<dots> = header" by (rule header14_eq [OF ok, symmetric])
  finally show ?thesis .
qed

lemma ReadFrame_InrD:
  assumes "ReadFrame r = (Inr f, rest)"
  shows "r = frame_bytes f @ rest \<and> frame_fits f"
proof -
  obtain header r' where hd: "ReadFull 14 r = (Inr header, r')"
    using assms
    by (cases rule: ReadFull_cases [of 14 r]) (auto simp: ReadFrame_def FrameHeaderSize_def)
  then have r: "r = header @ r'" and len: "length header = 14" by (auto dest: ReadFull_InrD)
  have ok: "header_ok header"
    using assms hd len by (auto simp: header_ok_def ReadFrame_def FrameHeaderSize_def split: if_splits)
  obtain data where data: "r' = data @ rest" "length data = hdr_size header + payload_size header"
    and f: "f = header_frame header data"
    using assms unfolding r ReadFrame_header [OF ok]
    by (auto split: if_splits prod.splits sum.splits dest!: ReadFull_InrD)
  have "frame_fits f"
    using size_bounds [of header] data len by (simp add: frame_fits_def f header_frame_def)
  moreover have "frame_bytes f = header @ data"
    unfolding frame_bytes_def f frame_header_header_frame [OF ok data(2)] by (simp add: header_frame_def)
  ultimately show ?thesis by (simp add: r data)
qed

text \<open>
  What the reader returns on the bytes of any frame, the two size fields being reduced modulo
  their widths: the general form of the round trip.
\<close>

lemma ReadFrame_frame_bytes:
  fixes f :: Frame and rest :: "byte list"
  defines "h \<equiv> length (fr_Headers f) mod 2 ^ 24"
    and "p \<equiv> length (fr_Payload f) mod 2 ^ 32"
    and "data \<equiv> fr_Headers f @ fr_Payload f @ rest"
  shows "ReadFrame (frame_bytes f @ rest) =
    (Inr (f\<lparr>fr_Headers := take h data, fr_Payload := take p (drop h data)\<rparr>), drop (h + p) data)"
proof -
  have "h \<le> length (fr_Headers f)" "p \<le> length (fr_Payload f)" by (simp_all add: h_def p_def)
  then have full: "ReadFull (h + p) data = (Inr (take (h + p) data), drop (h + p) data)"
    by (simp add: ReadFull_def data_def)
  have "frame_bytes f @ rest = frame_header f @ data" by (simp add: frame_bytes_def data_def)
  moreover have "hdr_size (frame_header f) = h" "payload_size (frame_header f) = p"
    unfolding h_def p_def by (rule sizes_frame_header)+
  ultimately show ?thesis
    using full
    by (auto simp: ReadFrame_header [OF header_ok_frame_header] header_frame_def
        frame_header_fields u16.get_put drop_take)
qed

lemma ReadFrame_fits:
  assumes "frame_fits f"
  shows "ReadFrame (frame_bytes f @ rest) = (Inr f, rest)"
proof -
  have "length (fr_Headers f) mod 2 ^ 24 = length (fr_Headers f)"
    "length (fr_Payload f) mod 2 ^ 32 = length (fr_Payload f)"
    using assms by (simp_all add: frame_fits_def)
  then show ?thesis by (simp only: ReadFrame_frame_bytes) simp
qed

lemma ReadFrame_not_fits:
  assumes "\<not> frame_fits f"
  shows "ReadFrame (frame_bytes f @ rest) \<noteq> (Inr f, rest)"
  using assms ReadFrame_InrD by blast

lemma frame_bytes_inj: "frame_fits f \<Longrightarrow> frame_fits g \<Longrightarrow> frame_bytes f @ r = frame_bytes g @ s \<Longrightarrow> f = g \<and> r = s"
  by (metis Pair_inject ReadFrame_fits sum.inject(2))

lemma ReadFrame_short: "length r < 14 \<Longrightarrow>
   ReadFrame r = (Inl (ErrReadHeader (if r = [] then EOF else ErrUnexpectedEOF)), [])"
  by (simp add: ReadFrame_def FrameHeaderSize_def ReadFull_def)

lemma ReadFrame_bad_header:
  assumes "14 \<le> length r" "\<not> header_ok (take 14 r)"
  shows "ReadFrame r =
    (Inl (if take 2 r \<noteq> Magic then ErrMagic (r ! 0) (r ! 1) else ErrVersion (r ! 2)), drop 14 r)"
proof -
  have "take 2 r = [r ! 0, r ! 1]" using assms(1) by (simp add: take_2)
  then show ?thesis
    using assms by (auto simp: ReadFrame_def FrameHeaderSize_def ReadFull_def header_ok_def Magic_def)
qed

text \<open>Successive calls of the reader on one stream, as a worker's main loop makes them.\<close>

fun read_frames :: "nat \<Rightarrow> byte list \<Rightarrow> (read_error + Frame list) \<times> byte list" where
  "read_frames 0 r = (Inr [], r)"
| "read_frames (Suc n) r =
     (case ReadFrame r of
        (Inl e, r') \<Rightarrow> (Inl e, r')
      | (Inr f, r') \<Rightarrow>
          (case read_frames n r' of
             (Inl e, r'') \<Rightarrow> (Inl e, r'')
           | (Inr fs, r'') \<Rightarrow> (Inr (f # fs), r'')))"

subsection \<open>Properties\<close>

text \<open>
  C9: A frame survives the wire exactly when its two lengths fit the size fields: reading back the
  bytes the writer emits, whatever follows them on the stream, yields the frame and leaves what
  follows if and only if the msgpack headers are shorter than 2^24 bytes and the payload shorter
  than 2^32 bytes. The writer checks neither bound.
\<close>
theorem wire_roundtrip_iff: "ReadFrame (frame_bytes f @ rest) = (Inr f, rest) \<longleftrightarrow> frame_fits f"
  using ReadFrame_fits ReadFrame_not_fits by blast

text \<open>
  C27: Every outcome of the reader on every byte stream. A frame is returned only for the exact bytes
  of that frame, which are consumed and no more; a short header, a wrong magic, a wrong version and
  a short body are each reported with the right error, and with what was consumed.
\<close>
theorem ReadFrame_outcomes:
  "case ReadFrame r of
     (Inr f, r') \<Rightarrow> r = frame_bytes f @ r' \<and> frame_fits f
   | (Inl (ErrReadHeader e), r') \<Rightarrow> length r < 14 \<and> (e = EOF \<longleftrightarrow> r = []) \<and> r' = []
   | (Inl (ErrMagic a b), r') \<Rightarrow> 14 \<le> length r \<and> [r ! 0, r ! 1] = [a, b] \<and> [a, b] \<noteq> Magic \<and> r' = drop 14 r
   | (Inl (ErrVersion v), r') \<Rightarrow>
       14 \<le> length r \<and> take 2 r = Magic \<and> r ! 2 = v \<and> v \<noteq> Version \<and> r' = drop 14 r
   | (Inl (ErrReadData n e), r') \<Rightarrow>
       header_ok (take 14 r) \<and> n = hdr_size (take 14 r) + payload_size (take 14 r) \<and>
       length r < 14 + n \<and> (e = EOF \<longleftrightarrow> length r = 14) \<and> r' = []"
proof (cases "14 \<le> length r \<and> header_ok (take 14 r)")
  case True
  then show ?thesis
    using ReadFrame_InrD [of r] ReadFrame_header [of "take 14 r" "drop 14 r", unfolded append_take_drop_id]
    by (auto simp: ReadFull_def split: prod.splits sum.splits if_splits)
next
  case False
  then show ?thesis
    by (cases "14 \<le> length r")
      (auto simp: ReadFrame_bad_header ReadFrame_short Magic_def header_ok_def take_2)
qed

text \<open>
  The writer hands its destination, in one write, exactly the reference layout of the frame,
  whatever bytes and whatever capacity the pooled buffer had; the buffer it puts back holds the
  frame followed by the untouched tail of the old one; the destination's error is passed on.
\<close>
theorem WriteFrame_layout:
  "WriteFrame write pooled w f =
     (map_option ErrWriting (fst (write w (frame_bytes f))), snd (write w (frame_bytes f)),
      frame_bytes f @ drop (length (frame_bytes f)) pooled)"
  by (simp add: WriteFrame_eq Let_def split: prod.splits)

text \<open>
  Frames written back to back are read back one by one, in order and without loss of
  synchronisation.
\<close>
theorem read_frames_concat:
  assumes "\<forall>f \<in> set fs. frame_fits f"
  shows "read_frames (length fs) (concat (map frame_bytes fs) @ rest) = (Inr fs, rest)"
  using assms by (induction fs) (simp_all add: ReadFrame_fits)

theorem read_frames_concat_witness:
  "read_frames 2 (frame_bytes NewPingFrame @ frame_bytes NewPongFrame @ [7])
   = (Inr [NewPingFrame, NewPongFrame], [7])"
proof -
  have "\<forall>f \<in> set [NewPingFrame, NewPongFrame]. frame_fits f"
    by (simp add: frame_fits_def NewPingFrame_def NewPongFrame_def control_frame_def)
  from read_frames_concat [OF this, of "[7]"] show ?thesis by (simp add: eval_nat_numeral)
qed

end
