(* ===== verification/Messages.thy ===== *)
theory Messages
  imports Wire
begin

text \<open>
  The message layer of \<^verbatim>\<open>internal/protocol\<close>: \<^verbatim>\<open>request.go\<close>, \<^verbatim>\<open>response.go\<close>,
  \<^verbatim>\<open>stream.go\<close> and the two wrappers of \<^verbatim>\<open>msgpack.go\<close>. The msgpack library is not part of
  the repository: \<open>marshal\<close> and \<open>unmarshal\<close> are parameters of every operation here, and the one law
  a property needs of them (decoding what was encoded gives it back) is a hypothesis.
\<close>

subsection \<open>Headers\<close>

record RequestHeader =
  rq_Method :: string
  rq_URI :: string
  rq_QueryString :: string
  rq_Headers :: "string \<rightharpoonup> string"
  rq_RemoteAddr :: string
  rq_ServerName :: string
  rq_ServerPort :: string
  rq_Protocol :: string

record ResponseHeader =
  rs_Status :: int
  rs_Headers :: "string \<rightharpoonup> string"

record StreamHeader =
  sh_ConnectionID :: string
  sh_Event :: string
  sh_Room :: string

datatype 'e msg_error =
    ErrEncoding string 'e
  | ErrDecoding string 'e
  | ErrFrameType byte byte

type_synonym ('v, 'e) marshaller = "'v \<Rightarrow> 'e + byte list"
type_synonym ('v, 'e) unmarshaller = "byte list \<Rightarrow> 'e + 'v"

definition MarshalMsgpack :: "('v, 'e) marshaller \<Rightarrow> 'v \<Rightarrow> 'e + byte list" where
  "MarshalMsgpack marshal v = marshal v"

definition UnmarshalMsgpack :: "('v, 'e) unmarshaller \<Rightarrow> byte list \<Rightarrow> 'e + 'v" where
  "UnmarshalMsgpack unmarshal data = unmarshal data"

subsection \<open>Requests and responses\<close>

definition EncodeRequest ::
  "(RequestHeader, 'e) marshaller \<Rightarrow> RequestHeader \<Rightarrow> byte list \<Rightarrow> 'e msg_error + Frame" where
  "EncodeRequest marshal req body =
     (case MarshalMsgpack marshal req of
        Inl err \<Rightarrow> Inl (ErrEncoding ''encoding request headers'' err)
      | Inr headers \<Rightarrow> Inr \<lparr>fr_Type = TypeRequest, fr_Flags = 0, fr_StreamID = 0,
          fr_Headers = headers, fr_Payload = body\<rparr>)"

definition DecodeRequest ::
  "(RequestHeader, 'e) unmarshaller \<Rightarrow> Frame \<Rightarrow> 'e msg_error + RequestHeader \<times> byte list" where
  "DecodeRequest unmarshal f =
     (if fr_Type f \<noteq> TypeRequest then Inl (ErrFrameType TypeRequest (fr_Type f))
      else case UnmarshalMsgpack unmarshal (fr_Headers f) of
        Inl err \<Rightarrow> Inl (ErrDecoding ''decoding request headers'' err)
      | Inr req \<Rightarrow> Inr (req, fr_Payload f))"

definition EncodeResponse ::
  "(ResponseHeader, 'e) marshaller \<Rightarrow> ResponseHeader \<Rightarrow> byte list \<Rightarrow> 'e msg_error + Frame" where
  "EncodeResponse marshal resp body =
     (case MarshalMsgpack marshal resp of
        Inl err \<Rightarrow> Inl (ErrEncoding ''encoding response headers'' err)
      | Inr headers \<Rightarrow> Inr \<lparr>fr_Type = TypeResponse, fr_Flags = 0, fr_StreamID = 0,
          fr_Headers = headers, fr_Payload = body\<rparr>)"

definition DecodeResponse ::
  "(ResponseHeader, 'e) unmarshaller \<Rightarrow> Frame \<Rightarrow> 'e msg_error + ResponseHeader \<times> byte list" where
  "DecodeResponse unmarshal f =
     (if fr_Type f \<noteq> TypeResponse then Inl (ErrFrameType TypeResponse (fr_Type f))
      else case UnmarshalMsgpack unmarshal (fr_Headers f) of
        Inl err \<Rightarrow> Inl (ErrDecoding ''decoding response headers'' err)
      | Inr resp \<Rightarrow> Inr (resp, fr_Payload f))"

subsection \<open>Streams\<close>

definition EncodeStreamData ::
  "(StreamHeader, 'e) marshaller \<Rightarrow> uint16 \<Rightarrow> StreamHeader \<Rightarrow> byte list \<Rightarrow> 'e msg_error + Frame" where
  "EncodeStreamData marshal streamID header data =
     (case MarshalMsgpack marshal header of
        Inl err \<Rightarrow> Inl (ErrEncoding ''encoding stream headers'' err)
      | Inr headers \<Rightarrow> Inr \<lparr>fr_Type = TypeStreamData, fr_Flags = 0, fr_StreamID = streamID,
          fr_Headers = headers, fr_Payload = data\<rparr>)"

definition DecodeStreamData ::
  "(StreamHeader, 'e) unmarshaller \<Rightarrow> Frame \<Rightarrow> 'e msg_error + StreamHeader \<times> byte list" where
  "DecodeStreamData unmarshal f =
     (if fr_Type f \<noteq> TypeStreamData then Inl (ErrFrameType TypeStreamData (fr_Type f))
      else case UnmarshalMsgpack unmarshal (fr_Headers f) of
        Inl err \<Rightarrow> Inl (ErrDecoding ''decoding stream headers'' err)
      | Inr header \<Rightarrow> Inr (header, fr_Payload f))"

definition EncodeStreamClose ::
  "(StreamHeader, 'e) marshaller \<Rightarrow> uint16 \<Rightarrow> string \<Rightarrow> 'e msg_error + Frame" where
  "EncodeStreamClose marshal streamID connID =
     (let header = \<lparr>sh_ConnectionID = connID, sh_Event = ''close'', sh_Room = ''''\<rparr>
      in case MarshalMsgpack marshal header of
        Inl err \<Rightarrow> Inl (ErrEncoding ''encoding stream close headers'' err)
      | Inr headers \<Rightarrow> Inr \<lparr>fr_Type = TypeStreamClose, fr_Flags = 0, fr_StreamID = streamID,
          fr_Headers = headers, fr_Payload = []\<rparr>)"

lemmas encode_defs = EncodeRequest_def EncodeResponse_def EncodeStreamData_def EncodeStreamClose_def
  MarshalMsgpack_def
lemmas decode_defs = DecodeRequest_def DecodeResponse_def DecodeStreamData_def UnmarshalMsgpack_def

text \<open>
  The contract the three message kinds share: an encoder that writes a frame of its own type with
  the marshalled header, and a decoder that checks the type first.
\<close>

locale message_kind =
  fixes encode :: "('v, 'e) marshaller \<Rightarrow> 'v \<Rightarrow> byte list \<Rightarrow> 'e msg_error + Frame"
    and decode :: "('v, 'u) unmarshaller \<Rightarrow> Frame \<Rightarrow> 'u msg_error + 'v \<times> byte list"
    and kind :: byte
  assumes encode_ok: "encode m v body = Inr f \<Longrightarrow>
      fr_Type f = kind \<and> m v = Inr (fr_Headers f) \<and> fr_Payload f = body"
    and encode_err: "m v = Inl e \<Longrightarrow> \<exists>s. encode m v body = Inl (ErrEncoding s e)"
    and decode_type: "fr_Type f \<noteq> kind \<Longrightarrow> decode u f = Inl (ErrFrameType kind (fr_Type f))"
    and decode_ok: "fr_Type f = kind \<Longrightarrow> u (fr_Headers f) = Inr v \<Longrightarrow> decode u f = Inr (v, fr_Payload f)"
    and decode_err: "fr_Type f = kind \<Longrightarrow> u (fr_Headers f) = Inl e' \<Longrightarrow> \<exists>s. decode u f = Inl (ErrDecoding s e')"
begin

lemma decode_encode:
  assumes "encode m v body = Inr f" and "\<forall>b. m v = Inr b \<longrightarrow> u b = Inr v"
  shows "decode u f = Inr (v, body)"
  using encode_ok [OF assms(1)] assms(2) decode_ok [of f u v] by simp

lemma over_the_wire:
  assumes "encode m v body = Inr f" and "\<forall>b. m v = Inr b \<longrightarrow> u b = Inr v" and "frame_fits f"
  shows "\<exists>g. ReadFrame (frame_bytes f @ rest) = (Inr g, rest) \<and> decode u g = Inr (v, body)"
  using ReadFrame_fits [OF assms(3)] decode_encode [OF assms(1,2)] by auto

lemma decode_InrD: "decode u f = Inr (v, body) \<Longrightarrow>
   fr_Type f = kind \<and> u (fr_Headers f) = Inr v \<and> body = fr_Payload f"
  using decode_type [of f u] decode_ok [of f u] decode_err [of f u]
  by (cases "u (fr_Headers f)"; cases "fr_Type f = kind") fastforce+

end

interpretation req: message_kind EncodeRequest DecodeRequest TypeRequest
  by unfold_locales (auto simp: encode_defs decode_defs split: sum.splits)

interpretation resp: message_kind EncodeResponse DecodeResponse TypeResponse
  by unfold_locales (auto simp: encode_defs decode_defs split: sum.splits)

interpretation strm: message_kind "\<lambda>m. EncodeStreamData m sid" DecodeStreamData TypeStreamData
  by unfold_locales (auto simp: encode_defs decode_defs split: sum.splits)

subsection \<open>Properties\<close>

text \<open>
  A WebSocket message that Go encodes for the PHP side is recovered on the other end of the
  pipe: header, data and stream identifier, with the rest of the stream left in place, provided
  msgpack decodes what it encoded for this header and the frame fits the wire's size fields.
\<close>
theorem stream_over_the_wire:
  assumes "EncodeStreamData marshal sid header data = Inr f"
    and "\<forall>b. marshal header = Inr b \<longrightarrow> unmarshal b = Inr header"
    and "frame_fits f"
  shows "ReadFrame (frame_bytes f @ rest) = (Inr f, rest) \<and> fr_StreamID f = sid \<and>
    DecodeStreamData unmarshal f = Inr (header, data)"
  using ReadFrame_fits [OF assms(3)] strm.decode_encode [OF assms(1,2)] assms(1)
  by (auto simp: encode_defs split: sum.splits)

text \<open>A msgpack codec for stream headers with short strings, used to show the law can hold.\<close>

definition fixstr :: "string \<Rightarrow> byte list" where
  "fixstr s = word_of_nat (160 + length s) # bytes_of_string s"

definition unfixstr :: "byte list \<Rightarrow> (string \<times> byte list) option" where
  "unfixstr b = (case b of [] \<Rightarrow> None
     | t # r \<Rightarrow> (let n = unat t - 160 in
         if 160 \<le> unat t \<and> n \<le> length r
         then Some (map (\<lambda>x. char_of (unat x)) (take n r), drop n r) else None))"

definition small_marshal :: "StreamHeader \<Rightarrow> unit + byte list" where
  "small_marshal h = Inr (0x83 # fixstr ''conn_id'' @ fixstr (sh_ConnectionID h)
     @ fixstr ''event'' @ fixstr (sh_Event h) @ fixstr ''room'' @ fixstr (sh_Room h))"

fun unfixstrs :: "nat \<Rightarrow> byte list \<Rightarrow> string list option" where
  "unfixstrs 0 b = Some []"
| "unfixstrs (Suc n) b = (case unfixstr b of None \<Rightarrow> None
     | Some (s, r) \<Rightarrow> map_option ((#) s) (unfixstrs n r))"

definition small_unmarshal :: "byte list \<Rightarrow> unit + StreamHeader" where
  "small_unmarshal b = (case unfixstrs 6 (tl b) of
     Some [_, c, _, e, _, r] \<Rightarrow> Inr \<lparr>sh_ConnectionID = c, sh_Event = e, sh_Room = r\<rparr>
   | _ \<Rightarrow> Inl ())"

definition small_header :: StreamHeader where
  "small_header = \<lparr>sh_ConnectionID = ''a1'', sh_Event = ''message'', sh_Room = ''''\<rparr>"

theorem stream_over_the_wire_witness:
  "\<exists>f. EncodeStreamData small_marshal 9 small_header [1, 2] = Inr f \<and>
     ReadFrame (frame_bytes f @ [5]) = (Inr f, [5]) \<and> fr_StreamID f = 9 \<and>
     DecodeStreamData small_unmarshal f = Inr (small_header, [1, 2])"
proof -
  obtain f where f: "EncodeStreamData small_marshal 9 small_header [1, 2] = Inr f"
    by (simp add: encode_defs small_marshal_def)
  have "small_unmarshal (projr (small_marshal small_header)) = Inr small_header" by code_simp
  then have law: "\<forall>b. small_marshal small_header = Inr b \<longrightarrow> small_unmarshal b = Inr small_header"
    by auto
  have "frame_fits f"
    using f by (auto simp: encode_defs small_marshal_def small_header_def fixstr_def frame_fits_def)
  from stream_over_the_wire [OF f law this, of "[5]"] f show ?thesis by blast
qed

text \<open>
  One request and its answer across a worker's two pipes: the PHP side reads and decodes exactly
  the request header and body Go sent, and Go reads and decodes exactly the response header and body
  PHP sent back; and neither side can mistake one message for the other.
\<close>
theorem exchange_over_the_wire:
  assumes "EncodeRequest mq req body = Inr q" and "EncodeResponse mp resp out = Inr p"
    and "\<forall>b. mq req = Inr b \<longrightarrow> uq b = Inr req" and "\<forall>b. mp resp = Inr b \<longrightarrow> up b = Inr resp"
    and "frame_fits q" and "frame_fits p"
  shows "ReadFrame (frame_bytes q @ rest) = (Inr q, rest) \<and> DecodeRequest uq q = Inr (req, body) \<and>
    ReadFrame (frame_bytes p @ rest') = (Inr p, rest') \<and> DecodeResponse up p = Inr (resp, out) \<and>
    DecodeResponse up q = Inl (ErrFrameType TypeResponse TypeRequest) \<and>
    DecodeRequest uq p = Inl (ErrFrameType TypeRequest TypeResponse)"
  using ReadFrame_fits [OF assms(5)] ReadFrame_fits [OF assms(6)]
    req.decode_encode [OF assms(1,3)] resp.decode_encode [OF assms(2,4)]
    req.encode_ok [OF assms(1)] resp.encode_ok [OF assms(2)]
  by (simp add: req.decode_type resp.decode_type frame_type_defs)

text \<open>Constant codecs for one request and one response header, for the witness.\<close>

definition one_request :: RequestHeader where
  "one_request = \<lparr>rq_Method = ''GET'', rq_URI = ''/'', rq_QueryString = '''', rq_Headers = Map.empty,
     rq_RemoteAddr = '''', rq_ServerName = '''', rq_ServerPort = '''', rq_Protocol = ''''\<rparr>"

definition one_response :: ResponseHeader where
  "one_response = \<lparr>rs_Status = 200, rs_Headers = Map.empty\<rparr>"

theorem exchange_over_the_wire_witness:
  "\<exists>q p. EncodeRequest (\<lambda>_. Inr [1] :: unit + byte list) one_request [7] = Inr q \<and>
     EncodeResponse (\<lambda>_. Inr [2] :: unit + byte list) one_response [8] = Inr p \<and>
     DecodeRequest (\<lambda>b. if b = [1] then Inr one_request else Inl ()) q = Inr (one_request, [7]) \<and>
     DecodeResponse (\<lambda>b. if b = [2] then Inr one_response else Inl ()) p = Inr (one_response, [8])"
proof -
  obtain q where q: "EncodeRequest (\<lambda>_. Inr [1] :: unit + byte list) one_request [7] = Inr q"
    and fq: "frame_fits q" by (simp add: encode_defs frame_fits_def)
  obtain p where p: "EncodeResponse (\<lambda>_. Inr [2] :: unit + byte list) one_response [8] = Inr p"
    and fp: "frame_fits p" by (simp add: encode_defs frame_fits_def)
  have "DecodeRequest (\<lambda>b. if b = [1] then Inr one_request else Inl ()) q = Inr (one_request, [7]) \<and>
     DecodeResponse (\<lambda>b. if b = [2] then Inr one_response else Inl ()) p = Inr (one_response, [8])"
    using exchange_over_the_wire [OF q p _ _ fq fp,
        where uq = "\<lambda>b. if b = [1] then Inr one_request else Inl ()"
          and up = "\<lambda>b. if b = [2] then Inr one_response else Inl ()"] by simp
  with q p show ?thesis by blast
qed

end
