(* ===== verification/GoMap.thy ===== *)
theory GoMap
  imports Prelude "HOL-Library.AList" "HOL-Library.Multiset"
begin

text \<open>
  Go maps as association lists with distinct keys. \<^verbatim>\<open>m[k] = v\<close> is \<open>AList.update\<close>,
  \<^verbatim>\<open>delete(m, k)\<close> is \<open>AList.delete\<close>, a lookup is \<open>map_of\<close> and \<^verbatim>\<open>len(m)\<close> the length. The
  order in which \<^verbatim>\<open>range\<close> visits a map is not specified by the language: it is a parameter, of
  which only \<open>range_order\<close> is known, that every key is visited once.
\<close>

type_synonym ('k, 'v) go_map = "('k \<times> 'v) list"

definition wf_map :: "('k, 'v) go_map \<Rightarrow> bool" where
  "wf_map m \<longleftrightarrow> distinct (map fst m)"

definition range_order :: "('k list \<Rightarrow> 'k list) \<Rightarrow> bool" where
  "range_order order \<longleftrightarrow> (\<forall>ks. mset (order ks) = mset ks)"

definition range_map :: "('k list \<Rightarrow> 'k list) \<Rightarrow> ('k, 'v) go_map \<Rightarrow> ('k \<times> 'v) list" where
  "range_map order m = map (\<lambda>k. (k, the (map_of m k))) (order (map fst m))"

text \<open>What code that uses a map relies on.\<close>

locale dictionary =
  fixes wf :: "'m \<Rightarrow> bool"
    and emp :: 'm
    and get :: "'m \<Rightarrow> 'k \<Rightarrow> 'v option"
    and put :: "'k \<Rightarrow> 'v \<Rightarrow> 'm \<Rightarrow> 'm"
    and del :: "'k \<Rightarrow> 'm \<Rightarrow> 'm"
    and len :: "'m \<Rightarrow> nat"
  assumes wf_emp: "wf emp"
    and wf_put: "wf m \<Longrightarrow> wf (put k v m)"
    and wf_del: "wf m \<Longrightarrow> wf (del k m)"
    and get_emp: "get emp k = None"
    and get_put: "get (put k v m) = (get m)(k \<mapsto> v)"
    and get_del: "get (del k m) = (get m)(k := None)"
    and len_get: "wf m \<Longrightarrow> len m = card (dom (get m))"
    and dom_finite: "finite (dom (get m))"
begin

lemma len_0_iff: "wf m \<Longrightarrow> len m = 0 \<longleftrightarrow> (\<forall>k. get m k = None)"
  using dom_finite [of m] by (auto simp: len_get card_eq_0_iff dom_def)

lemma len_put: "wf m \<Longrightarrow> len (put k v m) = (if get m k = None then Suc (len m) else len m)"
  using dom_finite [of m] by (auto simp: len_get wf_put get_put card_insert_if insert_absorb domIff)

lemma len_del: "wf m \<Longrightarrow> len (del k m) = (if get m k = None then len m else len m - 1)"
  using dom_finite [of m] by (auto simp: len_get wf_del get_del card_Diff_singleton_if)

end

interpretation gm: dictionary wf_map "[]" map_of AList.update AList.delete length
proof unfold_locales
  show "length m = card (dom (map_of m))" if "wf_map m" for m :: "('a, 'b) go_map"
    using that distinct_card [of "map fst m"] by (simp add: wf_map_def dom_map_of_conv_image_fst)
qed (auto simp: wf_map_def AList.distinct_update AList.distinct_delete AList.update_conv' AList.delete_conv' finite_dom_map_of)

lemmas go_map_simps = gm.get_put gm.get_del gm.wf_put gm.wf_del

lemma wf_map_Nil [simp]: "wf_map []"
  by (rule gm.wf_emp)

lemma wf_map_single [simp]: "wf_map [x]"
  by (simp add: wf_map_def)

lemma map_of_None_all: "(\<forall>k. map_of m k = None) \<longleftrightarrow> m = []"
  by (metis map_of_eq_empty_iff)

lemma map_of_del_Nil: "AList.delete k m = [] \<longleftrightarrow> (\<forall>x. x \<noteq> k \<longrightarrow> map_of m x = None)"
  unfolding map_of_None_all [symmetric] by (simp add: gm.get_del)

lemma range_order_set: "range_order order \<Longrightarrow> set (order ks) = set ks"
  unfolding range_order_def by (metis mset_eq_setD)

lemma range_map_mset:
  assumes "range_order order" "wf_map m"
  shows "mset (range_map order m) = mset m"
proof -
  have "mset (range_map order m) = image_mset (\<lambda>k. (k, the (map_of m k))) (mset (map fst m))"
    using assms(1) by (simp add: range_map_def range_order_def)
  also have "\<dots> = mset (map (\<lambda>k. (k, the (map_of m k))) (map fst m))" by (simp only: mset_map)
  also have "map (\<lambda>k. (k, the (map_of m k))) (map fst m) = m"
    unfolding map_map using assms(2) by (intro map_idI) (auto simp: wf_map_def)
  finally show ?thesis .
qed

lemma range_map_set:
  assumes "range_order order" "wf_map m"
  shows "(k, v) \<in> set (range_map order m) \<longleftrightarrow> map_of m k = Some v"
  using mset_eq_setD [OF range_map_mset [OF assms]] assms(2) by (simp add: wf_map_def)

end
