(* ===== verification/WebSocket.thy ===== *)
theory WebSocket
  imports Messages GoMap Transition
begin

text \<open>
  WebSocket connections and rooms (\<^verbatim>\<open>internal/websocket\<close>). Clients are pointers: \<open>mg_heap\<close> holds
  every client and the maps \<open>mg_clients\<close> and \<open>mg_rooms\<close> hold indices into it, so that the rooms of a
  client are shared by both maps, as in the source. What leaves the manager (frames forwarded to PHP,
  writes on connections, closed connections) is the trace. The connection library, the PHP side and
  the msgpack codec are not part of the repository: the PHP side is \<open>mg_phpForward\<close>, which may answer
  differently at every call, and the codec and the order of map iteration are in \<open>ws_env\<close>.
\<close>

subsection \<open>State\<close>

record Client =
  cl_ID :: string
  cl_Conn :: nat
  cl_RemoteAddr :: string
  cl_Rooms :: "(string, bool) go_map"

datatype event =
    Forwarded "Frame option"
  | Wrote nat "byte list"
  | Closed nat

record Manager =
  mg_heap :: "Client list"
  mg_clients :: "(string, nat) go_map"
  mg_rooms :: "(string, (string, nat) go_map) go_map"
  mg_phpForward :: "(event list \<Rightarrow> Frame option \<Rightarrow> string + Frame option) option"
  mg_trace :: "event list"

record 'e ws_env =
  we_marshal :: "(StreamHeader, 'e) marshaller"
  we_unmarshal :: "(StreamHeader, 'e) unmarshaller"
  we_order :: "string list \<Rightarrow> string list"

definition NewManager :: Manager where
  "NewManager = \<lparr>mg_heap = [], mg_clients = [], mg_rooms = [], mg_phpForward = None, mg_trace = []\<rparr>"

definition SetPHPForwarder :: "(event list \<Rightarrow> Frame option \<Rightarrow> string + Frame option) \<Rightarrow> Manager \<Rightarrow> Manager" where
  "SetPHPForwarder fn m = m\<lparr>mg_phpForward := Some fn\<rparr>"

definition emit :: "event \<Rightarrow> Manager \<Rightarrow> Manager" where
  "emit e m = m\<lparr>mg_trace := mg_trace m @ [e]\<rparr>"

definition Send :: "nat \<Rightarrow> byte list \<Rightarrow> Manager \<Rightarrow> Manager" where
  "Send r data m = emit (Wrote (cl_Conn (mg_heap m ! r)) data) m"

subsection \<open>Connections\<close>

text \<open>\<open>rnd\<close> is what \<^verbatim>\<open>crypto/rand\<close> puts into the 16-byte buffer.\<close>

definition generateConnID :: "byte list \<Rightarrow> string" where
  "generateConnID rnd = EncodeToString (take 16 (rnd @ replicate 16 0))"

text \<open>Forwarding an event of a connection to PHP, the reply being ignored.\<close>

definition notify :: "'e ws_env \<Rightarrow> string \<Rightarrow> string \<Rightarrow> Manager \<Rightarrow> Manager" where
  "notify ev cid event m =
     (case mg_phpForward m of
        None \<Rightarrow> m
      | Some fwd \<Rightarrow>
          (let header = \<lparr>sh_ConnectionID = cid, sh_Event = event, sh_Room = ''''\<rparr>
           in case EncodeStreamData (we_marshal ev) 0 header [] of
                Inl err \<Rightarrow> emit (Forwarded None) m
              | Inr frame \<Rightarrow> emit (Forwarded (Some frame)) m))"

definition AddConnection :: "'e ws_env \<Rightarrow> byte list \<Rightarrow> nat \<Rightarrow> string \<Rightarrow> Manager \<Rightarrow> nat \<times> Manager" where
  "AddConnection ev rnd conn addr m =
     (let cid = generateConnID rnd;
          r = length (mg_heap m);
          m = m\<lparr>mg_heap := mg_heap m @ [\<lparr>cl_ID = cid, cl_Conn = conn, cl_RemoteAddr = addr, cl_Rooms = []\<rparr>]\<rparr>;
          m = m\<lparr>mg_clients := AList.update cid r (mg_clients m)\<rparr>
      in (r, notify ev cid ''connect'' m))"

definition remove_member :: "string \<Rightarrow> string \<Rightarrow> (string, (string, nat) go_map) go_map \<Rightarrow> (string, (string, nat) go_map) go_map" where
  "remove_member cid room rooms =
     (case map_of rooms room of
        None \<Rightarrow> rooms
      | Some members \<Rightarrow>
          (let members = AList.delete cid members
           in if length members = 0 then AList.delete room rooms
              else AList.update room members rooms))"

definition RemoveConnection :: "'e ws_env \<Rightarrow> string \<Rightarrow> Manager \<Rightarrow> Manager" where
  "RemoveConnection ev cid m =
     (case map_of (mg_clients m) cid of
        None \<Rightarrow> m
      | Some r \<Rightarrow>
          (let rooms = fold (\<lambda>(room, _). remove_member cid room)
                 (range_map (we_order ev) (cl_Rooms (mg_heap m ! r))) (mg_rooms m);
               m = m\<lparr>mg_rooms := rooms, mg_clients := AList.delete cid (mg_clients m)\<rparr>
           in notify ev cid ''close'' m))"

subsection \<open>Rooms\<close>

definition upd_rooms :: "nat \<Rightarrow> ((string, bool) go_map \<Rightarrow> (string, bool) go_map) \<Rightarrow> Manager \<Rightarrow> Manager" where
  "upd_rooms r f m = m\<lparr>mg_heap := (mg_heap m)[r := (mg_heap m ! r)\<lparr>cl_Rooms := f (cl_Rooms (mg_heap m ! r))\<rparr>]\<rparr>"

definition add_member :: "string \<Rightarrow> nat \<Rightarrow> string \<Rightarrow> (string, (string, nat) go_map) go_map \<Rightarrow> (string, (string, nat) go_map) go_map" where
  "add_member cid r room rooms =
     (let rooms = (if map_of rooms room = None then AList.update room [] rooms else rooms)
      in AList.update room (AList.update cid r (the (map_of rooms room))) rooms)"

definition JoinRoom :: "string \<Rightarrow> string \<Rightarrow> Manager \<Rightarrow> Manager" where
  "JoinRoom clientID room m =
     (case map_of (mg_clients m) clientID of
        None \<Rightarrow> m
      | Some r \<Rightarrow>
          upd_rooms r (AList.update room True) (m\<lparr>mg_rooms := add_member clientID r room (mg_rooms m)\<rparr>))"

definition LeaveRoom :: "string \<Rightarrow> string \<Rightarrow> Manager \<Rightarrow> Manager" where
  "LeaveRoom clientID room m =
     (case map_of (mg_clients m) clientID of
        None \<Rightarrow> m
      | Some r \<Rightarrow>
          upd_rooms r (AList.delete room) (m\<lparr>mg_rooms := remove_member clientID room (mg_rooms m)\<rparr>))"

subsection \<open>Messages\<close>

definition recipients :: "'e ws_env \<Rightarrow> Manager \<Rightarrow> (string, nat) go_map \<Rightarrow> string \<Rightarrow> nat list" where
  "recipients ev m members excludeID =
     filter (\<lambda>r. cl_ID (mg_heap m ! r) \<noteq> excludeID) (map snd (range_map (we_order ev) members))"

definition BroadcastToRoom :: "'e ws_env \<Rightarrow> string \<Rightarrow> byte list \<Rightarrow> string \<Rightarrow> Manager \<Rightarrow> Manager" where
  "BroadcastToRoom ev room data excludeID m =
     (case map_of (mg_rooms m) room of
        None \<Rightarrow> m
      | Some members \<Rightarrow> fold (\<lambda>r. Send r data) (recipients ev m members excludeID) m)"

definition SendToClient :: "string \<Rightarrow> byte list \<Rightarrow> Manager \<Rightarrow> Manager" where
  "SendToClient clientID data m =
     (case map_of (mg_clients m) clientID of None \<Rightarrow> m | Some r \<Rightarrow> Send r data m)"

definition Broadcast :: "'e ws_env \<Rightarrow> byte list \<Rightarrow> string \<Rightarrow> Manager \<Rightarrow> Manager" where
  "Broadcast ev data excludeID m = fold (\<lambda>r. Send r data) (recipients ev m (mg_clients m) excludeID) m"

definition HandleMessage :: "'e ws_env \<Rightarrow> nat \<Rightarrow> byte list \<Rightarrow> Manager \<Rightarrow> Manager" where
  "HandleMessage ev r message m =
     (case mg_phpForward m of
        None \<Rightarrow> m
      | Some fwd \<Rightarrow>
          (let header = \<lparr>sh_ConnectionID = cl_ID (mg_heap m ! r), sh_Event = ''message'', sh_Room = ''''\<rparr>
           in case EncodeStreamData (we_marshal ev) 0 header message of
                Inl err \<Rightarrow> m
              | Inr frame \<Rightarrow>
                  (let m' = emit (Forwarded (Some frame)) m
                   in case fwd (mg_trace m) (Some frame) of
                        Inl err \<Rightarrow> m'
                      | Inr None \<Rightarrow> m'
                      | Inr (Some resp) \<Rightarrow>
                          if fr_Type resp \<noteq> TypeStreamData then m'
                          else case DecodeStreamData (we_unmarshal ev) resp of
                            Inl err \<Rightarrow> m'
                          | Inr (streamHeader, data) \<Rightarrow>
                              if sh_Room streamHeader \<noteq> '''' then BroadcastToRoom ev (sh_Room streamHeader) data '''' m'
                              else if sh_ConnectionID streamHeader \<noteq> '''' then SendToClient (sh_ConnectionID streamHeader) data m'
                              else m')))"

record ManagerStats =
  ms_TotalConnections :: nat
  ms_TotalRooms :: nat

definition Manager_Stats :: "Manager \<Rightarrow> ManagerStats" where
  "Manager_Stats m = \<lparr>ms_TotalConnections = length (mg_clients m), ms_TotalRooms = length (mg_rooms m)\<rparr>"

subsection \<open>The handler\<close>

text \<open>
  \<open>sv_pumps\<close> are the read pumps that run, each with its client. An upgrade that fails changes
  nothing; one that succeeds adds a connection and its pump. A pump handles one message per step and,
  when reading fails, removes its connection, closes it and ends. The other operations of the manager
  may be called at any time. Every operation holds the manager's lock while it changes the maps, so
  the steps are the operations.
\<close>

record ws_server =
  sv_manager :: Manager
  sv_pumps :: "nat list"

definition NewHandler :: "Manager \<Rightarrow> ws_server" where
  "NewHandler manager = \<lparr>sv_manager = manager, sv_pumps = []\<rparr>"

definition ServeHTTP :: "'e ws_env \<Rightarrow> (nat option) \<Rightarrow> byte list \<Rightarrow> string \<Rightarrow> ws_server \<Rightarrow> ws_server" where
  "ServeHTTP ev upgraded rnd addr s =
     (case upgraded of
        None \<Rightarrow> s
      | Some conn \<Rightarrow>
          (let (r, m) = AddConnection ev rnd conn addr (sv_manager s)
           in \<lparr>sv_manager = m, sv_pumps = sv_pumps s @ [r]\<rparr>))"

definition pump_message :: "'e ws_env \<Rightarrow> nat \<Rightarrow> byte list \<Rightarrow> ws_server \<Rightarrow> ws_server" where
  "pump_message ev r message s = s\<lparr>sv_manager := HandleMessage ev r message (sv_manager s)\<rparr>"

definition pump_end :: "'e ws_env \<Rightarrow> nat \<Rightarrow> ws_server \<Rightarrow> ws_server" where
  "pump_end ev r s =
     (let c = mg_heap (sv_manager s) ! r
      in \<lparr>sv_manager = emit (Closed (cl_Conn c)) (RemoveConnection ev (cl_ID c) (sv_manager s)),
          sv_pumps = remove1 r (sv_pumps s)\<rparr>)"

fun readPump :: "'e ws_env \<Rightarrow> nat \<Rightarrow> byte list list \<Rightarrow> ws_server \<Rightarrow> ws_server" where
  "readPump ev r [] s = pump_end ev r s"
| "readPump ev r (message # messages) s = readPump ev r messages (pump_message ev r message s)"

inductive ws_step :: "'e ws_env \<Rightarrow> ws_server \<Rightarrow> ws_server \<Rightarrow> bool" for ev where
  upgrade: "map_of (mg_clients (sv_manager s)) (generateConnID rnd) = None \<Longrightarrow>
    ws_step ev s (ServeHTTP ev upgraded rnd addr s)"
| message: "r \<in> set (sv_pumps s) \<Longrightarrow> ws_step ev s (pump_message ev r data s)"
| finish: "r \<in> set (sv_pumps s) \<Longrightarrow> ws_step ev s (pump_end ev r s)"
| join: "ws_step ev s (s\<lparr>sv_manager := JoinRoom cid room (sv_manager s)\<rparr>)"
| leave: "ws_step ev s (s\<lparr>sv_manager := LeaveRoom cid room (sv_manager s)\<rparr>)"
| to_room: "ws_step ev s (s\<lparr>sv_manager := BroadcastToRoom ev room data excl (sv_manager s)\<rparr>)"
| to_client: "ws_step ev s (s\<lparr>sv_manager := SendToClient cid data (sv_manager s)\<rparr>)"
| to_all: "ws_step ev s (s\<lparr>sv_manager := Broadcast ev data excl (sv_manager s)\<rparr>)"

definition ws_init :: "(event list \<Rightarrow> Frame option \<Rightarrow> string + Frame option) option \<Rightarrow> ws_server \<Rightarrow> bool" where
  "ws_init fwd s \<longleftrightarrow> s = NewHandler (NewManager\<lparr>mg_phpForward := fwd\<rparr>)"

end
