(* ===== verification/WebSocketProps.thy ===== *)
theory WebSocketProps
  imports WebSocket
begin

text \<open>
  Correctness of the WebSocket manager: the two maps and the clients' own room sets stay consistent
  in every run of the server, the manager refines an abstract specification of rooms, and messages
  reach exactly the clients they are meant for.
\<close>

subsection \<open>Membership\<close>

definition mem :: "(string, (string, nat) go_map) go_map \<Rightarrow> string \<Rightarrow> string \<Rightarrow> nat option" where
  "mem rooms room cid = (case map_of rooms room of None \<Rightarrow> None | Some members \<Rightarrow> map_of members cid)"

definition rooms_wf :: "(string, (string, nat) go_map) go_map \<Rightarrow> bool" where
  "rooms_wf rooms \<longleftrightarrow> wf_map rooms \<and> (\<forall>room members. map_of rooms room = Some members \<longrightarrow> wf_map members \<and> members \<noteq> [])"

lemma mem_remove_member:
  "mem (remove_member cid room rooms) rm c = (if rm = room \<and> c = cid then None else mem rooms rm c)"
  by (auto simp: mem_def remove_member_def Let_def go_map_simps map_of_del_Nil split: option.splits)

lemma rooms_wf_remove_member: "rooms_wf rooms \<Longrightarrow> rooms_wf (remove_member cid room rooms)"
  by (auto simp: rooms_wf_def remove_member_def Let_def go_map_simps split: option.splits if_splits)

lemma fold_remove_member:
  "mem (fold (\<lambda>(room, _). remove_member cid room) xs rooms) rm c =
     (if c = cid \<and> rm \<in> fst ` set xs then None else mem rooms rm c)"
  "rooms_wf rooms \<Longrightarrow> rooms_wf (fold (\<lambda>(room, _). remove_member cid room) xs rooms)"
  by (induction xs arbitrary: rooms) (auto simp: mem_remove_member rooms_wf_remove_member)

lemma mem_add_member: "mem (add_member cid r room rooms) rm c = (if rm = room \<and> c = cid then Some r else mem rooms rm c)"
  by (auto simp: mem_def add_member_def Let_def go_map_simps split: option.splits)

lemma rooms_wf_add_member: "rooms_wf rooms \<Longrightarrow> rooms_wf (add_member cid r room rooms)"
  by (auto simp: rooms_wf_def add_member_def Let_def gm.get_put gm.wf_put split: if_splits)

lemma rooms_wf_Nil: "rooms_wf rooms \<Longrightarrow> (\<forall>rm c. mem rooms rm c = None) \<longleftrightarrow> rooms = []"
proof
  assume wf: "rooms_wf rooms" and "\<forall>rm c. mem rooms rm c = None"
  then have "map_of rooms rm = None" for rm
    by (cases "map_of rooms rm") (auto simp: rooms_wf_def mem_def map_of_None_all [symmetric] split: option.splits)
  then show "rooms = []" using map_of_None_all by blast
qed (simp add: mem_def)

subsection \<open>The invariant of the manager\<close>

definition mgr_inv :: "Manager \<Rightarrow> bool" where
  "mgr_inv m \<longleftrightarrow> wf_map (mg_clients m) \<and> map_of (mg_clients m) [] = None \<and> rooms_wf (mg_rooms m) \<and>
     (\<forall>r < length (mg_heap m). wf_map (cl_Rooms (mg_heap m ! r))) \<and>
     (\<forall>cid r. map_of (mg_clients m) cid = Some r \<longrightarrow> r < length (mg_heap m) \<and> cl_ID (mg_heap m ! r) = cid) \<and>
     (\<forall>room cid r. mem (mg_rooms m) room cid = Some r \<longleftrightarrow>
        map_of (mg_clients m) cid = Some r \<and> map_of (cl_Rooms (mg_heap m ! r)) room \<noteq> None)"

lemma emit_fields [simp]:
  "mg_heap (emit e m) = mg_heap m" "mg_clients (emit e m) = mg_clients m" "mg_rooms (emit e m) = mg_rooms m"
  "mg_phpForward (emit e m) = mg_phpForward m" "mg_trace (emit e m) = mg_trace m @ [e]"
  by (simp_all add: emit_def)

lemma notify_fields [simp]:
  "mg_heap (notify ev cid e m) = mg_heap m" "mg_clients (notify ev cid e m) = mg_clients m"
  "mg_rooms (notify ev cid e m) = mg_rooms m" "mg_phpForward (notify ev cid e m) = mg_phpForward m"
  by (simp_all add: notify_def Let_def split: option.splits sum.splits)

lemma sends_fields [simp]:
  "mg_heap (fold (\<lambda>r. Send r data) rs m) = mg_heap m" "mg_clients (fold (\<lambda>r. Send r data) rs m) = mg_clients m"
  "mg_rooms (fold (\<lambda>r. Send r data) rs m) = mg_rooms m" "mg_phpForward (fold (\<lambda>r. Send r data) rs m) = mg_phpForward m"
  by (induction rs arbitrary: m) (simp_all add: Send_def)

lemma sends_trace: "mg_trace (fold (\<lambda>r. Send r data) rs m) = mg_trace m @ map (\<lambda>r. Wrote (cl_Conn (mg_heap m ! r)) data) rs"
  by (induction rs arbitrary: m) (simp_all add: Send_def)

lemma mgr_inv_cong:
  "mg_heap m' = mg_heap m \<Longrightarrow> mg_clients m' = mg_clients m \<Longrightarrow> mg_rooms m' = mg_rooms m \<Longrightarrow> mgr_inv m' = mgr_inv m"
  by (simp add: mgr_inv_def)

lemma message_fields [simp]:
  "mg_heap (BroadcastToRoom ev room data excl m) = mg_heap m" "mg_clients (BroadcastToRoom ev room data excl m) = mg_clients m"
  "mg_rooms (BroadcastToRoom ev room data excl m) = mg_rooms m"
  "mg_heap (SendToClient cid data m) = mg_heap m" "mg_clients (SendToClient cid data m) = mg_clients m"
  "mg_rooms (SendToClient cid data m) = mg_rooms m"
  "mg_heap (Broadcast ev data excl m) = mg_heap m" "mg_clients (Broadcast ev data excl m) = mg_clients m"
  "mg_rooms (Broadcast ev data excl m) = mg_rooms m"
  by (simp_all add: BroadcastToRoom_def SendToClient_def Broadcast_def Send_def split: option.splits)

lemma HandleMessage_fields [simp]:
  "mg_heap (HandleMessage ev r data m) = mg_heap m" "mg_clients (HandleMessage ev r data m) = mg_clients m"
  "mg_rooms (HandleMessage ev r data m) = mg_rooms m"
  by (simp_all add: HandleMessage_def Let_def split: option.splits sum.splits prod.splits)

lemma length_generateConnID: "length (generateConnID rnd) = 32"
  by (simp add: generateConnID_def)

lemma generateConnID_nonempty [simp]: "generateConnID rnd \<noteq> []" "[] \<noteq> generateConnID rnd"
  using length_generateConnID [of rnd] by auto

lemma mgr_inv_Add:
  assumes "mgr_inv m" "map_of (mg_clients m) (generateConnID rnd) = None"
  shows "mgr_inv (snd (AddConnection ev rnd conn addr m))"
  using assms
  by (auto simp: mgr_inv_def AddConnection_def Let_def go_map_simps nth_append less_Suc_eq split: if_splits)

lemma mgr_inv_Remove:
  assumes "mgr_inv m" "range_order (we_order ev)"
  shows "mgr_inv (RemoveConnection ev cid m)"
proof (cases "map_of (mg_clients m) cid")
  case (Some r)
  then have "r < length (mg_heap m)" "wf_map (cl_Rooms (mg_heap m ! r))" using assms(1) by (auto simp: mgr_inv_def)
  then have "fst ` set (range_map (we_order ev) (cl_Rooms (mg_heap m ! r))) = {rm. map_of (cl_Rooms (mg_heap m ! r)) rm \<noteq> None}"
    using range_map_set [OF assms(2)] by (force simp: image_iff)
  then show ?thesis
    using assms Some
    by (auto simp: mgr_inv_def RemoveConnection_def Let_def go_map_simps fold_remove_member split: if_splits)
qed (simp add: RemoveConnection_def assms)

lemma upd_rooms_fields [simp]:
  "mg_clients (upd_rooms r f m) = mg_clients m" "mg_rooms (upd_rooms r f m) = mg_rooms m"
  "length (mg_heap (upd_rooms r f m)) = length (mg_heap m)"
  by (simp_all add: upd_rooms_def)

lemma upd_rooms_nth:
  "x < length (mg_heap m) \<Longrightarrow> mg_heap (upd_rooms r f m) ! x =
     (if x = r then (mg_heap m ! r)\<lparr>cl_Rooms := f (cl_Rooms (mg_heap m ! r))\<rparr> else mg_heap m ! x)"
  by (simp add: upd_rooms_def)

lemma mgr_invD:
  assumes "mgr_inv m"
  shows "wf_map (mg_clients m)" "rooms_wf (mg_rooms m)"
    "r < length (mg_heap m) \<Longrightarrow> wf_map (cl_Rooms (mg_heap m ! r))"
    "map_of (mg_clients m) cid = Some r \<Longrightarrow> r < length (mg_heap m) \<and> cl_ID (mg_heap m ! r) = cid"
    "mem (mg_rooms m) room cid = Some r \<longleftrightarrow>
        map_of (mg_clients m) cid = Some r \<and> map_of (cl_Rooms (mg_heap m ! r)) room \<noteq> None"
    "map_of (mg_clients m) [] = None"
  using assms by (auto simp: mgr_inv_def)

lemma mgr_inv_upd:
  assumes "mgr_inv m" "map_of (mg_clients m) cid = Some r"
    and "wf_map (f (cl_Rooms (mg_heap m ! r)))" "rooms_wf rooms"
    and "\<And>rm c. mem rooms rm c = (if c = cid then if map_of (f (cl_Rooms (mg_heap m ! r))) rm = None then None else Some r
        else mem (mg_rooms m) rm c)"
  shows "mgr_inv (upd_rooms r f (m\<lparr>mg_rooms := rooms\<rparr>))"
proof -
  note inv = mgr_invD [OF assms(1)]
  have ids: "c = cid" if "map_of (mg_clients m) c = Some r" for c using inv(4) [OF that] inv(4) [OF assms(2)] by simp
  have r: "r < length (mg_heap m)" "cl_ID (mg_heap m ! r) = cid" using inv(4) [OF assms(2)] by simp_all
  let ?m = "upd_rooms r f (m\<lparr>mg_rooms := rooms\<rparr>)"
  have heap: "x < length (mg_heap m) \<Longrightarrow> mg_heap ?m ! x =
     (if x = r then (mg_heap m ! r)\<lparr>cl_Rooms := f (cl_Rooms (mg_heap m ! r))\<rparr> else mg_heap m ! x)" for x
    using upd_rooms_nth [of x "m\<lparr>mg_rooms := rooms\<rparr>"] by simp
  have "x < length (mg_heap m) \<Longrightarrow> wf_map (cl_Rooms (mg_heap ?m ! x))" for x
    using inv(3) assms(3) by (simp add: heap)
  moreover have "map_of (mg_clients m) c = Some x \<Longrightarrow> x < length (mg_heap m) \<and> cl_ID (mg_heap ?m ! x) = c" for c x
    using inv(4) [of c x] by (auto simp: heap)
  moreover have "mem rooms rm c = Some x \<longleftrightarrow> map_of (mg_clients m) c = Some x \<and> map_of (cl_Rooms (mg_heap ?m ! x)) rm \<noteq> None" for rm c x
  proof (cases "c = cid")
    case True
    then show ?thesis using assms(2) heap [OF r(1)] by (auto simp: assms(5))
  next
    case False
    then have "map_of (mg_clients m) c = Some x \<Longrightarrow> x < length (mg_heap m) \<and> x \<noteq> r" using ids inv(4) by blast
    then show ?thesis using False inv(5) [of rm c x] by (auto simp: assms(5) heap)
  qed
  ultimately show ?thesis
    unfolding mgr_inv_def using inv(1,6) assms(4) by simp
qed

lemma mem_client:
  assumes "mgr_inv m" "map_of (mg_clients m) cid = Some r"
  shows "mem (mg_rooms m) rm cid = (if map_of (cl_Rooms (mg_heap m ! r)) rm = None then None else Some r)"
proof (cases "mem (mg_rooms m) rm cid")
  case None
  then show ?thesis using mgr_invD(5) [OF assms(1), of rm cid r] assms(2) by auto
next
  case (Some x)
  then show ?thesis using mgr_invD(5) [OF assms(1), of rm cid x] assms(2) by auto
qed

lemma mgr_inv_Join:
  assumes "mgr_inv m"
  shows "mgr_inv (JoinRoom cid room m)"
proof (cases "map_of (mg_clients m) cid")
  case (Some r)
  note inv = mgr_invD [OF assms]
  show ?thesis
    using inv Some mem_client [OF assms Some] unfolding JoinRoom_def
    by (auto intro!: mgr_inv_upd [OF assms Some] simp: mem_add_member rooms_wf_add_member go_map_simps)
qed (simp add: JoinRoom_def assms)

lemma mgr_inv_Leave:
  assumes "mgr_inv m"
  shows "mgr_inv (LeaveRoom cid room m)"
proof (cases "map_of (mg_clients m) cid")
  case (Some r)
  note inv = mgr_invD [OF assms]
  show ?thesis
    using inv Some mem_client [OF assms Some] unfolding LeaveRoom_def
    by (auto intro!: mgr_inv_upd [OF assms Some] simp: mem_remove_member rooms_wf_remove_member go_map_simps)
qed (simp add: LeaveRoom_def assms)

lemma mgr_inv_init: "mgr_inv (NewManager\<lparr>mg_phpForward := fwd\<rparr>)"
  by (simp add: mgr_inv_def NewManager_def rooms_wf_def mem_def)

text \<open>The invariant of the server: the clients are the clients of the read pumps.\<close>

definition ws_inv :: "ws_server \<Rightarrow> bool" where
  "ws_inv s \<longleftrightarrow> mgr_inv (sv_manager s) \<and> distinct (sv_pumps s) \<and>
     set (sv_pumps s) = ran (map_of (mg_clients (sv_manager s)))"

lemma ran_del:
  assumes "m k = Some r" "\<And>c. m c = Some r \<Longrightarrow> c = k"
  shows "ran (m(k := None)) = ran m - {r}"
proof -
  have "(\<exists>c. c \<noteq> k \<and> m c = Some x) \<longleftrightarrow> (\<exists>c. m c = Some x) \<and> x \<noteq> r" for x
    by (metis assms option.inject)
  then show ?thesis by (auto simp: ran_def)
qed

lemma Add_simps [simp]:
  "fst (AddConnection ev rnd conn addr m) = length (mg_heap m)"
  "mg_clients (snd (AddConnection ev rnd conn addr m)) = AList.update (generateConnID rnd) (length (mg_heap m)) (mg_clients m)"
  "mg_rooms (snd (AddConnection ev rnd conn addr m)) = mg_rooms m"
  by (simp_all add: AddConnection_def Let_def)

lemma Remove_clients [simp]:
  "mg_clients (RemoveConnection ev cid m) = AList.delete cid (mg_clients m)"
proof (cases "map_of (mg_clients m) cid")
  case None
  then show ?thesis by (simp add: RemoveConnection_def) (simp add: map_of_eq_None_iff)
qed (simp add: RemoveConnection_def Let_def)

lemma Join_Leave_clients [simp]:
  "mg_clients (JoinRoom cid room m) = mg_clients m" "mg_clients (LeaveRoom cid room m) = mg_clients m"
  by (simp_all add: JoinRoom_def LeaveRoom_def split: option.splits)

lemma ws_inv_upgrade:
  assumes "ws_inv s" "map_of (mg_clients (sv_manager s)) (generateConnID rnd) = None"
  shows "ws_inv (ServeHTTP ev upgraded rnd addr s)"
proof (cases upgraded)
  case (Some conn)
  have "length (mg_heap (sv_manager s)) \<notin> ran (map_of (mg_clients (sv_manager s)))"
    using assms(1) mgr_invD(4) unfolding ws_inv_def ran_def by blast
  then show ?thesis
    using assms mgr_inv_Add [of "sv_manager s" rnd ev conn addr] Some
    by (simp add: ws_inv_def ServeHTTP_def case_prod_beta gm.get_put ran_map_upd)
qed (simp add: ServeHTTP_def assms(1))

lemma ws_inv_finish:
  assumes "ws_inv s" "r \<in> set (sv_pumps s)" "range_order (we_order ev)"
  shows "ws_inv (pump_end ev r s)"
proof -
  let ?m = "sv_manager s"
  have inv: "mgr_inv ?m" using assms(1) by (simp add: ws_inv_def)
  obtain cid where cid: "map_of (mg_clients ?m) cid = Some r" using assms(1,2) by (auto simp: ws_inv_def ran_def)
  then have *: "cl_ID (mg_heap ?m ! r) = cid" using mgr_invD(4) [OF inv] by blast
  have "c = cid" if "map_of (mg_clients ?m) c = Some r" for c
    using mgr_invD(4) [OF inv that] * by simp
  then have "ran ((map_of (mg_clients ?m))(cid := None)) = ran (map_of (mg_clients ?m)) - {r}" using ran_del [of "map_of (mg_clients ?m)"] cid by blast
  then show ?thesis
    using assms(1) mgr_inv_Remove [OF inv assms(3), of cid] *
      mgr_inv_cong [OF emit_fields(1-3)]
    by (simp add: ws_inv_def pump_end_def Let_def gm.get_del)
qed

lemma ws_inv_step:
  assumes "ws_inv s" "ws_step ev s s'" "range_order (we_order ev)"
  shows "ws_inv s'"
  using assms(2,1)
proof cases
  case (upgrade rnd upgraded addr)
  then show ?thesis using assms ws_inv_upgrade by blast
next
  case (finish r)
  then show ?thesis using assms ws_inv_finish by blast
qed (use assms in \<open>auto simp: ws_inv_def pump_message_def mgr_inv_Join mgr_inv_Leave
    mgr_inv_cong [OF HandleMessage_fields] mgr_inv_cong [OF message_fields(1-3)]
    mgr_inv_cong [OF message_fields(4-6)] mgr_inv_cong [OF message_fields(7-9)]\<close>)

lemma ws_inv_init: "ws_init fwd s \<Longrightarrow> ws_inv s"
  using mgr_inv_init [of fwd] by (simp add: ws_init_def NewHandler_def ws_inv_def NewManager_def)

interpretation wsinv: inductive_invariant
  "\<lambda>s. ws_init fwd s \<and> range_order (we_order ev)" "ws_step ev" "\<lambda>s. ws_inv s \<and> range_order (we_order ev)"
  by unfold_locales (use ws_inv_init ws_inv_step in blast)+

subsection \<open>An abstract specification\<close>

text \<open>What the manager promises: who is connected, and who is in which room.\<close>

record room_spec =
  rs_on :: "string set"
  rs_in :: "(string \<times> string) set"

definition spec_connect :: "string \<Rightarrow> room_spec \<Rightarrow> room_spec" where
  "spec_connect cid a = a\<lparr>rs_on := insert cid (rs_on a)\<rparr>"

definition spec_disconnect :: "string \<Rightarrow> room_spec \<Rightarrow> room_spec" where
  "spec_disconnect cid a = \<lparr>rs_on = rs_on a - {cid}, rs_in = {(room, c) \<in> rs_in a. c \<noteq> cid}\<rparr>"

definition spec_join :: "string \<Rightarrow> string \<Rightarrow> room_spec \<Rightarrow> room_spec" where
  "spec_join cid room a = (if cid \<in> rs_on a then a\<lparr>rs_in := insert (room, cid) (rs_in a)\<rparr> else a)"

definition spec_leave :: "string \<Rightarrow> string \<Rightarrow> room_spec \<Rightarrow> room_spec" where
  "spec_leave cid room a = a\<lparr>rs_in := rs_in a - {(room, cid)}\<rparr>"

definition abs_rooms :: "Manager \<Rightarrow> room_spec" where
  "abs_rooms m = \<lparr>rs_on = dom (map_of (mg_clients m)), rs_in = {(room, cid). mem (mg_rooms m) room cid \<noteq> None}\<rparr>"

lemma abs_Add: "abs_rooms (snd (AddConnection ev rnd conn addr m)) = spec_connect (generateConnID rnd) (abs_rooms m)"
  by (simp add: abs_rooms_def spec_connect_def gm.get_put)

lemma abs_Remove:
  assumes "mgr_inv m" "range_order (we_order ev)"
  shows "abs_rooms (RemoveConnection ev cid m) = spec_disconnect cid (abs_rooms m)"
proof -
  have inv: "mgr_inv (RemoveConnection ev cid m)" using assms by (rule mgr_inv_Remove)
  have no: "mem (mg_rooms (RemoveConnection ev cid m)) rm cid = None" for rm
    using mgr_invD(5) [OF inv, of rm cid] by (cases "mem (mg_rooms (RemoveConnection ev cid m)) rm cid") (auto simp: gm.get_del)
  have "mem (mg_rooms (RemoveConnection ev cid m)) rm c = mem (mg_rooms m) rm c" if "c \<noteq> cid" for rm c
    using that by (auto simp: RemoveConnection_def Let_def fold_remove_member split: option.splits)
  then have "mem (mg_rooms (RemoveConnection ev cid m)) rm c = (if c = cid then None else mem (mg_rooms m) rm c)" for rm c
    using no by simp
  then show ?thesis
    by (auto simp: abs_rooms_def spec_disconnect_def gm.get_del)
qed

lemma abs_Join: "abs_rooms (JoinRoom cid room m) = spec_join cid room (abs_rooms m)"
  by (auto simp: abs_rooms_def spec_join_def JoinRoom_def mem_add_member split: option.splits)

lemma abs_Leave:
  assumes "mgr_inv m"
  shows "abs_rooms (LeaveRoom cid room m) = spec_leave cid room (abs_rooms m)"
proof (cases "map_of (mg_clients m) cid")
  case None
  then have "mem (mg_rooms m) room cid = None"
    using mgr_invD(5) [OF assms, of room cid] by (cases "mem (mg_rooms m) room cid") auto
  then show ?thesis using None by (auto simp: abs_rooms_def spec_leave_def LeaveRoom_def)
qed (auto simp: abs_rooms_def spec_leave_def LeaveRoom_def mem_remove_member)

lemma abs_messages [simp]:
  "abs_rooms (BroadcastToRoom ev room data excl m) = abs_rooms m" "abs_rooms (Broadcast ev data excl m) = abs_rooms m"
  "abs_rooms (SendToClient cid data m) = abs_rooms m" "abs_rooms (HandleMessage ev r data m) = abs_rooms m"
  by (simp_all add: abs_rooms_def)

lemma reachable_ws:
  assumes "reachable (ws_init fwd) (ws_step ev) s" "range_order (we_order ev)"
  shows "ws_inv s" "mgr_inv (sv_manager s)"
proof -
  have "reachable (\<lambda>s. ws_init fwd s \<and> range_order (we_order ev)) (ws_step ev) s"
    using reachable_init_mono [OF _ assms(1), of "\<lambda>s. ws_init fwd s \<and> range_order (we_order ev)"] assms(2) by blast
  then show "ws_inv s" "mgr_inv (sv_manager s)" using wsinv.reachable_holds by (auto simp: ws_inv_def)
qed

lemma recipients_exact:
  assumes "mgr_inv m" "range_order (we_order ev)" "wf_map members"
    and "\<And>cid r. map_of members cid = Some r \<Longrightarrow> map_of (mg_clients m) cid = Some r"
  shows "distinct (recipients ev m members excl) \<and>
    set (recipients ev m members excl) = {r. \<exists>cid. map_of members cid = Some r \<and> cid \<noteq> excl}"
proof -
  have id: "cl_ID (mg_heap m ! r) = cid" if "map_of members cid = Some r" for cid r
    using assms(4) [OF that] mgr_invD(4) [OF assms(1)] by blast
  have "inj_on snd (set (range_map (we_order ev) members))"
    using id by (intro inj_onI) (metis range_map_set [OF assms(2,3)] prod.collapse)
  moreover have "distinct members" using assms(3) by (simp add: wf_map_def distinct_map)
  then have "distinct (range_map (we_order ev) members)"
    using range_map_mset [OF assms(2,3)] mset_eq_imp_distinct_iff by blast
  ultimately have "distinct (recipients ev m members excl)"
    by (simp add: recipients_def distinct_map)
  moreover have "snd ` set (range_map (we_order ev) members) = {r. \<exists>cid. map_of members cid = Some r}"
    using range_map_set [OF assms(2,3)] by force
  then have "set (recipients ev m members excl) = {r. \<exists>cid. map_of members cid = Some r \<and> cid \<noteq> excl}"
    by (auto simp: recipients_def id)
  ultimately show ?thesis by blast
qed

lemma BroadcastToRoom_exact:
  assumes "mgr_inv m" "range_order (we_order ev)"
  shows "\<exists>rs. distinct rs \<and> set rs = {r. \<exists>cid. mem (mg_rooms m) room cid = Some r \<and> cid \<noteq> excl} \<and>
    BroadcastToRoom ev room data excl m = m\<lparr>mg_trace := mg_trace m @ map (\<lambda>r. Wrote (cl_Conn (mg_heap m ! r)) data) rs\<rparr>"
proof -
  have folded: "fold (\<lambda>r. Send r data) rs m = m\<lparr>mg_trace := mg_trace m @ map (\<lambda>r. Wrote (cl_Conn (mg_heap m ! r)) data) rs\<rparr>" for rs
    by (rule Manager.equality) (simp_all add: sends_trace)
  show ?thesis
  proof (cases "map_of (mg_rooms m) room")
    case None
    then show ?thesis by (intro exI [of _ "[]"]) (simp add: mem_def BroadcastToRoom_def)
  next
    case (Some members)
    then have "wf_map members" using mgr_invD(2) [OF assms(1)] by (auto simp: rooms_wf_def)
    moreover have "mem (mg_rooms m) room cid = map_of members cid" for cid using Some by (simp add: mem_def)
    ultimately show ?thesis
      using recipients_exact [OF assms, of members excl] mgr_invD(5) [OF assms(1), of room] Some
      by (intro exI [of _ "recipients ev m members excl"]) (simp add: BroadcastToRoom_def folded)
  qed
qed

subsection \<open>Properties\<close>

text \<open>
  C24: The connection table and the rooms agree in every reachable state: a client is in a room's
  member map, under its own identifier, exactly when it is connected and the room is in its own set
  of rooms; no room is empty.
\<close>
theorem rooms_consistent:
  assumes "reachable (ws_init fwd) (ws_step ev) s" "range_order (we_order ev)"
  shows "(mem (mg_rooms (sv_manager s)) room cid = Some r \<longleftrightarrow>
      map_of (mg_clients (sv_manager s)) cid = Some r \<and> r < length (mg_heap (sv_manager s)) \<and>
      cl_ID (mg_heap (sv_manager s) ! r) = cid \<and> map_of (cl_Rooms (mg_heap (sv_manager s) ! r)) room \<noteq> None) \<and>
    map_of (mg_rooms (sv_manager s)) room \<noteq> Some []"
  using reachable_ws(2) [OF assms] by (auto simp: mgr_inv_def rooms_wf_def)


text \<open>
  C7: The manager implements the abstract rooms: in every reachable state a new connection, a
  disconnection, a join and a leave have exactly the effect of the specification on who is connected
  and who is in which room (a disconnected client leaves every room, an unknown client cannot join),
  and messages change neither.
\<close>
theorem manager_refines_rooms:
  assumes "reachable (ws_init fwd) (ws_step ev) s" "range_order (we_order ev)" "m = sv_manager s"
  shows "abs_rooms (snd (AddConnection ev rnd conn addr m)) = spec_connect (generateConnID rnd) (abs_rooms m) \<and>
    abs_rooms (RemoveConnection ev cid m) = spec_disconnect cid (abs_rooms m) \<and>
    abs_rooms (JoinRoom cid room m) = spec_join cid room (abs_rooms m) \<and>
    abs_rooms (LeaveRoom cid room m) = spec_leave cid room (abs_rooms m) \<and>
    abs_rooms (HandleMessage ev r data m) = abs_rooms m"
  using reachable_ws(2) [OF assms(1,2)] assms(2,3) by (simp add: abs_Add abs_Remove abs_Join abs_Leave)

text \<open>
  C25: A room broadcast writes the message exactly once to the connection of every member but the
  excluded one, to nobody else, whatever order the map iteration takes, and changes nothing else.
\<close>
theorem broadcast_reaches_members:
  assumes "reachable (ws_init fwd) (ws_step ev) s" "range_order (we_order ev)" "m = sv_manager s"
  shows "\<exists>rs. distinct rs \<and> set rs = {r. \<exists>cid. mem (mg_rooms m) room cid = Some r \<and> cid \<noteq> excl} \<and>
    BroadcastToRoom ev room data excl m = m\<lparr>mg_trace := mg_trace m @ map (\<lambda>r. Wrote (cl_Conn (mg_heap m ! r)) data) rs\<rparr>"
  using BroadcastToRoom_exact [OF _ assms(2)] reachable_ws(2) [OF assms(1,2)] assms(3) by simp

text \<open>
  A message is answered where PHP says. If PHP answers a client's message with stream data for a
  room, the message is forwarded once and then the data is written once to every member of that room,
  the sender included; with stream data for a connection, to that connection if it is connected.
\<close>
theorem reply_routed:
  assumes "reachable (ws_init fwd) (ws_step ev) s" "range_order (we_order ev)" "m = sv_manager s"
    and "mg_phpForward m = Some php"
    and "EncodeStreamData (we_marshal ev) 0
        \<lparr>sh_ConnectionID = cl_ID (mg_heap m ! r), sh_Event = ''message'', sh_Room = ''''\<rparr> message = Inr frame"
    and "php (mg_trace m) (Some frame) = Inr (Some reply)"
    and "EncodeStreamData (we_marshal ev) sid h data = Inr reply"
    and "\<forall>b. we_marshal ev h = Inr b \<longrightarrow> we_unmarshal ev b = Inr h"
  shows "\<exists>rs. distinct rs \<and>
    set rs = (if sh_Room h \<noteq> '''' then {r. \<exists>cid. mem (mg_rooms m) (sh_Room h) cid = Some r}
      else if sh_ConnectionID h \<noteq> '''' then {r. map_of (mg_clients m) (sh_ConnectionID h) = Some r} else {}) \<and>
    HandleMessage ev r message m =
      m\<lparr>mg_trace := mg_trace m @ Forwarded (Some frame) # map (\<lambda>r. Wrote (cl_Conn (mg_heap m ! r)) data) rs\<rparr>"
proof -
  let ?m = "emit (Forwarded (Some frame)) m"
  have inv: "mgr_inv m" using reachable_ws(2) [OF assms(1,2)] assms(3) by simp
  then have inv': "mgr_inv ?m" using mgr_inv_cong [OF emit_fields(1-3)] by simp
  have no: "mem (mg_rooms m) rm '''' = None" for rm
    using mgr_invD(5,6) [OF inv] by (cases "mem (mg_rooms m) rm ''''") auto
  have dec: "DecodeStreamData (we_unmarshal ev) reply = Inr (h, data)" "fr_Type reply = TypeStreamData"
    using strm.decode_encode [OF assms(7,8)] strm.encode_ok [OF assms(7)] by simp_all
  have hm: "HandleMessage ev r message m = (if sh_Room h \<noteq> '''' then BroadcastToRoom ev (sh_Room h) data '''' ?m
      else if sh_ConnectionID h \<noteq> '''' then SendToClient (sh_ConnectionID h) data ?m else ?m)"
    using assms(4-6) dec by (simp add: HandleMessage_def Let_def)
  show ?thesis
  proof (cases "sh_Room h = ''''")
    case False
    have "{r. \<exists>cid. mem (mg_rooms m) (sh_Room h) cid = Some r \<and> cid \<noteq> ''''} = {r. \<exists>cid. mem (mg_rooms m) (sh_Room h) cid = Some r}"
      using no by (auto intro: exI)
    then show ?thesis
      using BroadcastToRoom_exact [OF inv' assms(2), of "sh_Room h" "''''" data] False hm by (auto simp: emit_def)
  next
    case True
    then show ?thesis
      by (cases "map_of (mg_clients m) (sh_ConnectionID h)"; cases "sh_ConnectionID h = ''''")
        (auto simp: hm SendToClient_def Send_def emit_def intro: exI [of _ "[]"] exI [of _ "[x]" for x])
  qed
qed

subsection \<open>A concrete run\<close>

text \<open>Two clients, on connections 7 and 8, in one room; PHP answers every message with data for the room.\<close>

definition lobby :: StreamHeader where
  "lobby = \<lparr>sh_ConnectionID = '''', sh_Event = '''', sh_Room = ''lobby''\<rparr>"

definition demo_ws_env :: "unit ws_env" where
  "demo_ws_env = \<lparr>we_marshal = (\<lambda>_. Inr []), we_unmarshal = (\<lambda>_. Inr lobby), we_order = rev\<rparr>"

definition demo_reply :: Frame where
  "demo_reply = \<lparr>fr_Type = TypeStreamData, fr_Flags = 0, fr_StreamID = 0, fr_Headers = [], fr_Payload = [42]\<rparr>"

definition demo_php :: "event list \<Rightarrow> Frame option \<Rightarrow> string + Frame option" where
  "demo_php es f = Inr (Some demo_reply)"

definition demo_two :: ws_server where
  "demo_two = ServeHTTP demo_ws_env (Some 8) [2] ''b'' (ServeHTTP demo_ws_env (Some 7) [1] ''a''
     \<lparr>sv_manager = NewManager\<lparr>mg_phpForward := Some demo_php\<rparr>, sv_pumps = []\<rparr>)"

definition demo_ws :: ws_server where
  "demo_ws = (let s = demo_two\<lparr>sv_manager := JoinRoom (generateConnID [1]) ''lobby'' (sv_manager demo_two)\<rparr>
     in s\<lparr>sv_manager := JoinRoom (generateConnID [2]) ''lobby'' (sv_manager s)\<rparr>)"

lemma demo_ws_reachable: "reachable (ws_init (Some demo_php)) (ws_step demo_ws_env) demo_ws"
proof -
  let ?s = "\<lparr>sv_manager = NewManager\<lparr>mg_phpForward := Some demo_php\<rparr>, sv_pumps = []\<rparr>"
  have "reachable (ws_init (Some demo_php)) (ws_step demo_ws_env) (ServeHTTP demo_ws_env (Some 7) [1] ''a'' ?s)"
    by (rule reachable.next_state [OF reachable.start], simp add: ws_init_def NewHandler_def, rule ws_step.upgrade) (simp add: NewManager_def)
  moreover have "map_of (mg_clients (sv_manager (ServeHTTP demo_ws_env (Some 7) [1] ''a'' ?s))) (generateConnID [2]) = None"
    by code_simp
  ultimately have "reachable (ws_init (Some demo_php)) (ws_step demo_ws_env) demo_two"
    unfolding demo_two_def by (blast intro: reachable.next_state ws_step.upgrade)
  then show ?thesis
    unfolding demo_ws_def Let_def by (rule reachable.next_state [OF reachable.next_state]) (rule ws_step.join)+
qed

lemma demo_order: "range_order (we_order demo_ws_env)"
  by (simp add: range_order_def demo_ws_env_def)

theorem rooms_consistent_witness:
  "mem (mg_rooms (sv_manager demo_ws)) ''lobby'' (generateConnID [2]) = Some 1 \<and>
   map_of (mg_clients (sv_manager demo_ws)) (generateConnID [2]) = Some 1 \<and>
   map_of (mg_rooms (sv_manager demo_ws)) ''lobby'' \<noteq> Some []"
proof -
  have "mem (mg_rooms (sv_manager demo_ws)) ''lobby'' (generateConnID [2]) = Some 1" by code_simp
  then show ?thesis using rooms_consistent [OF demo_ws_reachable demo_order] by blast
qed


theorem manager_refines_rooms_witness:
  "(''lobby'', generateConnID [1]) \<in> rs_in (abs_rooms (sv_manager demo_ws)) \<and>
   (''lobby'', generateConnID [1]) \<notin> rs_in (abs_rooms (RemoveConnection demo_ws_env (generateConnID [1]) (sv_manager demo_ws)))"
proof -
  have "mem (mg_rooms (sv_manager demo_ws)) ''lobby'' (generateConnID [1]) \<noteq> None" by code_simp
  then show ?thesis
    using manager_refines_rooms [OF demo_ws_reachable demo_order refl]
    by (auto simp: abs_rooms_def spec_disconnect_def)
qed

theorem broadcast_reaches_members_witness:
  "\<exists>rs. distinct rs \<and> 1 \<in> set rs \<and> 0 \<notin> set rs \<and>
     mg_trace (BroadcastToRoom demo_ws_env ''lobby'' [5] (generateConnID [1]) (sv_manager demo_ws)) =
     mg_trace (sv_manager demo_ws) @ map (\<lambda>r. Wrote (cl_Conn (mg_heap (sv_manager demo_ws) ! r)) [5]) rs"
proof -
  have "mem (mg_rooms (sv_manager demo_ws)) ''lobby'' (generateConnID [2]) = Some 1 \<and> generateConnID [2] \<noteq> generateConnID [1] \<and>
    mem (mg_rooms (sv_manager demo_ws)) ''lobby'' (generateConnID [1]) = Some 0 \<and> cl_ID (mg_heap (sv_manager demo_ws) ! 0) = generateConnID [1]"
    by code_simp
  moreover obtain rs where rs: "distinct rs" "set rs = {r. \<exists>cid. mem (mg_rooms (sv_manager demo_ws)) ''lobby'' cid = Some r \<and> cid \<noteq> generateConnID [1]}"
    "mg_trace (BroadcastToRoom demo_ws_env ''lobby'' [5] (generateConnID [1]) (sv_manager demo_ws)) =
     mg_trace (sv_manager demo_ws) @ map (\<lambda>r. Wrote (cl_Conn (mg_heap (sv_manager demo_ws) ! r)) [5]) rs"
    using broadcast_reaches_members [OF demo_ws_reachable demo_order refl, of "''lobby''" "generateConnID [1]" "[5]"] by auto
  moreover have "cid = generateConnID [1]" if "mem (mg_rooms (sv_manager demo_ws)) ''lobby'' cid = Some 0" for cid
    using mgr_invD(4,5) [OF reachable_ws(2) [OF demo_ws_reachable demo_order]] that calculation(1) by metis
  ultimately show ?thesis by (intro exI [of _ rs]) auto
qed

theorem reply_routed_witness:
  "\<exists>rs frame. distinct rs \<and> set rs = {0, 1} \<and>
     mg_trace (HandleMessage demo_ws_env 0 [9] (sv_manager demo_ws)) = mg_trace (sv_manager demo_ws) @
       Forwarded (Some frame) # map (\<lambda>r. Wrote (cl_Conn (mg_heap (sv_manager demo_ws) ! r)) [42]) rs"
proof -
  let ?m = "sv_manager demo_ws"
  obtain frame where frame: "EncodeStreamData (we_marshal demo_ws_env) 0
      \<lparr>sh_ConnectionID = cl_ID (mg_heap ?m ! 0), sh_Event = ''message'', sh_Room = ''''\<rparr> [9] = Inr frame"
    by (simp add: encode_defs demo_ws_env_def)
  have php: "mg_phpForward ?m = Some demo_php"
    by (simp add: demo_ws_def demo_two_def Let_def JoinRoom_def ServeHTTP_def AddConnection_def NewManager_def upd_rooms_def
        split: option.splits)
  have rep: "EncodeStreamData (we_marshal demo_ws_env) 0 lobby [42] = Inr demo_reply"
    by (simp add: encode_defs demo_ws_env_def demo_reply_def)
  have room: "sh_Room lobby = ''lobby''" by (simp add: lobby_def)
  obtain rs where rs: "distinct rs" "set rs = {r. \<exists>cid. mem (mg_rooms ?m) ''lobby'' cid = Some r}"
    "mg_trace (HandleMessage demo_ws_env 0 [9] ?m) = mg_trace ?m @
       Forwarded (Some frame) # map (\<lambda>r. Wrote (cl_Conn (mg_heap ?m ! r)) [42]) rs"
    using reply_routed [OF demo_ws_reachable demo_order refl php frame _ rep] by (auto simp: demo_php_def demo_ws_env_def room)
  have "map_of (mg_rooms ?m) ''lobby'' = Some [(generateConnID [1], 0), (generateConnID [2], 1)]" by code_simp
  moreover have "generateConnID [1] \<noteq> generateConnID [2]" by code_simp
  ultimately have "{r. \<exists>cid. mem (mg_rooms ?m) ''lobby'' cid = Some r} = {0, 1}"
    by (auto simp: mem_def split: if_splits)
  then show ?thesis using rs by auto
qed

end
