(* ===== verification/Http.thy ===== *)
theory Http
  imports GoStrings GoMap
begin

text \<open>
  The part of \<^verbatim>\<open>net/http\<close> that the server package works on: header maps, requests, and the
  response writer of a connection with its rules (the header is sent once, an informational status
  is sent at once and does not count, a write without a header sends status 200, some responses have
  no body). A response writer is an interface value: a record of its operations over some state, so
  that the wrappers of the server package are functions from writers to writers. Content sniffing is
  not modelled: a response without a content type keeps none.
\<close>

subsection \<open>Headers\<close>

type_synonym header = "(string, string list) go_map"

definition token_char :: "char \<Rightarrow> bool" where
  "token_char c = (let n = of_char c :: nat in
     (97 \<le> n \<and> n \<le> 122) \<or> (65 \<le> n \<and> n \<le> 90) \<or> (48 \<le> n \<and> n \<le> 57) \<or>
     c \<in> set ''!#$%&*+-.^_|~'' \<or> n = 39 \<or> n = 96)"

fun canonical_from :: "bool \<Rightarrow> string \<Rightarrow> string" where
  "canonical_from up [] = []"
| "canonical_from up (c # s) =
     (if up then upper_char c else lower_char c) # canonical_from (c = CHR ''-'') s"

definition CanonicalHeaderKey :: "string \<Rightarrow> string" where
  "CanonicalHeaderKey k = (if list_all token_char k then canonical_from True k else k)"

definition Header_Values :: "header \<Rightarrow> string \<Rightarrow> string list" where
  "Header_Values h k = (case map_of h (CanonicalHeaderKey k) of None \<Rightarrow> [] | Some vs \<Rightarrow> vs)"

definition Header_Get :: "header \<Rightarrow> string \<Rightarrow> string" where
  "Header_Get h k = (case Header_Values h k of [] \<Rightarrow> [] | v # _ \<Rightarrow> v)"

definition Header_Set :: "string \<Rightarrow> string \<Rightarrow> header \<Rightarrow> header" where
  "Header_Set k v h = AList.update (CanonicalHeaderKey k) [v] h"

definition Header_Del :: "string \<Rightarrow> header \<Rightarrow> header" where
  "Header_Del k h = AList.delete (CanonicalHeaderKey k) h"

lemma Values_Set: "Header_Values (Header_Set k v h) k' =
    (if CanonicalHeaderKey k = CanonicalHeaderKey k' then [v] else Header_Values h k')"
  by (simp add: Header_Values_def Header_Set_def go_map_simps)

lemma Values_Del: "Header_Values (Header_Del k h) k' =
    (if CanonicalHeaderKey k = CanonicalHeaderKey k' then [] else Header_Values h k')"
  by (simp add: Header_Values_def Header_Del_def go_map_simps)

lemma Get_Set: "Header_Get (Header_Set k v h) k' =
    (if CanonicalHeaderKey k = CanonicalHeaderKey k' then v else Header_Get h k')"
  by (simp add: Header_Get_def Values_Set)

lemma Get_Del: "Header_Get (Header_Del k h) k' =
    (if CanonicalHeaderKey k = CanonicalHeaderKey k' then [] else Header_Get h k')"
  by (simp add: Header_Get_def Values_Del)

subsection \<open>Requests\<close>

record Request =
  hr_Method :: string
  hr_Path :: string
  hr_RawQuery :: string
  hr_Host :: string
  hr_RemoteAddr :: string
  hr_Header :: header
  hr_TLS :: bool
  hr_ProtoMajor :: int
  hr_Query :: "(string, string list) go_map"
  hr_PostForm :: "(string, string list) go_map"
  hr_Cookies :: "(string \<times> string) list"

subsection \<open>The response writer of a connection\<close>

record base =
  bs_header :: header
  bs_head :: bool
  bs_wroteHeader :: bool
  bs_status :: int
  bs_sent :: header
  bs_info :: "(int \<times> header) list"
  bs_body :: "byte list"

definition new_base :: "bool \<Rightarrow> base" where
  "new_base head = \<lparr>bs_header = [], bs_head = head, bs_wroteHeader = False, bs_status = 0, bs_sent = [],
     bs_info = [], bs_body = []\<rparr>"

definition base_WriteHeader :: "int \<Rightarrow> base \<Rightarrow> base" where
  "base_WriteHeader code s =
     (if bs_wroteHeader s then s
      else if 100 \<le> code \<and> code \<le> 199 \<and> code \<noteq> 101 then s\<lparr>bs_info := bs_info s @ [(code, bs_header s)]\<rparr>
      else s\<lparr>bs_wroteHeader := True, bs_status := code, bs_sent := bs_header s\<rparr>)"

definition bodyAllowedForStatus :: "int \<Rightarrow> bool" where
  "bodyAllowedForStatus status \<longleftrightarrow> \<not> (100 \<le> status \<and> status \<le> 199) \<and> status \<noteq> 204 \<and> status \<noteq> 304"

definition base_Write :: "byte list \<Rightarrow> base \<Rightarrow> nat \<times> base" where
  "base_Write b s =
     (let s = (if bs_wroteHeader s then s else base_WriteHeader 200 s)
      in if b = [] then (0, s)
         else if \<not> bodyAllowedForStatus (bs_status s) then (0, s)
         else if bs_head s then (length b, s)
         else (length b, s\<lparr>bs_body := bs_body s @ b\<rparr>))"

subsection \<open>The interface\<close>

record 's writer =
  w_Header :: "'s \<Rightarrow> header"
  w_setHeader :: "header \<Rightarrow> 's \<Rightarrow> 's"
  w_WriteHeader :: "int \<Rightarrow> 's \<Rightarrow> 's"
  w_Write :: "byte list \<Rightarrow> 's \<Rightarrow> nat \<times> 's"

definition base_writer :: "base writer" where
  "base_writer = \<lparr>w_Header = bs_header, w_setHeader = (\<lambda>h s. s\<lparr>bs_header := h\<rparr>),
     w_WriteHeader = base_WriteHeader, w_Write = base_Write\<rparr>"

definition header_set :: "'s writer \<Rightarrow> string \<Rightarrow> string \<Rightarrow> 's \<Rightarrow> 's" where
  "header_set W k v s = w_setHeader W (Header_Set k v (w_Header W s)) s"

definition header_del :: "'s writer \<Rightarrow> string \<Rightarrow> 's \<Rightarrow> 's" where
  "header_del W k s = w_setHeader W (Header_Del k (w_Header W s)) s"

definition header_get :: "'s writer \<Rightarrow> string \<Rightarrow> 's \<Rightarrow> string" where
  "header_get W k s = Header_Get (w_Header W s) k"

text \<open>A handler: whether it panicked, and the writer's state after it.\<close>

type_synonym 's handler = "Request \<Rightarrow> 's writer \<Rightarrow> 's \<Rightarrow> bool \<times> 's"

definition http_Error :: "'s writer \<Rightarrow> string \<Rightarrow> int \<Rightarrow> 's \<Rightarrow> 's" where
  "http_Error W msg code s =
     (let s = header_del W ''Content-Length'' s;
          s = header_set W ''Content-Type'' ''text/plain; charset=utf-8'' s;
          s = header_set W ''X-Content-Type-Options'' ''nosniff'' s;
          s = w_WriteHeader W code s
      in snd (w_Write W (bytes_of_string (msg @ [CHR 0x0A])) s))"

definition http_NotFound :: "'s writer \<Rightarrow> 's \<Rightarrow> 's" where
  "http_NotFound W s = http_Error W ''404 page not found'' 404 s"

text \<open>
  What the wrappers rely on: the header map can be replaced without any other effect, so that reading
  a header after setting it gives what was set.
\<close>

locale response_writer =
  fixes W :: "'s writer"
  assumes header_setHeader: "w_Header W (w_setHeader W h s) = h"
    and setHeader_setHeader: "w_setHeader W h' (w_setHeader W h s) = w_setHeader W h' s"
    and setHeader_same: "w_setHeader W (w_Header W s) s = s"
begin

lemma get_set: "header_get W k' (header_set W k v s) =
    (if CanonicalHeaderKey k = CanonicalHeaderKey k' then v else header_get W k' s)"
  by (simp add: header_get_def header_set_def header_setHeader Get_Set)

lemma get_del: "header_get W k' (header_del W k s) =
    (if CanonicalHeaderKey k = CanonicalHeaderKey k' then [] else header_get W k' s)"
  by (simp add: header_get_def header_del_def header_setHeader Get_Del)

lemma header_header_set [simp]: "w_Header W (header_set W k v s) = Header_Set k v (w_Header W s)"
  by (simp add: header_set_def header_setHeader)

lemma header_header_del [simp]: "w_Header W (header_del W k s) = Header_Del k (w_Header W s)"
  by (simp add: header_del_def header_setHeader)

end

text \<open>A writer that leaves the headers alone when it writes.\<close>

locale header_keeping_writer = response_writer +
  assumes header_WriteHeader: "w_Header W (w_WriteHeader W code s) = w_Header W s"
    and header_Write: "w_Header W (snd (w_Write W b s)) = w_Header W s"
begin

lemma header_http_Error: "w_Header W (http_Error W msg code s) =
    Header_Set ''X-Content-Type-Options'' ''nosniff'' (Header_Set ''Content-Type'' ''text/plain; charset=utf-8''
      (Header_Del ''Content-Length'' (w_Header W s)))"
  by (simp add: http_Error_def Let_def header_Write header_WriteHeader)

end

interpretation bw: header_keeping_writer base_writer
  by unfold_locales (simp_all add: base_writer_def base_WriteHeader_def base_Write_def Let_def)

end
