(* ===== verification/Middleware.thy ===== *)
theory Middleware
  imports Http
begin

text \<open>
  The middleware of \<^verbatim>\<open>internal/server\<close>: \<^verbatim>\<open>middleware.go\<close> (the logging response writer, the
  core middleware and its standalone parts), \<^verbatim>\<open>compress.go\<close>, \<^verbatim>\<open>earlyhints.go\<close> and the
  Alt-Svc part of \<^verbatim>\<open>http3.go\<close>. A middleware takes a handler over its wrapped writer to a handler
  over the writer it is given. A pool of reusable objects hands out a new one or one that an earlier
  request has put back, in whatever state it was left; which one is a parameter. Gzip is a parameter
  too, from the bytes written to the bytes of the compressed stream.
\<close>

subsection \<open>Pools of objects\<close>

definition sync_Get :: "'a \<Rightarrow> 'a option \<Rightarrow> 'a" where
  "sync_Get new pooled = (case pooled of None \<Rightarrow> new | Some x \<Rightarrow> x)"

subsection \<open>mabooResponseWriter\<close>

record rw =
  rw_statusCode :: int
  rw_bytesWritten :: int
  rw_wroteHeader :: bool
  rw_hintsSent :: bool

definition rwPool_New :: rw where
  "rwPool_New = \<lparr>rw_statusCode = 0, rw_bytesWritten = 0, rw_wroteHeader = False, rw_hintsSent = False\<rparr>"

definition rw_reset :: "rw \<Rightarrow> rw" where
  "rw_reset rw = rw\<lparr>rw_statusCode := 200, rw_bytesWritten := 0, rw_wroteHeader := False, rw_hintsSent := False\<rparr>"

text \<open>Whatever a writer was used for, \<open>reset\<close> leaves nothing of it.\<close>

definition rw_initial :: rw where
  "rw_initial = \<lparr>rw_statusCode = 200, rw_bytesWritten = 0, rw_wroteHeader = False, rw_hintsSent = False\<rparr>"

lemma rw_reset_initial [simp]: "rw_reset rw = rw_initial"
  by (simp add: rw_reset_def rw_initial_def)

definition is_hint :: "string \<Rightarrow> bool" where
  "is_hint link \<longleftrightarrow> Contains link ''rel=preload'' \<or> Contains link ''rel=preconnect''"

definition rw_hints :: "'s writer \<Rightarrow> rw \<times> 's \<Rightarrow> rw \<times> 's" where
  "rw_hints W = (\<lambda>(rw, s).
     if rw_hintsSent rw then (rw, s)
     else (rw\<lparr>rw_hintsSent := True\<rparr>,
       if list_ex is_hint (Header_Values (w_Header W s) ''Link'') then w_WriteHeader W 103 s else s))"

definition rw_WriteHeader :: "'s writer \<Rightarrow> int \<Rightarrow> rw \<times> 's \<Rightarrow> rw \<times> 's" where
  "rw_WriteHeader W code st =
     (let (rw, s) = rw_hints W st
      in if rw_wroteHeader rw then (rw, s)
         else (rw\<lparr>rw_wroteHeader := True, rw_statusCode := code\<rparr>, w_WriteHeader W code s))"

definition rw_Write :: "'s writer \<Rightarrow> byte list \<Rightarrow> rw \<times> 's \<Rightarrow> nat \<times> rw \<times> 's" where
  "rw_Write W b st =
     (let (rw, s) = st;
          rw = (if rw_wroteHeader rw then rw else rw\<lparr>rw_wroteHeader := True, rw_statusCode := 200\<rparr>);
          (n, s) = w_Write W b s
      in (n, rw\<lparr>rw_bytesWritten := rw_bytesWritten rw + int n\<rparr>, s))"

definition rw_writer :: "'s writer \<Rightarrow> (rw \<times> 's) writer" where
  "rw_writer W = \<lparr>w_Header = (\<lambda>(rw, s). w_Header W s), w_setHeader = (\<lambda>h (rw, s). (rw, w_setHeader W h s)),
     w_WriteHeader = rw_WriteHeader W, w_Write = rw_Write W\<rparr>"

subsection \<open>CoreMiddleware and its parts\<close>

text \<open>What a request gets from outside: random bytes, a buffer and a writer from the pools.\<close>

record core_env =
  ce_rnd :: "byte list"
  ce_buf :: "byte list option"
  ce_rw :: "rw option"

definition ridBufPool_New :: "byte list" where
  "ridBufPool_New = replicate 8 0"

text \<open>The random bytes overwrite the buffer, as many as there are.\<close>

definition fastRequestID :: "core_env \<Rightarrow> string" where
  "fastRequestID ce =
     (let b = sync_Get ridBufPool_New (ce_buf ce)
      in EncodeToString (take (length b) (ce_rnd ce) @ drop (length (ce_rnd ce)) b))"

definition request_id :: "core_env \<Rightarrow> Request \<Rightarrow> string \<times> Request" where
  "request_id ce r =
     (let i = Header_Get (hr_Header r) ''X-Request-ID''
      in if i = '''' then
           (let i = fastRequestID ce in (i, r\<lparr>hr_Header := Header_Set ''X-Request-ID'' i (hr_Header r)\<rparr>))
         else (i, r))"

definition RecoveryMiddleware :: "'s handler \<Rightarrow> 's handler" where
  "RecoveryMiddleware next r W s =
     (let (panicked, s) = next r W s
      in (False, if panicked then http_Error W ''Internal Server Error'' 500 s else s))"

definition RequestIDMiddleware :: "core_env \<Rightarrow> 's handler \<Rightarrow> 's handler" where
  "RequestIDMiddleware ce next r W s =
     (let (i, r) = request_id ce r in next r W (header_set W ''X-Request-ID'' i s))"

text \<open>What a request is logged with.\<close>

record log_entry =
  lg_method :: string
  lg_path :: string
  lg_status :: int
  lg_bytes :: int
  lg_remote_addr :: string
  lg_request_id :: string

definition log_request :: "Request \<Rightarrow> string \<Rightarrow> rw \<Rightarrow> log_entry" where
  "log_request r i rw = \<lparr>lg_method = hr_Method r, lg_path = hr_Path r, lg_status = rw_statusCode rw,
     lg_bytes = rw_bytesWritten rw, lg_remote_addr = hr_RemoteAddr r, lg_request_id = i\<rparr>"

definition logged :: "rw option \<Rightarrow> (rw \<times> 's) handler \<Rightarrow> Request \<Rightarrow> string \<Rightarrow> 's writer \<Rightarrow> 's \<Rightarrow> log_entry option \<times> bool \<times> 's" where
  "logged pooled next r i W s =
     (let (panicked, rw, s) = next r (rw_writer W) (rw_reset (sync_Get rwPool_New pooled), s)
      in (if panicked then None else Some (log_request r i rw), panicked, s))"

definition LoggingMiddleware :: "rw option \<Rightarrow> (rw \<times> 's) handler \<Rightarrow> Request \<Rightarrow> 's writer \<Rightarrow> 's \<Rightarrow> log_entry option \<times> bool \<times> 's" where
  "LoggingMiddleware pooled next r W s = logged pooled next r (Header_Get (hr_Header r) ''X-Request-ID'') W s"

definition core_run :: "core_env \<Rightarrow> (rw \<times> 's) handler \<Rightarrow> Request \<Rightarrow> 's writer \<Rightarrow> 's \<Rightarrow> log_entry option \<times> 's" where
  "core_run ce next r W s =
     (let (i, r) = request_id ce r;
          (log, panicked, s) = logged (ce_rw ce) next r i W (header_set W ''X-Request-ID'' i s)
      in (log, if panicked then http_Error W ''Internal Server Error'' 500 s else s))"

definition CoreMiddleware :: "core_env \<Rightarrow> (rw \<times> 's) handler \<Rightarrow> 's handler" where
  "CoreMiddleware ce next r W s = (False, snd (core_run ce next r W s))"

definition EarlyHintsMiddleware :: "'s handler \<Rightarrow> 's handler" where
  "EarlyHintsMiddleware next r W s = next r W s"

subsection \<open>CompressionMiddleware\<close>

record cw =
  cw_gz :: "byte list option"
  cw_buf :: "byte list"
  cw_wroteHeader :: bool
  cw_compressed :: bool
  cw_headerCode :: int

definition compressWriterPool_New :: cw where
  "compressWriterPool_New = \<lparr>cw_gz = None, cw_buf = [], cw_wroteHeader = False, cw_compressed = False, cw_headerCode = 0\<rparr>"

definition cw_reset :: "cw \<Rightarrow> cw" where
  "cw_reset cw = cw\<lparr>cw_gz := None, cw_buf := [], cw_wroteHeader := False, cw_compressed := False, cw_headerCode := 0\<rparr>"

definition cw_initial :: cw where
  "cw_initial = \<lparr>cw_gz = None, cw_buf = [], cw_wroteHeader = False, cw_compressed = False, cw_headerCode = 0\<rparr>"

lemma cw_reset_initial [simp]: "cw_reset cw = cw_initial"
  by (simp add: cw_reset_def cw_initial_def)

definition compressMinSize :: nat where
  "compressMinSize = 1024"

definition isCompressibleContentType :: "string \<Rightarrow> bool" where
  "isCompressibleContentType ct \<longleftrightarrow>
     (5 \<le> length ct \<and> (HasPrefix ct ''text/'' \<or> HasPrefix ct ''Text/'' \<or> HasPrefix ct ''TEXT/'')) \<or>
     Contains ct ''application/json'' \<or> Contains ct ''application/javascript'' \<or> Contains ct ''application/xml'' \<or>
     Contains ct ''application/xhtml'' \<or> Contains ct ''image/svg+xml''"

definition shouldCompress :: "'s writer \<Rightarrow> 's \<Rightarrow> bool" where
  "shouldCompress W s =
     (let ct = header_get W ''Content-Type'' s
      in if ct = '''' then False
         else if header_get W ''Content-Encoding'' s \<noteq> '''' then False
         else isCompressibleContentType ct)"

definition startCompress :: "'s writer \<Rightarrow> cw \<times> 's \<Rightarrow> cw \<times> 's" where
  "startCompress W = (\<lambda>(cw, s).
     (cw\<lparr>cw_compressed := True, cw_gz := Some []\<rparr>,
      header_del W ''Content-Length'' (header_set W ''Vary'' ''Accept-Encoding'' (header_set W ''Content-Encoding'' ''gzip'' s))))"

definition cw_WriteHeader :: "'s writer \<Rightarrow> int \<Rightarrow> cw \<times> 's \<Rightarrow> cw \<times> 's" where
  "cw_WriteHeader W code = (\<lambda>(cw, s).
     if cw_wroteHeader cw then (cw, s)
     else
       let cw = cw\<lparr>cw_headerCode := code, cw_wroteHeader := True\<rparr>;
           (cw, s) = (if compressMinSize \<le> length (cw_buf cw) \<and> shouldCompress W s then startCompress W (cw, s) else (cw, s))
       in (cw, w_WriteHeader W code s))"

definition gz_write :: "byte list \<Rightarrow> cw \<Rightarrow> nat \<times> cw" where
  "gz_write b cw = (length b, cw\<lparr>cw_gz := map_option (\<lambda>g. g @ b) (cw_gz cw)\<rparr>)"

definition cw_Write :: "'s writer \<Rightarrow> byte list \<Rightarrow> cw \<times> 's \<Rightarrow> nat \<times> cw \<times> 's" where
  "cw_Write W b = (\<lambda>(cw, s).
     if cw_compressed cw then (let (n, cw) = gz_write b cw in (n, cw, s))
     else
       let cw = cw\<lparr>cw_buf := cw_buf cw @ b\<rparr>
       in if compressMinSize \<le> length (cw_buf cw) \<and> \<not> cw_wroteHeader cw \<and> shouldCompress W s then
            (let (cw, s) = startCompress W (cw, s);
                 cw = cw\<lparr>cw_wroteHeader := True\<rparr>;
                 s = w_WriteHeader W 200 s;
                 (n, cw) = gz_write (cw_buf cw) cw
             in (if n > length b then length b else n, cw, s))
          else (length b, cw, s))"

definition cw_Close :: "(byte list \<Rightarrow> byte list) \<Rightarrow> 's writer \<Rightarrow> cw \<times> 's \<Rightarrow> 's" where
  "cw_Close gzip W = (\<lambda>(cw, s).
     case (cw_compressed cw, cw_gz cw) of
       (True, Some g) \<Rightarrow> snd (w_Write W (gzip g) s)
     | _ \<Rightarrow>
         if cw_buf cw \<noteq> [] then
           snd (w_Write W (cw_buf cw) (if cw_wroteHeader cw then s else w_WriteHeader W 200 s))
         else s)"

definition cw_writer :: "'s writer \<Rightarrow> (cw \<times> 's) writer" where
  "cw_writer W = \<lparr>w_Header = (\<lambda>(cw, s). w_Header W s), w_setHeader = (\<lambda>h (cw, s). (cw, w_setHeader W h s)),
     w_WriteHeader = cw_WriteHeader W, w_Write = cw_Write W\<rparr>"

text \<open>
  The plain handler runs when the client does not accept gzip, the wrapped one otherwise; they are
  the same handler over two writers. The deferred \<open>Close\<close> also runs when the handler panics.
\<close>

record gzip_env =
  gz_compress :: "byte list \<Rightarrow> byte list"
  gz_pooled :: "cw option"

definition CompressionMiddleware :: "gzip_env \<Rightarrow> 's handler \<Rightarrow> (cw \<times> 's) handler \<Rightarrow> 's handler" where
  "CompressionMiddleware ge plain next r W s =
     (if \<not> Contains (Header_Get (hr_Header r) ''Accept-Encoding'') ''gzip'' then plain r W s
      else let (panicked, st) = next r (cw_writer W) (cw_reset (sync_Get compressWriterPool_New (gz_pooled ge)), s)
           in (panicked, cw_Close (gz_compress ge) W st))"

subsection \<open>Alt-Svc\<close>

definition AltSvcHeader :: "int \<Rightarrow> string" where
  "AltSvcHeader port = ''h3=\":'' @ show_int port @ ''\"; ma=86400''"

definition AltSvcMiddleware :: "int \<Rightarrow> 's handler \<Rightarrow> 's handler" where
  "AltSvcMiddleware port next r W s = next r W (header_set W ''Alt-Svc'' (AltSvcHeader port) s)"

subsection \<open>The writers meet their interface\<close>

lemma rw_response_writer: "response_writer W \<Longrightarrow> response_writer (rw_writer W)"
  unfolding response_writer_def by (auto simp: rw_writer_def)

lemma cw_response_writer: "response_writer W \<Longrightarrow> response_writer (cw_writer W)"
  unfolding response_writer_def by (auto simp: cw_writer_def)

end
