(* ===== verification/Metrics.thy ===== *)
theory Metrics
  imports Middleware EmbPool
begin

text \<open>
  \<^verbatim>\<open>internal/server/metrics.go\<close>: the counters, the middleware that updates them around a request,
  and the page it serves. Durations are nanoseconds; the source compares seconds as floats with the
  bucket bounds, which for these bounds is the comparison of nanoseconds. The counters live in the
  state the writers act on; \<open>metrics_lens\<close> says where. What the runtime reports (goroutines, memory),
  the formatting of a float and the order of iteration over a map are in \<open>metrics_env\<close>.
\<close>

record Metrics =
  mt_totalRequests :: "(string, int64) go_map"
  mt_activeRequests :: "32 word"
  mt_totalBytes :: int64
  mt_durationCounts :: "(string, int64) go_map"
  mt_durationSum :: int64
  mt_durationCount :: int64

definition NewMetrics :: Metrics where
  "NewMetrics = \<lparr>mt_totalRequests = [], mt_activeRequests = 0, mt_totalBytes = 0, mt_durationCounts = [],
     mt_durationSum = 0, mt_durationCount = 0\<rparr>"

definition durationBuckets :: "(int \<times> string) list" where
  "durationBuckets = [(5000000, ''0.005''), (10000000, ''0.010''), (25000000, ''0.025''), (50000000, ''0.050''),
     (100000000, ''0.100''), (250000000, ''0.250''), (500000000, ''0.500''), (1000000000, ''1.000''),
     (2500000000, ''2.500''), (5000000000, ''5.000''), (10000000000, ''10.000'')]"

definition load :: "'k \<Rightarrow> ('k, int64) go_map \<Rightarrow> int64" where
  "load k m = (case map_of m k of None \<Rightarrow> 0 | Some c \<Rightarrow> c)"

definition bump :: "'k \<Rightarrow> ('k, int64) go_map \<Rightarrow> ('k, int64) go_map" where
  "bump k m = AList.update k (load k m + 1) m"

definition request_key :: "string \<Rightarrow> int \<Rightarrow> string" where
  "request_key method status = method @ '':'' @ show_int status"

definition observe :: "string \<Rightarrow> int \<Rightarrow> int \<Rightarrow> int \<Rightarrow> Metrics \<Rightarrow> Metrics" where
  "observe method status bytes duration m =
     m\<lparr>mt_totalRequests := bump (request_key method status) (mt_totalRequests m),
       mt_totalBytes := mt_totalBytes m + of_int bytes,
       mt_durationSum := mt_durationSum m + of_int duration,
       mt_durationCount := mt_durationCount m + 1,
       mt_durationCounts := fold (\<lambda>(bound, bkey). if duration \<le> bound then bump bkey else id)
         durationBuckets (mt_durationCounts m)\<rparr>"

subsection \<open>metricsResponseWriter\<close>

record mw =
  mw_statusCode :: int
  mw_bytesWritten :: int

definition mw_WriteHeader :: "'s writer \<Rightarrow> int \<Rightarrow> mw \<times> 's \<Rightarrow> mw \<times> 's" where
  "mw_WriteHeader W code = (\<lambda>(mw, s). (mw\<lparr>mw_statusCode := code\<rparr>, w_WriteHeader W code s))"

definition mw_Write :: "'s writer \<Rightarrow> byte list \<Rightarrow> mw \<times> 's \<Rightarrow> nat \<times> mw \<times> 's" where
  "mw_Write W b = (\<lambda>(mw, s). let (n, s) = w_Write W b s in (n, mw\<lparr>mw_bytesWritten := mw_bytesWritten mw + int n\<rparr>, s))"

definition mw_writer :: "'s writer \<Rightarrow> (mw \<times> 's) writer" where
  "mw_writer W = \<lparr>w_Header = (\<lambda>(mw, s). w_Header W s), w_setHeader = (\<lambda>h (mw, s). (mw, w_setHeader W h s)),
     w_WriteHeader = mw_WriteHeader W, w_Write = mw_Write W\<rparr>"

lemma mw_response_writer: "response_writer W \<Longrightarrow> response_writer (mw_writer W)"
  unfolding response_writer_def by (auto simp: mw_writer_def)

subsection \<open>The page\<close>

record metrics_env =
  me_order :: "string list \<Rightarrow> string list"
  me_fmt6 :: "int \<Rightarrow> string"
  me_goroutines :: int
  me_alloc :: int
  me_pool :: "PoolStats option"

definition nl :: string where "nl = [CHR 0x0A]"

definition family :: "string \<Rightarrow> string \<Rightarrow> string \<Rightarrow> string" where
  "family name help kind = ''# HELP '' @ name @ '' '' @ help @ nl @ ''# TYPE '' @ name @ '' '' @ kind @ nl"

definition sample :: "string \<Rightarrow> int \<Rightarrow> string" where
  "sample name v = name @ '' '' @ show_int v @ nl"

text \<open>\<^verbatim>\<open>strings.SplitN(key, ":", 2)\<close>: the parts before and after the first colon.\<close>

definition split_key :: "string \<Rightarrow> string \<times> string" where
  "split_key key = (takeWhile (\<lambda>c. c \<noteq> CHR '':'') key, tl (dropWhile (\<lambda>c. c \<noteq> CHR '':'') key))"

definition request_line :: "string \<times> int64 \<Rightarrow> string" where
  "request_line kv =
     (let (method, status) = split_key (fst kv)
      in sample (''maboo_http_requests_total{method=\"'' @ method @ ''\",status=\"'' @ status @ ''\"}'') (sint (snd kv)))"

fun bucket_values :: "int64 \<Rightarrow> (int \<times> string) list \<Rightarrow> (string, int64) go_map \<Rightarrow> (string \<times> int64) list" where
  "bucket_values cumulative [] counts = []"
| "bucket_values cumulative ((bound, bkey) # bs) counts =
     (let cumulative = (case map_of counts bkey of None \<Rightarrow> cumulative | Some c \<Rightarrow> cumulative + c)
      in (bkey, cumulative) # bucket_values cumulative bs counts)"

definition bucket_line :: "string \<times> int64 \<Rightarrow> string" where
  "bucket_line kv = sample (''maboo_http_request_duration_seconds_bucket{le=\"'' @ fst kv @ ''\"}'') (sint (snd kv))"

definition pool_lines :: "PoolStats \<Rightarrow> string" where
  "pool_lines st =
     family ''maboo_workers_total'' ''Total number of PHP workers.'' ''gauge'' @
     sample ''maboo_workers_total'' (ps_totalWorkers st) @
     family ''maboo_workers_busy'' ''Number of busy PHP workers.'' ''gauge'' @
     sample ''maboo_workers_busy'' (ps_busyWorkers st) @
     family ''maboo_workers_idle'' ''Number of idle PHP workers.'' ''gauge'' @
     sample ''maboo_workers_idle'' (ps_idleWorkers st) @
     family ''maboo_pool_requests_total'' ''Total requests processed by worker pool.'' ''counter'' @
     sample ''maboo_pool_requests_total'' (ps_totalRequests st)"

definition metrics_page :: "metrics_env \<Rightarrow> Metrics \<Rightarrow> string" where
  "metrics_page me m =
     family ''maboo_http_requests_total'' ''Total number of HTTP requests.'' ''counter'' @
     concat (map request_line (range_map (me_order me) (mt_totalRequests m))) @
     family ''maboo_http_requests_active'' ''Current number of active HTTP requests.'' ''gauge'' @
     sample ''maboo_http_requests_active'' (sint (mt_activeRequests m)) @
     family ''maboo_http_response_bytes_total'' ''Total bytes sent in HTTP responses.'' ''counter'' @
     sample ''maboo_http_response_bytes_total'' (sint (mt_totalBytes m)) @
     family ''maboo_http_request_duration_seconds'' ''HTTP request duration in seconds.'' ''histogram'' @
     concat (map bucket_line (bucket_values 0 durationBuckets (mt_durationCounts m))) @
     sample ''maboo_http_request_duration_seconds_bucket{le=\"+Inf\"}'' (sint (mt_durationCount m)) @
     ''maboo_http_request_duration_seconds_sum '' @ me_fmt6 me (sint (mt_durationSum m)) @ nl @
     sample ''maboo_http_request_duration_seconds_count'' (sint (mt_durationCount m)) @
     (case me_pool me of None \<Rightarrow> [] | Some st \<Rightarrow> pool_lines st) @
     family ''maboo_go_goroutines'' ''Number of goroutines.'' ''gauge'' @
     sample ''maboo_go_goroutines'' (me_goroutines me) @
     family ''maboo_go_memstats_alloc_bytes'' ''Number of bytes allocated.'' ''gauge'' @
     sample ''maboo_go_memstats_alloc_bytes'' (me_alloc me)"

definition serveMetrics :: "metrics_env \<Rightarrow> Metrics \<Rightarrow> 's writer \<Rightarrow> 's \<Rightarrow> 's" where
  "serveMetrics me m W s =
     (let s = header_set W ''Content-Type'' ''text/plain; version=0.0.4; charset=utf-8'' s
      in snd (w_Write W (bytes_of_string (metrics_page me m)) s))"

subsection \<open>The middleware\<close>

record 's metrics_lens =
  ml_get :: "'s \<Rightarrow> Metrics"
  ml_upd :: "(Metrics \<Rightarrow> Metrics) \<Rightarrow> 's \<Rightarrow> 's"

definition add_active :: "32 word \<Rightarrow> Metrics \<Rightarrow> Metrics" where
  "add_active d m = m\<lparr>mt_activeRequests := mt_activeRequests m + d\<rparr>"

definition Metrics_Middleware :: "'s metrics_lens \<Rightarrow> metrics_env \<Rightarrow> string \<Rightarrow> int \<Rightarrow> (mw \<times> 's) handler \<Rightarrow> 's handler" where
  "Metrics_Middleware ml me metricsPath duration next r W s =
     (if hr_Path r = metricsPath then (False, serveMetrics me (ml_get ml s) W s)
      else
        let s = ml_upd ml (add_active 1) s;
            (panicked, mw, s) = next r (mw_writer W) (\<lparr>mw_statusCode = 200, mw_bytesWritten = 0\<rparr>, s);
            s = (if panicked then s
                 else ml_upd ml (observe (hr_Method r) (mw_statusCode mw) (mw_bytesWritten mw) duration) s)
        in (panicked, ml_upd ml (add_active (- 1)) s))"

subsection \<open>Properties\<close>

lemma load_bump: "load x (bump k m) = load x m + (if x = k then 1 else 0)"
  by (simp add: load_def bump_def gm.get_put)

fun observe_all :: "(string \<times> int \<times> int \<times> int) list \<Rightarrow> Metrics \<Rightarrow> Metrics" where
  "observe_all [] m = m"
| "observe_all ((method, status, bytes, duration) # os) m = observe_all os (observe method status bytes duration m)"

lemma load_observe_total:
  "load k (mt_totalRequests (observe method status bytes duration m)) =
     load k (mt_totalRequests m) + (if k = request_key method status then 1 else 0)"
  by (simp add: observe_def load_bump)

lemma load_fold_bump:
  "load k (fold (\<lambda>(bound, bkey). if d \<le> bound then bump bkey else id) bs m) =
     load k m + of_nat (length (filter (\<lambda>(bound, bkey). bkey = k \<and> d \<le> bound) bs))"
proof (induction bs arbitrary: m)
  case (Cons b bs)
  then show ?case by (cases "d \<le> fst b") (auto simp: load_bump split: prod.splits)
qed simp

lemma filter_key_distinct:
  assumes "distinct (map snd bs)" "(bound, bkey) \<in> set bs"
  shows "length (filter (\<lambda>(b, k). k = bkey \<and> d \<le> b) bs) = (if d \<le> bound then 1 else (0::nat))"
  using assms
proof (induction bs)
  case (Cons b bs)
  have none: "filter (\<lambda>(b, k). k = bkey \<and> d \<le> b) xs = []" if "bkey \<notin> snd ` set xs" for xs
    using that by (force simp: filter_empty_conv)
  show ?case
  proof (cases "b = (bound, bkey)")
    case True
    then show ?thesis using Cons.prems(1) none [of bs] by auto
  next
    case False
    then have "(bound, bkey) \<in> set bs" using Cons.prems(2) by auto
    moreover from this have "snd b \<noteq> bkey" using Cons.prems(1) by (force simp: image_iff)
    ultimately show ?thesis using Cons.IH Cons.prems(1) by (auto split: prod.splits)
  qed
qed simp

lemma bucket_unique:
  "(bound, bkey) \<in> set durationBuckets \<Longrightarrow>
   length (filter (\<lambda>(b, k). k = bkey \<and> d \<le> b) durationBuckets) = (if d \<le> bound then 1 else (0::nat))"
  by (rule filter_key_distinct) (simp add: durationBuckets_def)

lemma load_observe_bucket:
  assumes "(bound, bkey) \<in> set durationBuckets"
  shows "load bkey (mt_durationCounts (observe method status bytes d m)) =
    load bkey (mt_durationCounts m) + (if d \<le> bound then 1 else 0)"
  using bucket_unique [OF assms] by (simp add: observe_def load_fold_bump)

lemma observe_all_total:
  "load k (mt_totalRequests (observe_all os m)) = load k (mt_totalRequests m) +
     of_nat (length (filter (\<lambda>(method, status, _). request_key method status = k) os))"
  by (induction os m rule: observe_all.induct) (auto simp: load_observe_total)

lemma observe_all_bucket:
  "(bound, bkey) \<in> set durationBuckets \<Longrightarrow>
   load bkey (mt_durationCounts (observe_all os m)) = load bkey (mt_durationCounts m) +
     of_nat (length (filter (\<lambda>(_, _, _, d). d \<le> bound) os))"
  by (induction os m rule: observe_all.induct) (auto simp: load_observe_bucket)

lemma observe_all_sums:
  "mt_durationCount (observe_all os m) = mt_durationCount m + of_nat (length os)"
  "mt_totalBytes (observe_all os m) = mt_totalBytes m + of_int (sum_list (map (\<lambda>(_, _, b, _). b) os))"
  by (induction os m rule: observe_all.induct) (simp_all add: observe_def)

lemma bucket_values_sum:
  "bucket_values c bs counts =
     map (\<lambda>i. (snd (bs ! i), c + sum_list (map (\<lambda>(_, k). load k counts) (take (Suc i) bs)))) [0 ..< length bs]"
proof (induction c bs counts rule: bucket_values.induct)
  case (2 cumulative bound bkey bs counts)
  let ?c = "case map_of counts bkey of None \<Rightarrow> cumulative | Some c \<Rightarrow> cumulative + c"
  have c: "?c = cumulative + load bkey counts" by (simp add: load_def split: option.splits)
  have "bucket_values ?c bs counts =
      map (\<lambda>i. (snd (bs ! i), ?c + sum_list (map (\<lambda>(_, k). load k counts) (take (Suc i) bs)))) [0 ..< length bs]"
    using 2 by simp
  then show ?case
    by (simp add: Let_def c upt_conv_Cons map_Suc_upt [symmetric] comp_def add.assoc del: upt_Suc take_Suc_Cons)
      (simp add: take_Suc_Cons)
qed simp

lemma bucket_count:
  assumes "(bound, k) \<in> set durationBuckets"
  shows "load k (mt_durationCounts (observe_all os NewMetrics)) = of_nat (length (filter (\<lambda>(_, _, _, d). d \<le> bound) os))"
  using observe_all_bucket [OF assms, of os NewMetrics] by (simp add: NewMetrics_def load_def)


text \<open>
  The histogram page sums the buckets twice. The stored counters are already cumulative (the
  number of requests within each bound), and the page adds them up again, so that the value printed
  for a bucket is the sum of the counts of all bounds up to it, not the count of its own bound.
\<close>
theorem histogram_sums_twice:
  "bucket_values 0 durationBuckets (mt_durationCounts (observe_all os NewMetrics)) =
     map (\<lambda>i. (snd (durationBuckets ! i),
        sum_list (map (\<lambda>(bound, _). of_nat (length (filter (\<lambda>(_, _, _, d). d \<le> bound) os))) (take (Suc i) durationBuckets))))
       [0 ..< length durationBuckets]"
proof -
  let ?m = "mt_durationCounts (observe_all os NewMetrics)"
  have "sum_list (map (\<lambda>(_, k). load k ?m) (take n durationBuckets)) =
      sum_list (map (\<lambda>(bound, _). of_nat (length (filter (\<lambda>(_, _, _, d). d \<le> bound) os))) (take n durationBuckets))" for n
    by (rule arg_cong [of _ _ sum_list], rule map_cong [OF refl]) (auto dest: in_set_takeD simp: bucket_count)
  then show ?thesis unfolding bucket_values_sum by (simp only: add_0)
qed

end
