(* ===== verification/Context.thy ===== *)
theory Context
  imports Http PhpEngine
begin

text \<open>
  The PHP superglobals of a request (\<^verbatim>\<open>internal/phpengine/context.go\<close>). Go maps are association
  lists and the order in which the source ranges over the request's headers, query and form is a
  parameter. Indexing an empty list of values panics in Go, so the result is \<open>None\<close> then.
\<close>

record File =
  fi_Name :: string
  fi_Type :: string
  fi_Size :: int
  fi_TempName :: string

record Context =
  cx_Server :: "(string, string) go_map"
  cx_Get :: "(string, string) go_map"
  cx_Post :: "(string, string) go_map"
  cx_Cookies :: "(string, string) go_map"
  cx_Files :: "(string, File) go_map"
  cx_Env :: "(string, string) go_map"
  cx_ScriptFilename :: string
  cx_DocumentRoot :: string

text \<open>\<^verbatim>\<open>strings.ToUpper\<close> and \<^verbatim>\<open>ReplaceAll\<close> of one character, on header names, which are ASCII.\<close>

definition ToUpper :: "string \<Rightarrow> string" where
  "ToUpper = map upper_char"

definition http_key :: "string \<Rightarrow> string" where
  "http_key key = ''HTTP_'' @ ToUpper (ReplaceAll key ''-'' ''_'')"

definition assign_first :: "(string \<Rightarrow> string option) \<Rightarrow> string \<times> string list \<Rightarrow> (string, string) go_map \<Rightarrow> (string, string) go_map option" where
  "assign_first name kv m =
     (case name (fst kv) of
        None \<Rightarrow> Some m
      | Some k \<Rightarrow> (case snd kv of [] \<Rightarrow> None | v # _ \<Rightarrow> Some (AList.update k v m)))"

fun assign_all :: "(string \<Rightarrow> string option) \<Rightarrow> (string \<times> string list) list \<Rightarrow> (string, string) go_map \<Rightarrow> (string, string) go_map option" where
  "assign_all name [] m = Some m"
| "assign_all name (kv # kvs) m = (case assign_first name kv m of None \<Rightarrow> None | Some m \<Rightarrow> assign_all name kvs m)"

definition header_name :: "string \<Rightarrow> string option" where
  "header_name key = (let k = http_key key in
     if k \<noteq> ''HTTP_CONTENT_TYPE'' \<and> k \<noteq> ''HTTP_CONTENT_LENGTH'' then Some k else None)"

definition cgi_vars :: "Request \<Rightarrow> string \<Rightarrow> string \<Rightarrow> (string \<times> string) list" where
  "cgi_vars req docRoot entryPoint =
    [(''REQUEST_METHOD'', hr_Method req),
     (''REQUEST_URI'', hr_Path req),
     (''QUERY_STRING'', hr_RawQuery req),
     (''SERVER_PROTOCOL'', ''HTTP/1.1''),
     (''SERVER_NAME'', hr_Host req),
     (''DOCUMENT_ROOT'', docRoot),
     (''SCRIPT_NAME'', ''/'' @ entryPoint),
     (''SCRIPT_FILENAME'', Join [docRoot, entryPoint]),
     (''PHP_SELF'', ''/'' @ entryPoint),
     (''REMOTE_ADDR'', hd (split_at (CHR '':'') (hr_RemoteAddr req))),
     (''CONTENT_TYPE'', Header_Get (hr_Header req) ''Content-Type''),
     (''CONTENT_LENGTH'', Header_Get (hr_Header req) ''Content-Length'')]
    @ (if hr_TLS req then [(''HTTPS'', ''on'')] else [])"

definition NewContext :: "(string list \<Rightarrow> string list) \<Rightarrow> Request \<Rightarrow> string \<Rightarrow> string \<Rightarrow> Context option" where
  "NewContext order req docRoot entryPoint =
     (let server = fold (\<lambda>(k, v). AList.update k v) (cgi_vars req docRoot entryPoint) []
      in case assign_all header_name (range_map order (hr_Header req)) server of
           None \<Rightarrow> None
         | Some server \<Rightarrow>
         (case assign_all Some (range_map order (hr_Query req)) [] of
            None \<Rightarrow> None
          | Some get \<Rightarrow>
          (case (if hr_Method req = ''POST'' then assign_all Some (range_map order (hr_PostForm req)) [] else Some []) of
             None \<Rightarrow> None
           | Some post \<Rightarrow>
               Some \<lparr>cx_Server = server, cx_Get = get, cx_Post = post,
                 cx_Cookies = fold (\<lambda>(k, v). AList.update k v) (hr_Cookies req) [],
                 cx_Files = [], cx_Env = [], cx_ScriptFilename = Join [docRoot, entryPoint],
                 cx_DocumentRoot = docRoot\<rparr>)))"

subsection \<open>Lemmas\<close>

lemma assign_all_other:
  assumes "assign_all name kvs m = Some m'" "\<And>k. k \<in> fst ` set kvs \<Longrightarrow> name k \<noteq> Some x"
  shows "map_of m' x = map_of m x"
  using assms
proof (induction kvs arbitrary: m)
  case (Cons kv kvs)
  then obtain m1 where m1: "assign_first name kv m = Some m1" "assign_all name kvs m1 = Some m'"
    by (auto split: option.splits)
  have "map_of m1 x = map_of m x"
    using m1(1) Cons.prems(2) [of "fst kv"]
    by (auto simp: assign_first_def gm.get_put split: option.splits list.splits)
  then show ?case using Cons.IH [OF m1(2)] Cons.prems(2) by simp
qed simp

lemma header_name_prefix: "header_name key = Some k \<Longrightarrow> \<exists>s. k = ''HTTP_'' @ s"
  by (auto simp: header_name_def http_key_def Let_def split: if_splits)

lemma assign_all_some:
  assumes "\<forall>kv \<in> set kvs. snd kv \<noteq> []"
  shows "\<exists>m'. assign_all name kvs m = Some m'"
  using assms
proof (induction kvs arbitrary: m)
  case (Cons kv kvs)
  then show ?case by (cases "snd kv") (auto simp: assign_first_def split: option.splits)
qed simp

lemma assign_all_unique:
  assumes "assign_all name kvs m = Some m'" "distinct (map fst kvs)" "(key, v # vs) \<in> set kvs" "name key = Some x"
    and "\<And>k. k \<in> fst ` set kvs \<Longrightarrow> name k = Some x \<Longrightarrow> k = key"
  shows "map_of m' x = Some v"
  using assms
proof (induction kvs arbitrary: m)
  case (Cons kv kvs)
  then obtain m1 where m1: "assign_first name kv m = Some m1" "assign_all name kvs m1 = Some m'"
    by (auto split: option.splits)
  have un: "k = key" if "k \<in> fst ` set kvs" "name k = Some x" for k
    using Cons.prems(5) that by simp
  show ?case
  proof (cases "fst kv = key")
    case True
    then have no: "key \<notin> fst ` set kvs" using Cons.prems(2) by auto
    then have "(key, v # vs) \<notin> set kvs" by force
    then have kv: "kv = (key, v # vs)" using Cons.prems(3) by auto
    have "name k \<noteq> Some x" if "k \<in> fst ` set kvs" for k using un [OF that] no that by metis
    then have "map_of m' x = map_of m1 x" using assign_all_other [OF m1(2)] by blast
    then show ?thesis using m1(1) kv Cons.prems(4) by (auto simp: assign_first_def gm.get_put)
  next
    case False
    then have "(key, v # vs) \<in> set kvs" "distinct (map fst kvs)" using Cons.prems(2,3) by auto
    then show ?thesis using Cons.IH [OF m1(2) _ _ Cons.prems(4) un] by blast
  qed
qed simp

lemma fold_update_map: "map_of (fold (\<lambda>(k, v). AList.update k v) kvs m) = map_of m ++ map_of (rev kvs)"
  by (induction kvs arbitrary: m) (auto simp: gm.get_put map_add_upd_left fun_eq_iff map_add_def split: option.splits)

lemma NewContext_SomeD:
  assumes "NewContext order req docRoot entryPoint = Some ctx"
  obtains "assign_all header_name (range_map order (hr_Header req))
      (fold (\<lambda>(k, v). AList.update k v) (cgi_vars req docRoot entryPoint) []) = Some (cx_Server ctx)"
    "assign_all Some (range_map order (hr_Query req)) [] = Some (cx_Get ctx)"
    "cx_ScriptFilename ctx = Join [docRoot, entryPoint]"
  using assms by (auto simp: NewContext_def Let_def split: option.splits)

lemma cgi_value:
  assumes "NewContext order req docRoot entryPoint = Some ctx"
    and "(k, v) \<in> set (cgi_vars req docRoot entryPoint)"
  shows "map_of (cx_Server ctx) k = Some v"
proof -
  let ?m = "fold (\<lambda>(k, v). AList.update k v) (cgi_vars req docRoot entryPoint) []"
  have a: "assign_all header_name (range_map order (hr_Header req)) ?m = Some (cx_Server ctx)"
    using NewContext_SomeD [OF assms(1)] by blast
  have "\<nexists>s. k = ''HTTP_'' @ s" using assms(2) by (auto simp: cgi_vars_def split: if_splits)
  then have "map_of (cx_Server ctx) k = map_of ?m k"
    using header_name_prefix by (intro assign_all_other [OF a]) blast
  moreover have "distinct (map fst (rev (cgi_vars req docRoot entryPoint)))" by (simp add: cgi_vars_def)
  then have "map_of ?m k = Some v" using assms(2) by (simp add: fold_update_map)
  ultimately show ?thesis by simp
qed

subsection \<open>Properties\<close>

text \<open>
  C30: A client cannot forge the CGI variables: whatever headers a request carries and in whatever
  order they are visited, each variable the server sets itself (method, path, query, script, document
  root, remote address, content type and length, HTTPS) has the server's value in \<open>$_SERVER\<close>.
\<close>
theorem headers_cannot_forge_cgi:
  assumes "NewContext order req docRoot entryPoint = Some ctx"
    and "(k, v) \<in> set (cgi_vars req docRoot entryPoint)"
  shows "map_of (cx_Server ctx) k = Some v"
  using assms by (rule cgi_value)

definition demo_request :: "string \<Rightarrow> header \<Rightarrow> Request" where
  "demo_request addr h = \<lparr>hr_Method = ''GET'', hr_Path = ''/x'', hr_RawQuery = ''a=1'', hr_Host = ''h'', hr_RemoteAddr = addr,
     hr_Header = h, hr_TLS = False, hr_ProtoMajor = 1, hr_Query = [(''a'', [''1'', ''2''])], hr_PostForm = [], hr_Cookies = []\<rparr>"

theorem headers_cannot_forge_cgi_witness:
  "\<exists>ctx. NewContext id (demo_request ''9.9.9.9:1'' [(''Remote-Addr'', [''evil''])]) ''/srv'' ''index.php'' = Some ctx \<and>
     map_of (cx_Server ctx) ''HTTP_REMOTE_ADDR'' = Some ''evil'' \<and> map_of (cx_Server ctx) ''REQUEST_METHOD'' = Some ''GET''"
proof -
  let ?r = "demo_request ''9.9.9.9:1'' [(''Remote-Addr'', [''evil''])]"
  have "map_option (\<lambda>c. map_of (cx_Server c) ''HTTP_REMOTE_ADDR'') (NewContext id ?r ''/srv'' ''index.php'') = Some (Some ''evil'')"
    by code_simp
  then obtain ctx where ctx: "NewContext id ?r ''/srv'' ''index.php'' = Some ctx" "map_of (cx_Server ctx) ''HTTP_REMOTE_ADDR'' = Some ''evil''"
    by auto
  have "(''REQUEST_METHOD'', ''GET'') \<in> set (cgi_vars ?r ''/srv'' ''index.php'')" by (simp add: cgi_vars_def demo_request_def)
  from headers_cannot_forge_cgi [OF ctx(1) this] show ?thesis using ctx by blast
qed

text \<open>
  \<open>REMOTE_ADDR\<close> is what precedes the first colon of the connection's address. For an IPv4 address
  that is the host; for an IPv6 address, which Go writes in brackets, it is only an opening bracket
  and the first group.
\<close>
theorem remote_addr_first_colon:
  assumes "NewContext order req docRoot entryPoint = Some ctx"
    and "hr_RemoteAddr req = host @ '':'' @ port"
  shows "map_of (cx_Server ctx) ''REMOTE_ADDR'' = Some (takeWhile (\<lambda>c. c \<noteq> CHR '':'') host)"
proof -
  have "hd (split_at c s) = takeWhile (\<lambda>x. x \<noteq> c) s" for c s
    by (induction s) (auto split: list.splits)
  then have "(''REMOTE_ADDR'', takeWhile (\<lambda>c. c \<noteq> CHR '':'') host) \<in> set (cgi_vars req docRoot entryPoint)"
    using assms(2) by (simp add: cgi_vars_def takeWhile_tail)
  then show ?thesis by (rule cgi_value [OF assms(1)])
qed

theorem remote_addr_first_colon_witness:
  "map_option (\<lambda>c. map_of (cx_Server c) ''REMOTE_ADDR'') (NewContext id (demo_request ''10.0.0.7:5123'' []) ''/srv'' ''index.php'')
     = Some (Some ''10.0.0.7'') \<and>
   map_option (\<lambda>c. map_of (cx_Server c) ''REMOTE_ADDR'') (NewContext id (demo_request ''[::1]:5123'' []) ''/srv'' ''index.php'')
     = Some (Some ''['')"
proof -
  have ex: "\<exists>c. NewContext id (demo_request a []) ''/srv'' ''index.php'' = Some c" for a
    by (simp add: NewContext_def demo_request_def range_map_def assign_first_def)
  obtain c4 where c4: "NewContext id (demo_request ''10.0.0.7:5123'' []) ''/srv'' ''index.php'' = Some c4" using ex by blast
  obtain c6 where c6: "NewContext id (demo_request ''[::1]:5123'' []) ''/srv'' ''index.php'' = Some c6" using ex by blast
  have addr: "hr_RemoteAddr (demo_request a h) = a" for a h by (simp add: demo_request_def)
  show ?thesis
    using remote_addr_first_colon [OF c4, of "''10.0.0.7''" "''5123''"] remote_addr_first_colon [OF c6, of "''[::1]''" "''5123''"]
    by (simp add: c4 c6 addr)
qed

text \<open>
  A query parameter reaches PHP with its first value, in whatever order the parameters are
  visited, and the context exists whenever no header, parameter or form field has an empty list of
  values (the source indexes the first value of each).
\<close>
theorem query_parameters_reach_php:
  assumes "range_order order" "wf_map (hr_Query req)"
    and "\<forall>m \<in> {hr_Header req, hr_Query req, hr_PostForm req}. wf_map m \<and> (\<forall>kv \<in> set m. snd kv \<noteq> [])"
  shows "\<exists>ctx. NewContext order req docRoot entryPoint = Some ctx \<and>
    (\<forall>k v vs. map_of (hr_Query req) k = Some (v # vs) \<longrightarrow> map_of (cx_Get ctx) k = Some v)"
proof -
  have ne: "\<forall>kv \<in> set (range_map order m). snd kv \<noteq> []" if "m \<in> {hr_Header req, hr_Query req, hr_PostForm req}" for m
    using mset_eq_setD [OF range_map_mset [OF assms(1)]] assms(3) that by auto
  have some: "\<exists>m'. assign_all name (range_map order m) m0 = Some m'" if "m \<in> {hr_Header req, hr_Query req, hr_PostForm req}" for m name m0
    using assign_all_some [OF ne [OF that]] by blast
  obtain h where h: "assign_all header_name (range_map order (hr_Header req))
      (fold (\<lambda>(k, v). AList.update k v) (cgi_vars req docRoot entryPoint) []) = Some h" using some by blast
  moreover obtain g where "assign_all Some (range_map order (hr_Query req)) [] = Some g" using some by blast
  moreover obtain p where "assign_all Some (range_map order (hr_PostForm req)) [] = Some p" using some by blast
  ultimately obtain ctx where ctx: "NewContext order req docRoot entryPoint = Some ctx"
    by (cases "hr_Method req = ''POST''") (simp_all add: NewContext_def)
  have get: "assign_all Some (range_map order (hr_Query req)) [] = Some (cx_Get ctx)" using NewContext_SomeD [OF ctx] by blast
  have "distinct (map fst (range_map order (hr_Query req)))"
    using arg_cong [OF range_map_mset [OF assms(1,2)], of "image_mset fst"] assms(2)
    by (metis mset_map mset_eq_imp_distinct_iff wf_map_def)
  then have "map_of (cx_Get ctx) k = Some v" if "map_of (hr_Query req) k = Some (v # vs)" for k v vs
    using that range_map_set [OF assms(1,2), of k "v # vs"] by (intro assign_all_unique [OF get]) auto
  with ctx show ?thesis by blast
qed

theorem query_parameters_reach_php_witness:
  "\<exists>ctx. NewContext rev (demo_request ''10.0.0.7:5123'' []) ''/srv'' ''index.php'' = Some ctx \<and> map_of (cx_Get ctx) ''a'' = Some ''1''"
proof -
  have "range_order rev" by (simp add: range_order_def)
  moreover have "wf_map (hr_Query (demo_request ''10.0.0.7:5123'' []))" by (simp add: wf_map_def demo_request_def)
  moreover have "map_of (hr_Query (demo_request ''10.0.0.7:5123'' [])) ''a'' = Some (''1'' # [''2''])" by (simp add: demo_request_def)
  ultimately show ?thesis
    using query_parameters_reach_php [of rev "demo_request ''10.0.0.7:5123'' []" "''/srv''" "''index.php''"]
    by (fastforce simp: demo_request_def)
qed

end
