(* ===== verification/Server.thy ===== *)
theory Server
  imports Metrics Context
begin

text \<open>
  The HTTP server (\<^verbatim>\<open>internal/server\<close>): the router (\<^verbatim>\<open>router.go\<close>), the health and static
  handlers (\<^verbatim>\<open>health.go\<close>, \<^verbatim>\<open>static.go\<close>) and the middleware stack
  (\<^verbatim>\<open>server.go\<close>). The worker pool is the
  interface of \<^verbatim>\<open>pool.go\<close>: what \<open>Exec\<close> returns for this request and the statistics. The file
  server of \<^verbatim>\<open>net/http\<close> is the list of actions it performs on its writer, the JSON encoder a
  function to text. Statuses passed to \<open>WriteHeader\<close> are three-digit ones.
\<close>

subsection \<open>Handlers as actions\<close>

datatype act =
    ASet string string
  | ADel string
  | AWriteHeader int
  | AWrite "byte list"
  | APanic

fun run_acts :: "'s writer \<Rightarrow> act list \<Rightarrow> 's \<Rightarrow> bool \<times> 's" where
  "run_acts W [] s = (False, s)"
| "run_acts W (ASet k v # as) s = run_acts W as (header_set W k v s)"
| "run_acts W (ADel k # as) s = run_acts W as (header_del W k s)"
| "run_acts W (AWriteHeader code # as) s = run_acts W as (w_WriteHeader W code s)"
| "run_acts W (AWrite b # as) s = run_acts W as (snd (w_Write W b s))"
| "run_acts W (APanic # as) s = (True, s)"

subsection \<open>The environment\<close>

datatype exec_outcome = ExecOk Response | ExecFail string | ExecPanicked

record senv =
  se_cfg :: Config
  se_exec :: "Context \<Rightarrow> string \<Rightarrow> exec_outcome"
  se_stats :: PoolStats
  se_stat :: "string \<Rightarrow> bool"
  se_order :: "string list \<Rightarrow> string list"
  se_files :: "Request \<Rightarrow> act list"
  se_liveJSON :: string
  se_readyJSON :: "string \<Rightarrow> PoolStats \<Rightarrow> string"
  se_core :: core_env
  se_duration :: int
  se_metrics :: metrics_env
  se_gzip :: gzip_env

subsection \<open>Health\<close>

definition liveness :: "senv \<Rightarrow> 's writer \<Rightarrow> 's \<Rightarrow> 's" where
  "liveness e W s =
     (let s = header_set W ''Content-Type'' ''application/json'' s;
          s = w_WriteHeader W 200 s
      in snd (w_Write W (bytes_of_string (se_liveJSON e)) s))"

definition readiness :: "senv \<Rightarrow> 's writer \<Rightarrow> 's \<Rightarrow> 's" where
  "readiness e W s =
     (let stats = se_stats e;
          ready = ps_totalWorkers stats > 0;
          status = (if ready then 200 else 503);
          statusStr = (if ready then ''ready'' else ''not_ready'');
          s = header_set W ''Content-Type'' ''application/json'' s;
          s = w_WriteHeader W status s
      in snd (w_Write W (bytes_of_string (se_readyJSON e statusStr stats)) s))"

definition Health_ServeHTTP :: "senv \<Rightarrow> 's handler" where
  "Health_ServeHTTP e r W s =
     (if hr_Path r \<in> {''/ready'', ''/readyz''} then (False, readiness e W s) else (False, liveness e W s))"

subsection \<open>Static files\<close>

definition static_exts :: "string list" where
  "static_exts = [''.css'', ''.js'', ''.png'', ''.jpg'', ''.jpeg'', ''.gif'', ''.svg'', ''.ico'',
     ''.woff'', ''.woff2'', ''.ttf'', ''.eot'', ''.map'', ''.webp'', ''.avif'',
     ''.mp4'', ''.webm'', ''.pdf'', ''.txt'', ''.xml'', ''.json'']"

definition isStaticFile :: "string \<Rightarrow> bool" where
  "isStaticFile path \<longleftrightarrow> ToLower (Ext path) \<in> set static_exts"

text \<open>\<open>stat\<close> gives whether a path exists and, if it does, whether it is a directory.\<close>

definition static_path :: "string \<Rightarrow> string \<Rightarrow> string" where
  "static_path root urlPath = Join [root, Clean urlPath]"

record StaticHandler =
  sh_root :: string
  sh_cacheControl :: string
  sh_fileServer :: "Request \<Rightarrow> act list"

text \<open>The file server of \<^verbatim>\<open>net/http\<close> for a root directory is the parameter \<open>fileServer\<close>.\<close>

definition NewStaticHandler :: "(string \<Rightarrow> Request \<Rightarrow> act list) \<Rightarrow> string \<Rightarrow> string \<Rightarrow> StaticHandler" where
  "NewStaticHandler fileServer root cacheControl =
     \<lparr>sh_root = root, sh_cacheControl = cacheControl, sh_fileServer = fileServer root\<rparr>"

definition Static_ServeHTTP :: "(string \<Rightarrow> bool option) \<Rightarrow> StaticHandler \<Rightarrow> 's handler" where
  "Static_ServeHTTP stat h r W s =
     (if stat (static_path (sh_root h) (hr_Path r)) \<noteq> Some False then (False, http_NotFound W s)
      else run_acts W (sh_fileServer h r)
        (if sh_cacheControl h \<noteq> '''' then header_set W ''Cache-Control'' (sh_cacheControl h) s else s))"

subsection \<open>The router\<close>

definition phpHandler :: "senv \<Rightarrow> 's handler" where
  "phpHandler e req W s =
     (let docRoot = (if ap_Root (cf_App (se_cfg e)) = '''' then ''.'' else ap_Root (cf_App (se_cfg e)));
          entryPoint = DetectEntryPoint (se_stat e) docRoot (ap_Entry (cf_App (se_cfg e)));
          script = Join [docRoot, entryPoint]
      in case NewContext (se_order e) req docRoot entryPoint of
           None \<Rightarrow> (True, s)
         | Some ctx \<Rightarrow>
             (case se_exec e ctx script of
                ExecPanicked \<Rightarrow> (True, s)
              | ExecFail err \<Rightarrow> (False, http_Error W (''Internal Server Error: '' @ err) 502 s)
              | ExecOk resp \<Rightarrow>
                  let s = fold (\<lambda>(k, v). header_set W k v) (range_map (se_order e) (rp_Headers resp)) s;
                      s = w_WriteHeader W (rp_Status resp) s
                  in (False, snd (w_Write W (bytes_of_string (rp_Body resp)) s))))"

record 's Router =
  rt_cfg :: Config
  rt_static :: "'s handler option"
  rt_phpHandler :: "'s handler"
  rt_healthHandler :: "'s handler"

definition NewRouter :: "senv \<Rightarrow> 's Router" where
  "NewRouter e =
     \<lparr>rt_cfg = se_cfg e,
      rt_static = (if st_Root (cf_Static (se_cfg e)) \<noteq> '''' then Some (\<lambda>req W. run_acts W (se_files e req)) else None),
      rt_phpHandler = phpHandler e, rt_healthHandler = Health_ServeHTTP e\<rparr>"

definition Router_ServeHTTP :: "'s Router \<Rightarrow> 's handler" where
  "Router_ServeHTTP r req W s =
     (if hr_Path req \<in> {''/health'', ''/healthz'', ''/ready'', ''/readyz''} then rt_healthHandler r req W s
      else case (if isStaticFile (hr_Path req) then rt_static r else None) of
        Some static \<Rightarrow>
          static req W
            (if st_CacheControl (cf_Static (rt_cfg r)) \<noteq> ''''
             then header_set W ''Cache-Control'' (st_CacheControl (cf_Static (rt_cfg r))) s else s)
      | None \<Rightarrow> rt_phpHandler r req W s)"

subsection \<open>The middleware stack\<close>

record world =
  wd_base :: base
  wd_metrics :: Metrics

definition world_writer :: "world writer" where
  "world_writer = \<lparr>w_Header = (\<lambda>s. bs_header (wd_base s)),
     w_setHeader = (\<lambda>h s. s\<lparr>wd_base := (wd_base s)\<lparr>bs_header := h\<rparr>\<rparr>),
     w_WriteHeader = (\<lambda>code s. s\<lparr>wd_base := base_WriteHeader code (wd_base s)\<rparr>),
     w_Write = (\<lambda>b s. let (n, c) = base_Write b (wd_base s) in (n, s\<lparr>wd_base := c\<rparr>))\<rparr>"

definition world_lens :: "world metrics_lens" where
  "world_lens = \<lparr>ml_get = wd_metrics, ml_upd = (\<lambda>f s. s\<lparr>wd_metrics := f (wd_metrics s)\<rparr>)\<rparr>"

definition snd_lens :: "'s metrics_lens \<Rightarrow> ('a \<times> 's) metrics_lens" where
  "snd_lens ml = \<lparr>ml_get = (\<lambda>(a, s). ml_get ml s), ml_upd = (\<lambda>f (a, s). (a, ml_upd ml f s))\<rparr>"

definition inner_handler :: "senv \<Rightarrow> 's metrics_lens \<Rightarrow> 's handler" where
  "inner_handler e ml =
     (if mt_Enabled (cf_Metrics (se_cfg e)) then
        Metrics_Middleware ml (se_metrics e) (mt_Path (cf_Metrics (se_cfg e))) (se_duration e)
          (CoreMiddleware (se_core e) (Router_ServeHTTP (NewRouter e)))
      else CoreMiddleware (se_core e) (Router_ServeHTTP (NewRouter e)))"

definition buildMiddleware :: "senv \<Rightarrow> world handler" where
  "buildMiddleware e =
     (let handler = CompressionMiddleware (se_gzip e) (inner_handler e world_lens) (inner_handler e (snd_lens world_lens))
      in if sc_HTTP3 (cf_Server (se_cfg e)) then AltSvcMiddleware 443 handler else handler)"

definition respond :: "senv \<Rightarrow> Request \<Rightarrow> Metrics \<Rightarrow> bool \<times> world" where
  "respond e r m = buildMiddleware e r world_writer \<lparr>wd_base = new_base (hr_Method r = ''HEAD''), wd_metrics = m\<rparr>"

end
