(* ===== verification/MiddlewareProps.thy ===== *)
theory MiddlewareProps
  imports Server
begin

text \<open>
  Properties of single parts of the server package, for arbitrary handlers: the access log, the
  compressing writer, and the paths of the static file handler.
\<close>

lemma rw_writer_sel:
  "w_Header (rw_writer W) st = w_Header W (snd st)" "w_setHeader (rw_writer W) h st = (fst st, w_setHeader W h (snd st))"
  "w_WriteHeader (rw_writer W) = rw_WriteHeader W" "w_Write (rw_writer W) = rw_Write W"
  by (simp_all add: rw_writer_def case_prod_beta)

lemma cw_writer_sel:
  "w_Header (cw_writer W) st = w_Header W (snd st)" "w_setHeader (cw_writer W) h st = (fst st, w_setHeader W h (snd st))"
  "w_WriteHeader (cw_writer W) = cw_WriteHeader W" "w_Write (cw_writer W) = cw_Write W"
  by (simp_all add: cw_writer_def case_prod_beta)

lemma base_writer_sel:
  "w_Header base_writer s = bs_header s" "w_setHeader base_writer h s = s\<lparr>bs_header := h\<rparr>"
  "w_WriteHeader base_writer = base_WriteHeader" "w_Write base_writer = base_Write"
  by (simp_all add: base_writer_def)

subsection \<open>Logging\<close>

definition final_acts :: "act list \<Rightarrow> bool" where
  "final_acts as \<longleftrightarrow> (\<forall>a \<in> set as. a \<noteq> APanic \<and> (\<forall>code. a = AWriteHeader code \<longrightarrow> 200 \<le> code))"

definition log_inv :: "rw \<Rightarrow> base \<Rightarrow> bool" where
  "log_inv rw s \<longleftrightarrow> rw_wroteHeader rw = bs_wroteHeader s \<and> (bs_wroteHeader s \<longrightarrow> rw_statusCode rw = bs_status s) \<and>
     (\<not> bs_wroteHeader s \<longrightarrow> rw_statusCode rw = 200) \<and> \<not> bs_head s \<and> rw_bytesWritten rw = int (length (bs_body s))"

lemma log_inv_WriteHeader:
  assumes "log_inv rw s" "200 \<le> code" "rw_WriteHeader base_writer code (rw, s) = (rw', s')"
  shows "log_inv rw' s'"
  using assms
  by (auto simp: log_inv_def rw_WriteHeader_def rw_hints_def base_writer_def base_WriteHeader_def Let_def split: if_splits)

lemma log_inv_Write:
  assumes "log_inv rw s" "rw_Write base_writer b (rw, s) = (n, rw', s')"
  shows "log_inv rw' s'"
  using assms
  by (auto simp: log_inv_def rw_Write_def base_writer_def base_WriteHeader_def base_Write_def Let_def split: if_splits)

lemma log_inv_acts:
  assumes "final_acts as" "log_inv rw s" "run_acts (rw_writer base_writer) as (rw, s) = (p, rw', s')"
  shows "\<not> p \<and> log_inv rw' s'"
  using assms
proof (induction as arbitrary: rw s)
  case (Cons a as)
  have as: "final_acts as" and a: "a \<noteq> APanic" using Cons.prems(1) by (auto simp: final_acts_def)
  show ?case
  proof (cases a)
    case (ASet k v)
    then show ?thesis using Cons.prems Cons.IH [OF as, of rw "s\<lparr>bs_header := Header_Set k v (bs_header s)\<rparr>"]
      by (simp add: header_set_def rw_writer_sel base_writer_sel log_inv_def)
  next
    case (ADel k)
    then show ?thesis using Cons.prems Cons.IH [OF as, of rw "s\<lparr>bs_header := Header_Del k (bs_header s)\<rparr>"]
      by (simp add: header_del_def rw_writer_sel base_writer_sel log_inv_def)
  next
    case (AWriteHeader code)
    obtain rw1 s1 where 1: "rw_WriteHeader base_writer code (rw, s) = (rw1, s1)" by (cases "rw_WriteHeader base_writer code (rw, s)")
    have "log_inv rw1 s1" using log_inv_WriteHeader [OF Cons.prems(2) _ 1] Cons.prems(1) AWriteHeader by (auto simp: final_acts_def)
    from Cons.IH [OF as this] show ?thesis using Cons.prems(3) 1 AWriteHeader by (simp add: rw_writer_sel)
  next
    case (AWrite b)
    obtain n rw1 s1 where 1: "rw_Write base_writer b (rw, s) = (n, rw1, s1)" by (cases "rw_Write base_writer b (rw, s)")
    have "log_inv rw1 s1" using log_inv_Write [OF Cons.prems(2) 1] .
    from Cons.IH [OF as this] show ?thesis using Cons.prems(3) 1 AWrite by (simp add: rw_writer_sel)
  qed (use a in simp)
qed simp


text \<open>A request that gets a writer which an earlier one has left in a state of its own.\<close>

definition dirty_core :: core_env where
  "dirty_core = \<lparr>ce_rnd = [], ce_buf = None, ce_rw = Some \<lparr>rw_statusCode = 500, rw_bytesWritten = 9, rw_wroteHeader = True, rw_hintsSent = True\<rparr>\<rparr>"


subsection \<open>Compression\<close>

definition decoded :: "(byte list \<Rightarrow> byte list) \<Rightarrow> base \<Rightarrow> byte list" where
  "decoded gunzip s = (if Header_Get (bs_sent s) ''Content-Encoding'' = ''gzip'' then gunzip (bs_body s) else bs_body s)"

lemma cw_writes_buffered:
  "cw_wroteHeader cw \<Longrightarrow> \<not> cw_compressed cw \<Longrightarrow>
   run_acts (cw_writer W) (map AWrite bs) (cw, s) = (False, cw\<lparr>cw_buf := cw_buf cw @ concat bs\<rparr>, s)"
  by (induction bs arbitrary: cw) (simp_all add: cw_writer_def cw_Write_def Let_def)

lemma cw_writes_compressed:
  "cw_compressed cw \<Longrightarrow> cw_gz cw = Some g \<Longrightarrow>
   run_acts (cw_writer W) (map AWrite bs) (cw, s) = (False, cw\<lparr>cw_gz := Some (g @ concat bs)\<rparr>, s)"
proof (induction bs arbitrary: cw g)
  case Nil
  then show ?case by (cases cw) simp
qed (simp_all add: cw_writer_def cw_Write_def gz_write_def)

definition gzip_headers :: "header \<Rightarrow> header" where
  "gzip_headers h = Header_Del ''Content-Length'' (Header_Set ''Vary'' ''Accept-Encoding'' (Header_Set ''Content-Encoding'' ''gzip'' h))"

lemma cw_writes_fresh:
  assumes "\<not> cw_wroteHeader cw" "\<not> cw_compressed cw" "\<not> bs_wroteHeader s"
  shows "\<exists>cw' s'. run_acts (cw_writer base_writer) (map AWrite bs) (cw, s) = (False, cw', s') \<and>
    ((cw' = cw\<lparr>cw_buf := cw_buf cw @ concat bs\<rparr> \<and> s' = s) \<or>
     (cw_compressed cw' \<and> cw_gz cw' = Some (cw_buf cw @ concat bs) \<and> shouldCompress base_writer s \<and>
      s' = base_WriteHeader 200 (s\<lparr>bs_header := gzip_headers (bs_header s)\<rparr>)))"
  using assms
proof (induction bs arbitrary: cw)
  case (Cons b bs)
  let ?cw = "cw\<lparr>cw_buf := cw_buf cw @ b\<rparr>"
  show ?case
  proof (cases "compressMinSize \<le> length (cw_buf cw @ b) \<and> shouldCompress base_writer s")
    case True
    let ?cw1 = "cw\<lparr>cw_buf := cw_buf cw @ b, cw_compressed := True, cw_gz := Some (cw_buf cw @ b), cw_wroteHeader := True\<rparr>"
    have "snd (w_Write (cw_writer base_writer) b (cw, s)) = (?cw1, base_WriteHeader 200 (s\<lparr>bs_header := gzip_headers (bs_header s)\<rparr>))"
      using Cons.prems True
      by (simp add: cw_writer_def cw_Write_def startCompress_def gz_write_def header_set_def header_del_def base_writer_def
          gzip_headers_def Let_def)
    then have "run_acts (cw_writer base_writer) (map AWrite (b # bs)) (cw, s) =
        (False, ?cw1\<lparr>cw_gz := Some ((cw_buf cw @ b) @ concat bs)\<rparr>, base_WriteHeader 200 (s\<lparr>bs_header := gzip_headers (bs_header s)\<rparr>))"
      using cw_writes_compressed [of ?cw1 "cw_buf cw @ b" base_writer bs] by simp
    then show ?thesis using True by (intro exI conjI) (assumption, simp)
  next
    case False
    then have "snd (w_Write (cw_writer base_writer) b (cw, s)) = (?cw, s)"
      using Cons.prems by (auto simp: cw_writer_def cw_Write_def Let_def)
    then show ?thesis using Cons.IH [of ?cw] Cons.prems by fastforce
  qed
next
  case Nil
  then show ?case by (cases cw) simp
qed

lemma Get_Set_same: "Header_Get (Header_Set k v h) k = v"
  by (simp add: Get_Set)

lemma gzip_headers_encoding: "Header_Get (gzip_headers h) ''Content-Encoding'' = ''gzip''"
proof -
  have "CanonicalHeaderKey ''Content-Length'' \<noteq> CanonicalHeaderKey ''Content-Encoding''"
    "CanonicalHeaderKey ''Vary'' \<noteq> CanonicalHeaderKey ''Content-Encoding''" by code_simp+
  then show ?thesis by (simp add: gzip_headers_def Get_Del Get_Set)
qed

lemma shouldCompress_plain: "shouldCompress base_writer s \<Longrightarrow> Header_Get (bs_header s) ''Content-Encoding'' = ''''"
  by (simp add: shouldCompress_def header_get_def base_writer_sel Let_def split: if_splits)

lemma base_deliver:
  assumes "200 \<le> c" "bodyAllowedForStatus c" "\<not> bs_wroteHeader s" "\<not> bs_head s"
  shows "snd (base_Write d (base_WriteHeader c s)) =
    s\<lparr>bs_wroteHeader := True, bs_status := c, bs_sent := bs_header s, bs_body := bs_body s @ d\<rparr>"
  using assms by (cases s) (simp add: base_WriteHeader_def base_Write_def Let_def)

text \<open>
  C19: Compression is transparent: whatever pieces a handler writes after its headers, whatever
  the writer from the pool was used for before, with or without
  sending a status first, the client decodes exactly the bytes written, and gets the status the
  handler sent (200 if it sent none), provided the handler did not set a gzip encoding itself.
\<close>
theorem compression_transparent:
  assumes "\<And>d. gunzip (gzip d) = d" "\<not> bs_wroteHeader s" "\<not> bs_head s" "bs_body s = []"
    and "Header_Get (bs_header s) ''Content-Encoding'' \<noteq> ''gzip''"
    and "\<And>c. code = Some c \<Longrightarrow> 200 \<le> c \<and> bodyAllowedForStatus c" "concat bs \<noteq> []"
    and "s' = cw_Close gzip base_writer (snd (run_acts (cw_writer base_writer)
      ((case code of None \<Rightarrow> [] | Some c \<Rightarrow> [AWriteHeader c]) @ map AWrite bs) (cw_reset pooled, s)))"
  shows "decoded gunzip s' = concat bs \<and> bs_status s' = (case code of None \<Rightarrow> 200 | Some c \<Rightarrow> c)"
proof (cases code)
  case (Some c)
  let ?cw = "cw_initial\<lparr>cw_headerCode := c, cw_wroteHeader := True\<rparr>"
  have "cw_WriteHeader base_writer c (cw_initial, s) = (?cw, base_WriteHeader c s)"
    by (simp add: cw_WriteHeader_def cw_initial_def compressMinSize_def base_writer_sel)
  then have "s' = cw_Close gzip base_writer (?cw\<lparr>cw_buf := concat bs\<rparr>, base_WriteHeader c s)"
    using assms(8) Some cw_writes_buffered [of ?cw base_writer bs "base_WriteHeader c s"]
    by (simp add: cw_writer_sel) (simp add: cw_initial_def)
  then show ?thesis
    using assms(2-5) assms(6) [OF Some] assms(7) Some base_deliver [of c s "concat bs"]
    by (simp add: cw_Close_def cw_initial_def base_writer_sel decoded_def del: concat_eq_Nil_conv)
next
  case None
  obtain cw' s1 where run: "run_acts (cw_writer base_writer) (map AWrite bs) (cw_initial, s) = (False, cw', s1)"
    and res: "(cw' = cw_initial\<lparr>cw_buf := concat bs\<rparr> \<and> s1 = s) \<or>
      (cw_compressed cw' \<and> cw_gz cw' = Some (concat bs) \<and> shouldCompress base_writer s \<and>
       s1 = base_WriteHeader 200 (s\<lparr>bs_header := gzip_headers (bs_header s)\<rparr>))"
    using cw_writes_fresh [of cw_initial s bs] assms(2) by (auto simp: cw_initial_def)
  have s': "s' = cw_Close gzip base_writer (cw', s1)" using assms(8) None run by simp
  have ok: "bodyAllowedForStatus 200" by (simp add: bodyAllowedForStatus_def)
  from res show ?thesis
  proof
    assume "cw' = cw_initial\<lparr>cw_buf := concat bs\<rparr> \<and> s1 = s"
    then show ?thesis
      using s' assms(2-5,7) None ok base_deliver [of 200 s "concat bs"]
      by (simp add: cw_Close_def cw_initial_def base_writer_sel decoded_def del: concat_eq_Nil_conv)
  next
    assume "cw_compressed cw' \<and> cw_gz cw' = Some (concat bs) \<and> shouldCompress base_writer s \<and>
       s1 = base_WriteHeader 200 (s\<lparr>bs_header := gzip_headers (bs_header s)\<rparr>)"
    then show ?thesis
      using s' assms(1-4) None ok
        base_deliver [of 200 "s\<lparr>bs_header := gzip_headers (bs_header s)\<rparr>" "gzip (concat bs)"]
      by (simp add: cw_Close_def base_writer_sel decoded_def gzip_headers_encoding)
  qed
qed

theorem compression_transparent_witness:
  "\<exists>s'. s' = cw_Close rev base_writer (snd (run_acts (cw_writer base_writer) [AWriteHeader 404, AWrite [1, 2], AWrite [3]]
       (cw_reset (compressWriterPool_New\<lparr>cw_buf := [9], cw_compressed := True\<rparr>), new_base False))) \<and>
     decoded rev s' = [1, 2, 3] \<and> bs_status s' = 404"
proof -
  have "200 \<le> (404::int) \<and> bodyAllowedForStatus 404" by (simp add: bodyAllowedForStatus_def)
  then show ?thesis
    using compression_transparent [of rev rev "new_base False" "Some 404" "[[1, 2], [3]]", OF _ _ _ _ _ _ _ refl]
    by (simp add: new_base_def Header_Get_def Header_Values_def)
qed

text \<open>
  Compression can lose a body. A handler that writes a body of at least 1024 bytes before the
  content type is set, then sets a compressible type and sends the status, gets its response cut to
  an empty compressed stream: \<open>WriteHeader\<close> turns compression on but never hands the buffered bytes
  to the compressor, and \<open>Close\<close> then only closes it.
\<close>
theorem compression_loses_buffered_body:
  assumes "1024 \<le> length data" "gzip [] \<noteq> []"
  shows "bs_body (cw_Close gzip base_writer (snd (run_acts (cw_writer base_writer)
      [AWrite data, ASet ''Content-Type'' ''text/html'', AWriteHeader 200] (cw_initial, new_base False)))) = gzip []"
proof -
  let ?cw = "cw_initial\<lparr>cw_buf := data\<rparr>" and ?s = "(new_base False)\<lparr>bs_header := Header_Set ''Content-Type'' ''text/html'' []\<rparr>"
  have "\<not> shouldCompress base_writer (new_base False)" by code_simp
  then have w: "snd (cw_Write base_writer data (cw_initial, new_base False)) = (?cw, new_base False)"
    by (simp add: cw_Write_def cw_initial_def Let_def)
  have "shouldCompress base_writer ?s" by code_simp
  then have "cw_WriteHeader base_writer 200 (?cw, ?s) = (?cw\<lparr>cw_headerCode := 200, cw_wroteHeader := True, cw_compressed := True, cw_gz := Some []\<rparr>,
      base_WriteHeader 200 (?s\<lparr>bs_header := gzip_headers (bs_header ?s)\<rparr>))"
    using assms(1)
    by (simp add: cw_WriteHeader_def startCompress_def compressMinSize_def cw_initial_def base_writer_sel header_set_def header_del_def gzip_headers_def)
  moreover have "bodyAllowedForStatus 200" by (simp add: bodyAllowedForStatus_def)
  ultimately show ?thesis
    using w assms(2)
    by (simp add: cw_writer_sel header_set_def base_writer_sel)
      (simp add: new_base_def cw_Close_def base_writer_sel base_WriteHeader_def base_Write_def)
qed

theorem compression_loses_buffered_body_witness:
  "bs_body (cw_Close (\<lambda>d. 31 # d) base_writer (snd (run_acts (cw_writer base_writer)
      [AWrite (replicate 2000 65), ASet ''Content-Type'' ''text/html'', AWriteHeader 200] (cw_initial, new_base False)))) = [31]"
  using compression_loses_buffered_body [of "replicate 2000 65" "\<lambda>d. 31 # d"] by simp

subsection \<open>Static files\<close>

text \<open>
  C31: A static file never comes from outside the root: for any URL path (which starts with a slash),
  the path the handler looks up is the cleaned root followed by the elements of the cleaned URL path,
  none of which is a parent reference or contains a separator.
\<close>
theorem static_path_confined:
  assumes "root \<noteq> ''''" "HasPrefix urlPath ''/''"
  shows "static_path root urlPath =
      (let es = path_elems root @ path_elems urlPath
       in if HasPrefix root ''/'' then ''/'' @ join_with (CHR ''/'') es
          else if es = [] then ''.'' else join_with (CHR ''/'') es) \<and>
    (\<forall>x \<in> set (path_elems urlPath). x \<noteq> ''..'' \<and> CHR ''/'' \<notin> set x)"
proof -
  have "HasPrefix (root @ CHR ''/'' # Clean urlPath) ''/'' = HasPrefix root ''/''"
    using assms(1) by (cases root) (simp_all add: HasPrefix_def)
  then have "static_path root urlPath =
      (let es = path_elems root @ path_elems urlPath
       in if HasPrefix root ''/'' then ''/'' @ join_with (CHR ''/'') es
          else if es = [] then ''.'' else join_with (CHR ''/'') es)"
    using Join_under [OF assms] by (simp add: static_path_def Clean_def Let_def)
  moreover have "\<forall>x \<in> set (path_elems urlPath). x \<noteq> ''..'' \<and> CHR ''/'' \<notin> set x"
    using path_elems_proper [OF assms(2)] by (auto simp: proper_def)
  ultimately show ?thesis by blast
qed

theorem static_path_confined_witness:
  "static_path ''public'' ''/../../etc/passwd'' = ''public/etc/passwd'' \<and> HasPrefix ''/../../etc/passwd'' ''/''"
proof -
  have "HasPrefix ''/../../etc/passwd'' ''/''" "path_elems ''public'' @ path_elems ''/../../etc/passwd'' = [''public'', ''etc'', ''passwd'']"
    "\<not> HasPrefix ''public'' ''/''" by code_simp+
  with static_path_confined [of "''public''" "''/../../etc/passwd''"] show ?thesis by (simp add: Let_def)
qed

end
