(* ===== verification/Listen.thy ===== *)
theory Listen
  imports Server
begin

text \<open>
  Building, starting and stopping the server: \<^verbatim>\<open>New\<close>, \<^verbatim>\<open>Start\<close>, \<^verbatim>\<open>Stop\<close> and \<^verbatim>\<open>startTLS\<close> of
  \<^verbatim>\<open>internal/server/server.go\<close>, with \<^verbatim>\<open>acme.go\<close>, \<^verbatim>\<open>http2.go\<close>, \<^verbatim>\<open>http3.go\<close> and \<^verbatim>\<open>tls.go\<close>. What is outside
  the program (making a directory, random numbers, the clock, the certificate and key encoders) is
  the record \<open>tls_env\<close>. Starting a server yields the call of \<^verbatim>\<open>net/http\<close> that serves, and the server's
  fields as they are then.
\<close>

subsection \<open>The development certificate\<close>

record Certificate =
  ct_SerialNumber :: int
  ct_Organization :: "string list"
  ct_NotBefore :: int
  ct_NotAfter :: int
  ct_KeyUsage :: "string list"
  ct_ExtKeyUsage :: "string list"
  ct_BasicConstraintsValid :: bool
  ct_DNSNames :: "string list"
  ct_IPAddresses :: "string list"

record tls_env =
  te_mkdirAll :: "string \<Rightarrow> bool"
  te_GenerateKey :: "string option"
  te_randInt :: "int \<Rightarrow> int option"
  te_now :: int
  te_CreateCertificate :: "Certificate \<Rightarrow> string \<Rightarrow> byte list option"
  te_MarshalECPrivateKey :: "string \<Rightarrow> byte list option"
  te_pem :: "string \<Rightarrow> byte list \<Rightarrow> byte list"
  te_X509KeyPair :: "byte list \<Rightarrow> byte list \<Rightarrow> bool"

definition cert_template :: "int \<Rightarrow> int \<Rightarrow> Certificate" where
  "cert_template serial now =
     \<lparr>ct_SerialNumber = serial, ct_Organization = [''maboo development''], ct_NotBefore = now,
      ct_NotAfter = now + 365 * 24 * 3600 * Second,
      ct_KeyUsage = [''KeyEncipherment'', ''DigitalSignature''], ct_ExtKeyUsage = [''ServerAuth''],
      ct_BasicConstraintsValid = True, ct_DNSNames = [''localhost''], ct_IPAddresses = [''127.0.0.1'', ''::1'']\<rparr>"

definition generateSelfSignedCert :: "tls_env \<Rightarrow> (byte list \<times> byte list) option" where
  "generateSelfSignedCert te =
     (case te_GenerateKey te of
        None \<Rightarrow> None
      | Some key \<Rightarrow>
          (case te_randInt te (2 ^ 128) of
             None \<Rightarrow> None
           | Some serialNumber \<Rightarrow>
               (case te_CreateCertificate te (cert_template serialNumber (te_now te)) key of
                  None \<Rightarrow> None
                | Some certDER \<Rightarrow>
                    (case te_MarshalECPrivateKey te key of
                       None \<Rightarrow> None
                     | Some keyDER \<Rightarrow> Some (te_pem te ''CERTIFICATE'' certDER, te_pem te ''EC PRIVATE KEY'' keyDER)))))"

subsection \<open>ACME\<close>

datatype start_error =
    AcmeEmailRequired
  | AcmeDomainsRequired
  | CacheDirFailed string
  | GeneratingCert
  | ParsingCert
  | NoCertificate

record ACMEManager =
  am_Email :: string
  am_HostPolicy :: "string list"
  am_Cache :: string
  am_DirectoryURL :: "string option"

definition NewACMEManager :: "(string \<Rightarrow> bool) \<Rightarrow> ACMEConfig \<Rightarrow> start_error + ACMEManager" where
  "NewACMEManager mkdirAll c =
     (if ac_Email c = '''' then Inl AcmeEmailRequired
      else if length (ac_Domains c) = 0 then Inl AcmeDomainsRequired
      else let cacheDir = (if ac_CacheDir c = '''' then ''/var/lib/maboo/certs'' else ac_CacheDir c)
           in if \<not> mkdirAll cacheDir then Inl (CacheDirFailed cacheDir)
              else Inr \<lparr>am_Email = ac_Email c, am_HostPolicy = ac_Domains c, am_Cache = cacheDir,
                am_DirectoryURL = (if ac_Staging c then Some ''https://acme-staging-v02.api.letsencrypt.org/directory''
                  else None)\<rparr>)"

text \<open>Where a TLS configuration gets its certificates from, and its minimal version (771 is TLS 1.2).\<close>

datatype cert_source = GetCertificate ACMEManager | Certificates "byte list" "byte list"

record tls_config =
  tl_source :: cert_source
  tl_MinVersion :: int

text \<open>A redirect server: its address and the manager whose challenges it answers.\<close>

type_synonym redirect_server = "string \<times> ACMEManager"

definition HTTPRedirectServer :: "string \<Rightarrow> ACMEManager \<Rightarrow> redirect_server" where
  "HTTPRedirectServer addr manager = (addr, manager)"

definition SetupACME :: "tls_env \<Rightarrow> Config \<Rightarrow> start_error + tls_config \<times> redirect_server option" where
  "SetupACME te c =
     (if ac_Email (tc_ACME (sc_TLS (cf_Server c))) = '''' then Inl AcmeEmailRequired
      else case NewACMEManager (te_mkdirAll te) (tc_ACME (sc_TLS (cf_Server c))) of
        Inl err \<Rightarrow> Inl err
      | Inr manager \<Rightarrow>
          Inr (\<lparr>tl_source = GetCertificate manager, tl_MinVersion = 771\<rparr>,
               if sc_HTTPRedirect (cf_Server c) then Some (HTTPRedirectServer '':80'' manager) else None))"

text \<open>The redirect of plain HTTP to HTTPS: the target of the 301.\<close>

definition redirect_url :: "Request \<Rightarrow> string" where
  "redirect_url r =
     (let httpsURL = ''https://'' @ hr_Host r @ hr_Path r
      in if hr_RawQuery r \<noteq> '''' then httpsURL @ ''?'' @ hr_RawQuery r else httpsURL)"

text \<open>
  \<^verbatim>\<open>http.Redirect\<close> to an absolute URL: the target goes into the header with its bytes beyond ASCII
  escaped, and a GET is told of it in a page.
\<close>

definition hexEscapeNonASCII :: "string \<Rightarrow> string" where
  "hexEscapeNonASCII s = concat (map (\<lambda>c. let n = of_char c :: nat in
     if n \<ge> 128 then [CHR ''%'', hex_digit (n div 16), hex_digit (n mod 16)] else [c]) s)"

definition htmlEscape :: "string \<Rightarrow> string" where
  "htmlEscape s = concat (map (\<lambda>c.
     if c = CHR ''&'' then ''&amp;'' else if c = CHR ''<'' then ''&lt;'' else if c = CHR ''>'' then ''&gt;''
     else if c = CHR 0x22 then ''&#34;'' else if c = CHR 0x27 then ''&#39;'' else [c]) s)"

definition http_Redirect :: "'s writer \<Rightarrow> Request \<Rightarrow> string \<Rightarrow> int \<Rightarrow> string \<Rightarrow> 's \<Rightarrow> 's" where
  "http_Redirect W r url code statusText s =
     (let hadCT = map_of (w_Header W s) ''Content-Type'' \<noteq> None;
          s = header_set W ''Location'' (hexEscapeNonASCII url) s;
          s = (if \<not> hadCT \<and> (hr_Method r = ''GET'' \<or> hr_Method r = ''HEAD'')
               then header_set W ''Content-Type'' ''text/html; charset=utf-8'' s else s);
          s = w_WriteHeader W code s
      in if \<not> hadCT \<and> hr_Method r = ''GET''
         then snd (w_Write W (bytes_of_string (''<a href='' @ [CHR 0x22] @ htmlEscape url @ [CHR 0x22] @ ''>'' @
                statusText @ ''</a>.'' @ [CHR 0x0A, CHR 0x0A])) s)
         else s)"

text \<open>The handler of the redirect server.\<close>

definition redirect_handler :: "'s handler" where
  "redirect_handler r W s = (False, http_Redirect W r (redirect_url r) 301 ''Moved Permanently'' s)"

text \<open>What the redirect server runs: the manager answers the challenges of the certificate authority and
  passes everything else on to the handler.\<close>

definition redirect_serve :: "(ACMEManager \<Rightarrow> 's handler \<Rightarrow> 's handler) \<Rightarrow> redirect_server \<Rightarrow> 's handler" where
  "redirect_serve HTTPHandler srv = HTTPHandler (snd srv) redirect_handler"

subsection \<open>The server\<close>

record http_server =
  hs_Addr :: string
  hs_ReadTimeout :: int
  hs_WriteTimeout :: int
  hs_IdleTimeout :: int
  hs_h2c :: bool
  hs_TLSConfig :: "tls_config option"

record HTTP3Server =
  h3_Addr :: string
  h3_TLSConfig :: tls_config

record Server =
  sv_cfg :: Config
  sv_http :: http_server
  sv_http3 :: "HTTP3Server option"
  sv_redirectSrv :: "redirect_server option"

definition useTLS :: "Config \<Rightarrow> bool" where
  "useTLS c = (let t = sc_TLS (cf_Server c)
     in tc_Auto t \<or> (tc_Cert t \<noteq> '''' \<and> tc_Key t \<noteq> '''') \<or> ac_Email (tc_ACME t) \<noteq> '''')"

text \<open>Without TLS the handler is wrapped for HTTP/2 in clear text.\<close>

definition EnableHTTP2 :: "http_server \<Rightarrow> bool \<Rightarrow> http_server" where
  "EnableHTTP2 srv tls = (if tls then srv else srv\<lparr>hs_h2c := True\<rparr>)"

definition Server_New :: "Config \<Rightarrow> Server" where
  "Server_New c =
     (let http = \<lparr>hs_Addr = sc_Address (cf_Server c), hs_ReadTimeout = 30 * Second, hs_WriteTimeout = 60 * Second,
            hs_IdleTimeout = 120 * Second, hs_h2c = False, hs_TLSConfig = None\<rparr>
      in \<lparr>sv_cfg = c, sv_http = (if sc_HTTP2 (cf_Server c) then EnableHTTP2 http (useTLS c) else http),
          sv_http3 = None, sv_redirectSrv = None\<rparr>)"

definition NewHTTP3Server :: "Config \<Rightarrow> tls_config option \<Rightarrow> HTTP3Server option" where
  "NewHTTP3Server c tls =
     (if \<not> sc_HTTP3 (cf_Server c) then None
      else case tls of None \<Rightarrow> None | Some t \<Rightarrow> Some \<lparr>h3_Addr = sc_Address (cf_Server c), h3_TLSConfig = t\<rparr>)"

text \<open>\<open>HTTP3Server.Start\<close> on a nil server does nothing; otherwise it listens on the server's address.\<close>

definition HTTP3_Start :: "HTTP3Server option \<Rightarrow> string option" where
  "HTTP3_Start s = (case s of None \<Rightarrow> None | Some h \<Rightarrow> Some (h3_Addr h))"

definition HTTP3_Stop :: "HTTP3Server option \<Rightarrow> bool" where
  "HTTP3_Stop s = (case s of None \<Rightarrow> False | Some h \<Rightarrow> True)"

text \<open>What is serving: the main listener and the address on which HTTP/3 listens.\<close>

datatype listener = ListenAndServe | ListenAndServeTLS string string

record listening =
  ls_main :: listener
  ls_http3 :: "string option"

definition startTLS :: "tls_env \<Rightarrow> Server \<Rightarrow> start_error + listening \<times> Server" where
  "startTLS te s =
     (let c = sv_cfg s; t = sc_TLS (cf_Server c);
          serve = (\<lambda>s tls.
            let s = s\<lparr>sv_http := (sv_http s)\<lparr>hs_TLSConfig := Some tls\<rparr>\<rparr>;
                s = (if sc_HTTP3 (cf_Server c) then s\<lparr>sv_http3 := NewHTTP3Server c (Some tls)\<rparr> else s)
            in (\<lparr>ls_main = ListenAndServeTLS '''' '''', ls_http3 = HTTP3_Start (sv_http3 s)\<rparr>, s))
      in if ac_Email (tc_ACME t) \<noteq> '''' then
           (case SetupACME te c of
              Inl err \<Rightarrow> Inl err
            | Inr (tls, redirect) \<Rightarrow> Inr (serve (s\<lparr>sv_redirectSrv := redirect\<rparr>) tls))
         else if tc_Cert t \<noteq> '''' \<and> tc_Key t \<noteq> '''' then
           Inr (\<lparr>ls_main = ListenAndServeTLS (tc_Cert t) (tc_Key t), ls_http3 = None\<rparr>, s)
         else if tc_Auto t then
           (case generateSelfSignedCert te of
              None \<Rightarrow> Inl GeneratingCert
            | Some (cert, key) \<Rightarrow>
                if te_X509KeyPair te cert key
                then Inr (serve s \<lparr>tl_source = Certificates cert key, tl_MinVersion = 771\<rparr>)
                else Inl ParsingCert)
         else Inl NoCertificate)"

definition Server_Start :: "tls_env \<Rightarrow> Server \<Rightarrow> start_error + listening \<times> Server" where
  "Server_Start te s =
     (if useTLS (sv_cfg s) then startTLS te s
      else Inr (\<lparr>ls_main = ListenAndServe, ls_http3 = None\<rparr>, s))"

datatype stop_action = CloseHTTP3 | ShutdownRedirect | ShutdownHTTP

definition Server_Stop :: "Server \<Rightarrow> stop_action list" where
  "Server_Stop s =
     (if HTTP3_Stop (sv_http3 s) then [CloseHTTP3] else []) @
     (if sv_redirectSrv s \<noteq> None then [ShutdownRedirect] else []) @ [ShutdownHTTP]"

lemmas start_defs = Server_Start_def startTLS_def useTLS_def SetupACME_def NewACMEManager_def Server_Stop_def
  Server_New_def EnableHTTP2_def NewHTTP3Server_def HTTP3_Start_def HTTP3_Stop_def

subsection \<open>TLS\<close>


definition dev_env :: tls_env where
  "dev_env = \<lparr>te_mkdirAll = (\<lambda>_. True), te_GenerateKey = Some ''key'', te_randInt = (\<lambda>_. Some 7), te_now = 0,
     te_CreateCertificate = (\<lambda>_ _. Some [1]), te_MarshalECPrivateKey = (\<lambda>_. Some [2]), te_pem = (\<lambda>_ b. b),
     te_X509KeyPair = (\<lambda>_ _. True)\<rparr>"

definition dev_cfg :: Config where
  "dev_cfg = Default\<lparr>cf_Server := (cf_Server Default)\<lparr>sc_HTTP3 := True, sc_TLS := (sc_TLS (cf_Server Default))\<lparr>tc_Auto := True\<rparr>\<rparr>\<rparr>"


subsection \<open>The redirect server\<close>

text \<open>
  Every plain request is answered by a 301 whose location is the escaped target; only a GET gets a
  body.
\<close>
lemma redirect_answers:
  "snd (redirect_handler r base_writer (new_base (hr_Method r = ''HEAD''))) = b \<Longrightarrow>
   bs_status b = 301 \<and> Header_Get (bs_sent b) ''Location'' = hexEscapeNonASCII (redirect_url r) \<and>
   (bs_body b = [] \<longleftrightarrow> hr_Method r \<noteq> ''GET'')"
  by (auto simp: redirect_handler_def http_Redirect_def Let_def base_writer_def new_base_def header_set_def
      base_WriteHeader_def base_Write_def bodyAllowedForStatus_def Get_Set CanonicalHeaderKey_def token_char_def
      upper_char_def lower_char_def bytes_of_string_def)

text \<open>
  The path in the target is the decoded one: an encoded question mark of the path becomes the start
  of a query, so that two different requests are sent to the same place.
\<close>
lemma redirect_conflates:
  "redirect_url (r\<lparr>hr_Path := p @ ''?'' @ q, hr_RawQuery := ''''\<rparr>) = redirect_url (r\<lparr>hr_Path := p, hr_RawQuery := q\<rparr>)"
  if "q \<noteq> ''''"
  using that by (simp add: redirect_url_def Let_def)

end
