(* ===== verification/Program.thy ===== *)
theory Program
  imports EmbPoolProps Listen
begin

text \<open>
  The program itself (\<^verbatim>\<open>cmd/maboo/main.go\<close>): the dispatch on the command line, and \<open>serve\<close> as a
  transition system around the pool's goroutines: the main goroutine loads the configuration, starts
  the pool, builds the server and waits for a signal; requests, reloads and signals arrive while it
  serves; on shutdown the HTTP server is stopped first, the pool after it.
\<close>

subsection \<open>The command line\<close>

definition program_version :: string where
  "program_version = ''0.2.0-dev''"

definition printUsage :: string where
  "printUsage = concat (map (\<lambda>line. line @ [CHR 0x0A])
     [''maboo - Embedded PHP Application Server'',
      '''',
      ''Usage:'',
      ''  maboo <command> [options]'',
      '''',
      ''Commands:'',
      ''  serve [config]   Start the server (default config: maboo.yaml)'',
      ''  start [config]   Alias for serve'',
      ''  version          Show version'',
      ''  help             Show this help'',
      '''',
      ''Signals:'',
      ''  SIGUSR1          Graceful worker reload (zero-downtime)'',
      ''  SIGINT/SIGTERM   Graceful shutdown'',
      '''',
      ''Examples:'',
      ''  maboo serve'',
      ''  maboo serve /etc/maboo/maboo.yaml'',
      ''  maboo version'',
      ''  kill -USR1 $(pidof maboo)   # Reload workers'',
      '''',
      ''Embedded PHP Version: 7.4, 8.0, 8.1, 8.2, 8.3, 8.4''])"

text \<open>What the program does with its arguments: it serves with the configuration of a path, or it ends,
  having written to the standard output and the standard error, with an exit code.\<close>

datatype main_action = Serve string | Ends (ma_stdout: string) (ma_stderr: string) (ma_code: int)

definition cfgPath :: "string list \<Rightarrow> string" where
  "cfgPath args = (if length args > 2 then args ! 2 else ''maboo.yaml'')"

definition main :: "string list \<Rightarrow> main_action" where
  "main args =
     (if length args < 2 then Ends printUsage '''' 1
      else let cmd = args ! 1
      in if cmd = ''serve'' \<or> cmd = ''start'' then Serve (cfgPath args)
         else if cmd = ''version'' then Ends (''maboo v'' @ program_version @ [CHR 0x0A]) '''' 0
         else if cmd = ''help'' then Ends printUsage '''' 0
         else Ends printUsage (''Unknown command: '' @ cmd @ [CHR 0x0A]) 1)"

datatype level = LevelDebug | LevelInfo | LevelWarn | LevelError
datatype log_format = TextHandler | JSONHandler

definition setupLogger :: "string \<Rightarrow> string \<Rightarrow> level \<times> log_format" where
  "setupLogger lvl fmt =
     (if lvl = ''debug'' then LevelDebug else if lvl = ''warn'' then LevelWarn
      else if lvl = ''error'' then LevelError else LevelInfo,
      if fmt = ''text'' then TextHandler else JSONHandler)"

subsection \<open>serve\<close>

text \<open>Where the main goroutine is: in the pool's \<open>Start\<close>, waiting for a signal, in the server's \<open>Stop\<close>,
  in the pool's \<open>Stop\<close>, or gone with an exit code.\<close>

datatype phase = StartingPool | Serving | StoppingServer | StoppingPool nat | Exited int

record app =
  mn_logger :: "level \<times> log_format"
  mn_server :: Server
  mn_sys :: system
  mn_phase :: phase

text \<open>
  \<open>serve\<close> up to the pool's \<open>Start\<close>: without a configuration the program exits with code 1, nothing
  being started. The server is built from the configuration once the pool runs; nothing uses it
  before, so that it is part of the state from the beginning.
\<close>

definition serve :: "(string \<Rightarrow> 'r + byte list) \<Rightarrow> (byte list \<Rightarrow> Config \<Rightarrow> 'y + Config) \<Rightarrow> string \<Rightarrow> int + app" where
  "serve readFile yamlUnmarshal path =
     (case Load readFile yamlUnmarshal path of
        Inl err \<Rightarrow> Inl 1
      | Inr cfg \<Rightarrow>
          Inr \<lparr>mn_logger = setupLogger (lg_Level (cf_Logging cfg)) (lg_Format (cf_Logging cfg)),
            mn_server = Server_New cfg,
            mn_sys = \<lparr>sy_pool = NewPool cfg, sy_tasks = [TStart (ILoop (nat (po_MinWorkers (cf_Pool cfg))))]\<rparr>,
            mn_phase = StartingPool\<rparr>)"

definition exec_done :: "task \<Rightarrow> bool" where
  "exec_done t = (case t of TExec pc \<Rightarrow> (case pc of XEnd res \<Rightarrow> True | _ \<Rightarrow> False) | _ \<Rightarrow> True)"

definition reload_done :: "task \<Rightarrow> bool" where
  "reload_done t = (case t of TReload pc \<Rightarrow> (case pc of LEnd e \<Rightarrow> True | _ \<Rightarrow> False) | _ \<Rightarrow> True)"

definition call_task :: "task \<Rightarrow> app \<Rightarrow> app" where
  "call_task t a = a\<lparr>mn_sys := (mn_sys a)\<lparr>sy_tasks := sy_tasks (mn_sys a) @ [t]\<rparr>\<rparr>"

text \<open>
  The steps. A goroutine of the pool moves; the pool's \<open>Start\<close> returns; a request reaches the pool while
  the server accepts; \<^verbatim>\<open>SIGUSR1\<close> starts a reload when the loop that reads these signals is not in one;
  a signal to stop, or the error of a server that cannot listen, begins the shutdown. The server's
  \<open>Stop\<close> returns when no request is in flight or, if \<open>late\<close>, at its deadline of 30 seconds with requests
  still running. The program ends when the pool's \<open>Stop\<close> has returned.
\<close>

inductive app_step :: "env \<Rightarrow> bool \<Rightarrow> app \<Rightarrow> app \<Rightarrow> bool" for ev late where
  run: "sys_fire ev ch i (mn_sys a) = Some s \<Longrightarrow> \<nexists>c. mn_phase a = Exited c \<Longrightarrow> app_step ev late a (a\<lparr>mn_sys := s\<rparr>)"
| started: "mn_phase a = StartingPool \<Longrightarrow> sy_tasks (mn_sys a) ! 0 = TStart (IEnd None) \<Longrightarrow>
    app_step ev late a (a\<lparr>mn_phase := Serving\<rparr>)"
| start_failed: "mn_phase a = StartingPool \<Longrightarrow> sy_tasks (mn_sys a) ! 0 = TStart (IEnd (Some err)) \<Longrightarrow>
    app_step ev late a (a\<lparr>mn_phase := Exited 1\<rparr>)"
| request: "mn_phase a \<in> {Serving, StoppingServer} \<Longrightarrow> app_step ev late a (call_task (TExec XEnter) a)"
| sigusr1: "mn_phase a \<in> {Serving, StoppingServer} \<union> range StoppingPool \<Longrightarrow>
    \<forall>t \<in> set (sy_tasks (mn_sys a)). reload_done t \<Longrightarrow> app_step ev late a (call_task (TReload LSnap) a)"
| quit: "mn_phase a = Serving \<Longrightarrow> app_step ev late a (a\<lparr>mn_phase := StoppingServer\<rparr>)"
| server_stopped: "mn_phase a = StoppingServer \<Longrightarrow> late \<or> (\<forall>t \<in> set (sy_tasks (mn_sys a)). exec_done t) \<Longrightarrow>
    app_step ev late a (call_task (TStop PCancel) (a\<lparr>mn_phase := StoppingPool (length (sy_tasks (mn_sys a)))\<rparr>))"
| pool_stopped: "mn_phase a = StoppingPool g \<Longrightarrow> sy_tasks (mn_sys a) ! g = TStop PEnd \<Longrightarrow>
    app_step ev late a (a\<lparr>mn_phase := Exited 0\<rparr>)"

subsection \<open>The life of the program\<close>

text \<open>The results that a request gets only from a pool that is being stopped.\<close>

definition cut_off :: "exec_result \<Rightarrow> bool" where
  "cut_off res \<longleftrightarrow> res = ExecPanic \<or> res = ShuttingDown"

fun carries :: "task \<Rightarrow> exec_result option" where
  "carries (TExec (XGot None)) = Some ExecPanic"
| "carries (TExec (XIdle r res)) = Some res"
| "carries (TExec (XDone r res)) = Some res"
| "carries (TExec (XReturn r res)) = Some res"
| "carries (TExec (XLeave res)) = Some res"
| "carries (TExec (XEnd res)) = Some res"
| "carries t = None"

fun ending :: "task \<Rightarrow> bool" where
  "ending (TStop pc) = True"
| "ending (TStart (IEnd (Some e))) = True"
| "ending t = False"

definition uncut :: "task \<Rightarrow> bool" where
  "uncut t \<longleftrightarrow> (\<forall>res. carries t = Some res \<longrightarrow> \<not> cut_off res)"

lemma fire_open:
  assumes "fire ev ch ts t p = Some (p', t', new)" "\<not> ending t" "Validate (pl_cfg p) = None"
    and "\<not> pl_cancelled p" "\<not> ch_closed (pl_available p)" "uncut t"
  shows "\<not> pl_cancelled p' \<and> \<not> ch_closed (pl_available p') \<and> uncut t' \<and> \<not> ending t' \<and>
    (\<forall>x \<in> set new. uncut x \<and> \<not> ending x)"
  using assms
  by (elim fire_elims)
    (auto elim!: fire_elims dest: chan_send_closed chan_recv_closed
      simp: spawn_alloc_valid uncut_def cut_off_def chan_recv_zero chan_send_panics split: fire_splits)

lemma fire_exec_done:
  assumes "fire ev ch ts t p = Some (p', t', new)" "exec_done t" "uncut t"
  shows "exec_done t' \<and> uncut t' \<and> (\<forall>x \<in> set new. exec_done x \<and> uncut x)"
  using assms
  by (elim fire_elims)
    (auto elim!: fire_elims simp: exec_done_def uncut_def split: fire_splits)

lemma fire_closed:
  assumes "fire ev ch ts t p = Some (p', t', new)"
  shows "(t' = TStop PEnd \<or> ch_closed (pl_available p) \<longrightarrow> ch_closed (pl_available p')) \<and> TStop PEnd \<notin> set new \<and>
    ((\<exists>pc. t = TStop pc) \<longleftrightarrow> (\<exists>pc. t' = TStop pc)) \<and> ((\<exists>pc. t = TStart pc) \<longleftrightarrow> (\<exists>pc. t' = TStart pc))"
  using assms
  by (elim fire_elims)
    (auto elim!: fire_elims dest: chan_send_closed chan_recv_closed dest!: spawn_alloc_InlD
      simp: chan_close_def split: fire_splits)

definition app_inv :: "Config \<Rightarrow> app \<Rightarrow> bool" where
  "app_inv cfg a \<longleftrightarrow>
     (let ts = sy_tasks (mn_sys a); p = sy_pool (mn_sys a) in
      Validate cfg = None \<and> pl_cfg p = cfg \<and> (\<forall>t \<in> set ts. uncut t) \<and>
      (TStop PEnd \<in> set ts \<longrightarrow> ch_closed (pl_available p)) \<and> ts \<noteq> [] \<and> (\<exists>pc. ts ! 0 = TStart pc) \<and>
      (case mn_phase a of
         Exited c \<Rightarrow> c = 0 \<and> (\<forall>t \<in> set ts. exec_done t) \<and> ch_closed (pl_available p)
       | StoppingPool g \<Rightarrow> (\<forall>t \<in> set ts. exec_done t) \<and> g < length ts \<and> (\<exists>pc. ts ! g = TStop pc)
       | _ \<Rightarrow> \<not> pl_cancelled p \<and> \<not> ch_closed (pl_available p) \<and> (\<forall>t \<in> set ts. \<not> ending t)))"

lemma app_inv_init: "serve rd un path = Inr a \<Longrightarrow> Load rd un path = Inr cfg \<Longrightarrow> app_inv cfg a"
  by (auto simp: serve_def app_inv_def uncut_def NewPool_def make_chan_def dest: Load_InrD)

lemma ball_upd_app: "i < length ts \<Longrightarrow> \<forall>t \<in> set ts. P t \<Longrightarrow> P t' \<Longrightarrow> \<forall>x \<in> set new. P x \<Longrightarrow>
   \<forall>t \<in> set (ts[i := t'] @ new). P t"
  using set_upd_app [of i ts t' new] by blast

lemma app_inv_run:
  assumes inv: "app_inv cfg a" and step: "sys_fire ev ch i (mn_sys a) = Some s" and live: "\<nexists>c. mn_phase a = Exited c"
  shows "app_inv cfg (a\<lparr>mn_sys := s\<rparr>)"
proof -
  let ?ts = "sy_tasks (mn_sys a)" and ?p = "sy_pool (mn_sys a)"
  from step obtain p' t' new where i: "i < length ?ts"
    and f: "fire ev ch ?ts (?ts ! i) ?p = Some (p', t', new)"
    and s: "s = \<lparr>sy_pool = p', sy_tasks = ?ts[i := t'] @ new\<rparr>" by (rule sys_fireE)
  have mem: "?ts ! i \<in> set ?ts" using i by simp
  have base: "Validate cfg = None" "pl_cfg ?p = cfg" "\<forall>t \<in> set ?ts. uncut t" "?ts \<noteq> []" "\<exists>pc. ?ts ! 0 = TStart pc"
    using inv by (simp_all add: app_inv_def Let_def)
  have cl: "TStop PEnd \<in> set (?ts[i := t'] @ new) \<longrightarrow> ch_closed (pl_available p')"
    using inv fire_closed [OF f] set_upd_app [OF i, of t' new] by (auto simp: app_inv_def Let_def)
  have first: "\<exists>pc. (?ts[i := t'] @ new) ! 0 = TStart pc"
    using base(4,5) fire_closed [OF f] by (cases i) (auto simp: nth_append)
  have common: "Validate cfg = None" "pl_cfg p' = cfg" "?ts[i := t'] @ new \<noteq> []"
    using base fire_frame(1) [OF f] by simp_all
  show ?thesis
  proof (cases "\<exists>g. mn_phase a = StoppingPool g")
    case True
    then obtain g where ph: "mn_phase a = StoppingPool g" ..
    then have g: "\<forall>t \<in> set ?ts. exec_done t" "g < length ?ts" "\<exists>pc. ?ts ! g = TStop pc"
      using inv by (simp_all add: app_inv_def Let_def)
    have d: "exec_done t' \<and> uncut t' \<and> (\<forall>x \<in> set new. exec_done x \<and> uncut x)"
      using fire_exec_done [OF f] g(1) base(3) mem by blast
    have "\<exists>pc. (?ts[i := t'] @ new) ! g = TStop pc"
      using g(2,3) fire_closed [OF f] by (cases "g = i") (auto simp: nth_append)
    then show ?thesis
      using ph common cl first g d ball_upd_app [OF i base(3), of t' new] ball_upd_app [OF i g(1), of t' new]
      by (simp add: app_inv_def s)
  next
    case False
    with live have ph: "mn_phase a \<in> {StartingPool, Serving, StoppingServer}" by (cases "mn_phase a") auto
    then have o: "\<not> pl_cancelled ?p" "\<not> ch_closed (pl_available ?p)" "\<forall>t \<in> set ?ts. \<not> ending t"
      using inv by (auto simp: app_inv_def Let_def)
    have d: "\<not> pl_cancelled p' \<and> \<not> ch_closed (pl_available p') \<and> uncut t' \<and> \<not> ending t' \<and>
        (\<forall>x \<in> set new. uncut x \<and> \<not> ending x)"
      using fire_open [OF f] o base(1-3) mem by simp
    have all: "\<forall>t \<in> set (?ts[i := t'] @ new). uncut t" "\<forall>t \<in> set (?ts[i := t'] @ new). \<not> ending t"
      using d ball_upd_app [OF i base(3)] ball_upd_app [OF i o(3)] by blast+
    show ?thesis using ph
      by (elim insertE emptyE) (use d all common cl first in \<open>simp_all add: app_inv_def s\<close>)
  qed
qed

lemma app_inv_step:
  assumes "app_step ev False a a'" "app_inv cfg a"
  shows "app_inv cfg a'"
  using assms
proof (cases rule: app_step.cases)
  case (run ch i s)
  then show ?thesis using assms(2) by (auto intro: app_inv_run)
next
  case (pool_stopped g)
  with assms(2) have "TStop PEnd \<in> set (sy_tasks (mn_sys a))"
    by (auto simp: app_inv_def Let_def dest!: nth_mem)
  with pool_stopped assms(2) show ?thesis by (auto simp: app_inv_def Let_def)
next
  case (start_failed err)
  with assms(2) have "TStart (IEnd (Some err)) \<in> set (sy_tasks (mn_sys a))"
    by (auto simp: app_inv_def Let_def) (metis length_greater_0_conv nth_mem)
  with start_failed assms(2) show ?thesis by (auto simp: app_inv_def Let_def)
qed (auto simp: app_inv_def Let_def call_task_def uncut_def exec_done_def nth_append)

definition serve_init :: "(string \<Rightarrow> 'r + byte list) \<Rightarrow> (byte list \<Rightarrow> Config \<Rightarrow> 'y + Config) \<Rightarrow> string \<Rightarrow> app \<Rightarrow> bool" where
  "serve_init rd un path a \<longleftrightarrow> serve rd un path = Inr a"

lemma serve_init_Load: "serve_init rd un path a \<Longrightarrow> \<exists>cfg. Load rd un path = Inr cfg"
  by (auto simp: serve_init_def serve_def split: sum.splits)

interpretation app: inductive_invariant "serve_init rd un path" "app_step ev False" "\<lambda>a. \<exists>cfg. app_inv cfg a"
proof unfold_locales
  show "\<exists>cfg. app_inv cfg a" if "serve_init rd un path a" for a
    using serve_init_Load [OF that] that by (auto simp: serve_init_def intro: app_inv_init)
qed (auto intro: app_inv_step)


subsection \<open>Runs of the program\<close>

datatype app_event = ERun nat | EStarted | ERequest | EQuit | EServerStopped | EPoolStopped nat

fun app_fire :: "env \<Rightarrow> app_event \<Rightarrow> app \<Rightarrow> app option" where
  "app_fire ev (ERun i) a =
     (if (case mn_phase a of Exited c \<Rightarrow> True | _ \<Rightarrow> False) then None
      else map_option (\<lambda>s. a\<lparr>mn_sys := s\<rparr>) (sys_fire ev Proceed i (mn_sys a)))"
| "app_fire ev EStarted a =
     (if mn_phase a = StartingPool \<and> sy_tasks (mn_sys a) ! 0 = TStart (IEnd None) then Some (a\<lparr>mn_phase := Serving\<rparr>) else None)"
| "app_fire ev ERequest a = (if mn_phase a = Serving then Some (call_task (TExec XEnter) a) else None)"
| "app_fire ev EQuit a = (if mn_phase a = Serving then Some (a\<lparr>mn_phase := StoppingServer\<rparr>) else None)"
| "app_fire ev EServerStopped a =
     (if mn_phase a = StoppingServer \<and> list_all exec_done (sy_tasks (mn_sys a))
      then Some (call_task (TStop PCancel) (a\<lparr>mn_phase := StoppingPool (length (sy_tasks (mn_sys a)))\<rparr>)) else None)"
| "app_fire ev (EPoolStopped g) a =
     (if mn_phase a = StoppingPool g \<and> sy_tasks (mn_sys a) ! g = TStop PEnd then Some (a\<lparr>mn_phase := Exited 0\<rparr>) else None)"

fun app_run :: "env \<Rightarrow> app_event list \<Rightarrow> app \<Rightarrow> app option" where
  "app_run ev [] a = Some a"
| "app_run ev (e # es) a = (case app_fire ev e a of None \<Rightarrow> None | Some a \<Rightarrow> app_run ev es a)"

lemma app_fire_step: "app_fire ev e a = Some a' \<Longrightarrow> app_step ev late a a'"
  by (cases e) (auto intro: app_step.intros simp: list_all_iff split: if_splits phase.splits)

lemma app_run_reachable: "app_run ev es a = Some a' \<Longrightarrow> reachable init (app_step ev late) a \<Longrightarrow> reachable init (app_step ev late) a'"
  by (induction es arbitrary: a) (auto split: option.splits dest: app_fire_step intro: reachable.next_state)

definition demo_load :: "byte list \<Rightarrow> Config \<Rightarrow> unit + Config" where
  "demo_load data cfg = Inr (demo_cfg ''worker'' 1 1 0)"

definition demo_life :: "app_event list" where
  "demo_life = replicate 5 (ERun 0) @ [EStarted, ERequest] @ replicate 10 (ERun 2) @ [EQuit, EServerStopped] @
     replicate 2 (ERun 3) @ replicate 2 (ERun 4) @ replicate 2 (ERun 3) @ [EPoolStopped 3]"


end
