(* ===== verification/ServerStack.thy ===== *)
theory ServerStack
  imports Server
begin

text \<open>
  The middleware stack composed: a handler that sets headers, sends one status and one body is followed
  through the logging, metrics and compressing writers by lemmas over the interface of a response
  writer, so that what the client receives is known for every configuration of the stack.
\<close>

subsection \<open>Delivering one response\<close>

text \<open>A handler that sets headers, sends the status and writes the body once.\<close>

definition deliver :: "'s writer \<Rightarrow> (header \<Rightarrow> header) \<Rightarrow> int \<Rightarrow> byte list \<Rightarrow> 's \<Rightarrow> 's" where
  "deliver W H code body s = snd (w_Write W body (w_WriteHeader W code (w_setHeader W (H (w_Header W s)) s)))"

definition delivered :: "'s writer \<Rightarrow> (header \<Rightarrow> header) \<Rightarrow> int \<Rightarrow> byte list \<Rightarrow> 's \<Rightarrow> nat" where
  "delivered W H code body s = fst (w_Write W body (w_WriteHeader W code (w_setHeader W (H (w_Header W s)) s)))"

definition hinted :: "header \<Rightarrow> bool" where
  "hinted h \<longleftrightarrow> list_ex is_hint (Header_Values h ''Link'')"

context response_writer
begin

lemma fold_header_set:
  "fold (\<lambda>(k, v). header_set W k v) kvs s = w_setHeader W (fold (\<lambda>(k, v). Header_Set k v) kvs (w_Header W s)) s"
proof (induction kvs arbitrary: s)
  case (Cons kv kvs)
  then show ?case by (cases kv) (simp add: header_set_def header_setHeader setHeader_setHeader)
qed (simp add: setHeader_same)

lemma http_Error_deliver: "http_Error W msg code s =
    deliver W (\<lambda>h. Header_Set ''X-Content-Type-Options'' ''nosniff'' (Header_Set ''Content-Type'' ''text/plain; charset=utf-8''
      (Header_Del ''Content-Length'' h))) code (bytes_of_string (msg @ [CHR 0x0A])) s"
  by (simp add: http_Error_def deliver_def header_set_def header_del_def header_setHeader setHeader_setHeader)

lemma deliver_after_set:
  "deliver W H code body (header_set W k v s) = deliver W (\<lambda>h. H (Header_Set k v h)) code body s"
  by (simp add: deliver_def header_set_def header_setHeader setHeader_setHeader)

lemma rw_deliver:
  assumes "\<not> hinted (H (w_Header W s))"
  shows "deliver (rw_writer W) H code body (rw_initial, s) =
    (\<lparr>rw_statusCode = code, rw_bytesWritten = int (delivered W H code body s), rw_wroteHeader = True, rw_hintsSent = True\<rparr>, deliver W H code body s)"
  using assms
  by (simp add: deliver_def delivered_def rw_writer_def rw_WriteHeader_def rw_Write_def rw_hints_def rw_initial_def hinted_def
      header_setHeader case_prod_beta)

lemma core_deliver:
  assumes nxt: "\<And>st. nx (snd (request_id rnd r)) (rw_writer W) st = (False, deliver (rw_writer W) H code body st)"
    and hint: "\<not> hinted (H (Header_Set ''X-Request-ID'' (fst (request_id rnd r)) (w_Header W s)))"
  shows "CoreMiddleware rnd nx r W s =
    (False, deliver W (\<lambda>h. H (Header_Set ''X-Request-ID'' (fst (request_id rnd r)) h)) code body s)"
  using nxt rw_deliver [of H "header_set W ''X-Request-ID'' (fst (request_id rnd r)) s" code body] hint
  by (simp add: CoreMiddleware_def core_run_def logged_def case_prod_beta deliver_after_set)

lemma core_panic:
  assumes "\<And>st. nx (snd (request_id rnd r)) (rw_writer W) st = (True, st)"
  shows "CoreMiddleware rnd nx r W s =
    (False, deliver W (\<lambda>h. Header_Set ''X-Content-Type-Options'' ''nosniff'' (Header_Set ''Content-Type'' ''text/plain; charset=utf-8''
      (Header_Del ''Content-Length'' (Header_Set ''X-Request-ID'' (fst (request_id rnd r)) h)))) 500
      (bytes_of_string (''Internal Server Error'' @ [CHR 0x0A])) s)"
  using assms
  by (simp add: CoreMiddleware_def core_run_def logged_def case_prod_beta http_Error_deliver deliver_after_set)

end

text \<open>A writer over a state that also holds the metrics, which writing does not touch.\<close>

locale metrics_writer = response_writer W for W :: "'s writer" +
  fixes ml :: "'s metrics_lens"
  assumes upd_header: "w_Header W (ml_upd ml f s) = w_Header W s"
    and upd_setHeader: "w_setHeader W h (ml_upd ml f s) = ml_upd ml f (w_setHeader W h s)"
    and upd_WriteHeader: "w_WriteHeader W code (ml_upd ml f s) = ml_upd ml f (w_WriteHeader W code s)"
    and upd_Write: "w_Write W b (ml_upd ml f s) = (fst (w_Write W b s), ml_upd ml f (snd (w_Write W b s)))"
    and upd_id: "ml_upd ml (\<lambda>m. m) s = s"
    and upd_upd: "ml_upd ml g (ml_upd ml f s) = ml_upd ml (\<lambda>m. g (f m)) s"
begin

lemma deliver_upd: "deliver W H code body (ml_upd ml f s) = ml_upd ml f (deliver W H code body s)"
  by (simp add: deliver_def upd_header upd_setHeader upd_WriteHeader upd_Write)

lemma mw_deliver: "deliver (mw_writer W) H code body (mw, s) =
    (mw\<lparr>mw_statusCode := code,
        mw_bytesWritten := mw_bytesWritten mw + int (delivered W H code body s)\<rparr>,
     deliver W H code body s)"
  by (simp add: deliver_def delivered_def mw_writer_def mw_WriteHeader_def mw_Write_def case_prod_beta)

lemma delivered_upd: "delivered W H code body (ml_upd ml f s) = delivered W H code body s"
  by (simp add: delivered_def upd_header upd_setHeader upd_WriteHeader upd_Write)

lemma metrics_deliver:
  assumes "hr_Path r \<noteq> path"
    and "nx r (mw_writer W) (\<lparr>mw_statusCode = 200, mw_bytesWritten = 0\<rparr>, ml_upd ml (add_active 1) s) =
      (False, deliver (mw_writer W) H code body (\<lparr>mw_statusCode = 200, mw_bytesWritten = 0\<rparr>, ml_upd ml (add_active 1) s))"
  shows "Metrics_Middleware ml me path d nx r W s = (False, ml_upd ml
    (\<lambda>m. add_active (- 1) (observe (hr_Method r) code (int (delivered W H code body s)) d (add_active 1 m)))
    (deliver W H code body s))"
  using assms by (simp add: Metrics_Middleware_def Let_def mw_deliver deliver_upd delivered_upd upd_upd)

end

interpretation wld: metrics_writer world_writer world_lens
  by unfold_locales (simp_all add: world_writer_def world_lens_def case_prod_beta)

interpretation cmp: response_writer "cw_writer world_writer"
  by (rule cw_response_writer) (rule wld.response_writer_axioms)

interpretation cmp: metrics_writer "cw_writer world_writer" "snd_lens world_lens"
  by unfold_locales
    (auto simp: cw_writer_def snd_lens_def wld.upd_header wld.upd_setHeader wld.upd_WriteHeader wld.upd_id wld.upd_upd cw_WriteHeader_def cw_Write_def
      shouldCompress_def startCompress_def header_get_def header_set_def header_del_def gz_write_def Let_def case_prod_beta)

subsection \<open>The stack\<close>

lemma cw_deliver: "cw_Close gzip world_writer (deliver (cw_writer world_writer) H code body (cw_initial, s)) =
    (if body = [] then w_WriteHeader world_writer code (w_setHeader world_writer (H (w_Header world_writer s)) s)
     else deliver world_writer H code body s)"
  by (simp add: deliver_def cw_writer_def cw_WriteHeader_def cw_Write_def cw_Close_def cw_initial_def compressMinSize_def Let_def)

lemma world_deliver:
  assumes "200 \<le> code"
  shows "wd_base (deliver world_writer H code body \<lparr>wd_base = (new_base head)\<lparr>bs_header := h0\<rparr>, wd_metrics = m\<rparr>) =
    \<lparr>bs_header = H h0, bs_head = head, bs_wroteHeader = True, bs_status = code, bs_sent = H h0, bs_info = [],
      bs_body = (if bodyAllowedForStatus code \<and> \<not> head then body else [])\<rparr>"
  using assms
  by (auto simp: deliver_def world_writer_def new_base_def base_WriteHeader_def base_Write_def Let_def)

text \<open>What the router does with a request, whatever writer it is given.\<close>

datatype routed = RDeliver "header \<Rightarrow> header" int "byte list" | RPanic | RFiles

definition error_headers :: "header \<Rightarrow> header" where
  "error_headers h = Header_Set ''X-Content-Type-Options'' ''nosniff'' (Header_Set ''Content-Type'' ''text/plain; charset=utf-8''
      (Header_Del ''Content-Length'' h))"

definition route_php :: "senv \<Rightarrow> Request \<Rightarrow> routed" where
  "route_php e req =
     (let docRoot = (if ap_Root (cf_App (se_cfg e)) = '''' then ''.'' else ap_Root (cf_App (se_cfg e)));
          entryPoint = DetectEntryPoint (se_stat e) docRoot (ap_Entry (cf_App (se_cfg e)))
      in case NewContext (se_order e) req docRoot entryPoint of
           None \<Rightarrow> RPanic
         | Some ctx \<Rightarrow>
             (case se_exec e ctx (Join [docRoot, entryPoint]) of
                ExecPanicked \<Rightarrow> RPanic
              | ExecFail err \<Rightarrow> RDeliver error_headers 502 (bytes_of_string (''Internal Server Error: '' @ err @ [CHR 0x0A]))
              | ExecOk resp \<Rightarrow> RDeliver (fold (\<lambda>(k, v). Header_Set k v) (range_map (se_order e) (rp_Headers resp)))
                  (rp_Status resp) (bytes_of_string (rp_Body resp))))"

definition route :: "senv \<Rightarrow> Request \<Rightarrow> routed" where
  "route e req =
     (if hr_Path req \<in> {''/ready'', ''/readyz''} then
        (let ready = 0 < ps_totalWorkers (se_stats e)
         in RDeliver (Header_Set ''Content-Type'' ''application/json'') (if ready then 200 else 503)
              (bytes_of_string (se_readyJSON e (if ready then ''ready'' else ''not_ready'') (se_stats e))))
      else if hr_Path req \<in> {''/health'', ''/healthz''} then
        RDeliver (Header_Set ''Content-Type'' ''application/json'') 200 (bytes_of_string (se_liveJSON e))
      else if st_Root (cf_Static (se_cfg e)) \<noteq> '''' \<and> isStaticFile (hr_Path req) then RFiles
      else route_php e req)"

context response_writer
begin

lemma error_deliver: "http_Error W msg code s = deliver W error_headers code (bytes_of_string (msg @ [CHR 0x0A])) s"
  unfolding error_headers_def [abs_def] by (rule http_Error_deliver)

lemma php_route:
  "phpHandler e req W s = (case route_php e req of RDeliver H code body \<Rightarrow> (False, deliver W H code body s) | _ \<Rightarrow> (True, s))"
proof -
  have "snd (w_Write W b (w_WriteHeader W c (fold (\<lambda>(k, v). header_set W k v) kvs s))) =
      deliver W (fold (\<lambda>(k, v). Header_Set k v) kvs) c b s" for b c kvs
    by (simp add: deliver_def fold_header_set)
  then show ?thesis
    unfolding phpHandler_def route_php_def Let_def by (simp add: error_deliver split: option.splits exec_outcome.splits)
qed

lemma router_route:
  assumes "route e req \<noteq> RFiles"
  shows "Router_ServeHTTP (NewRouter e) req W s =
    (case route e req of RDeliver H code body \<Rightarrow> (False, deliver W H code body s) | _ \<Rightarrow> (True, s))"
proof -
  consider "hr_Path req \<in> {''/ready'', ''/readyz''}" | "hr_Path req \<in> {''/health'', ''/healthz''}"
    | "hr_Path req \<notin> {''/health'', ''/healthz'', ''/ready'', ''/readyz''}" by blast
  then show ?thesis
  proof cases
    case 3
    then show ?thesis using assms by (auto simp: Router_ServeHTTP_def NewRouter_def route_def php_route)
  qed (auto simp: Router_ServeHTTP_def NewRouter_def route_def Health_ServeHTTP_def readiness_def liveness_def Let_def
      deliver_def header_set_def)
qed

end

definition outcome :: "senv \<Rightarrow> Request \<Rightarrow> (header \<Rightarrow> header) \<times> int \<times> byte list" where
  "outcome e r =
     (case route e (snd (request_id (se_core e) r)) of
        RDeliver H code body \<Rightarrow> (H, code, body)
      | _ \<Rightarrow> (error_headers, 500, bytes_of_string (''Internal Server Error'' @ [CHR 0x0A])))"

definition response_headers :: "senv \<Rightarrow> Request \<Rightarrow> header \<Rightarrow> header" where
  "response_headers e r h = fst (outcome e r) (Header_Set ''X-Request-ID'' (fst (request_id (se_core e) r)) h)"

context response_writer
begin

lemma core_outcome:
  assumes "route e (snd (request_id (se_core e) r)) \<noteq> RFiles" "outcome e r = (H, code, body)"
    and "\<not> hinted (response_headers e r (w_Header W s))"
  shows "CoreMiddleware (se_core e) (Router_ServeHTTP (NewRouter e)) r W s = (False, deliver W (response_headers e r) code body s)"
proof -
  note router = response_writer.router_route [OF rw_response_writer [OF response_writer_axioms] assms(1)]
  have H: "response_headers e r = (\<lambda>h. H (Header_Set ''X-Request-ID'' (fst (request_id (se_core e) r)) h))"
    using assms(2) by (simp add: response_headers_def fun_eq_iff)
  show ?thesis
  proof (cases "route e (snd (request_id (se_core e) r))")
    case (RDeliver H' c' b')
    then have "H' = H" "c' = code" "b' = body" using assms(2) by (simp_all add: outcome_def)
    then show ?thesis
      using core_deliver [of "Router_ServeHTTP (NewRouter e)" "se_core e" r H code body s] router RDeliver assms(3) unfolding H by simp
  next
    case RPanic
    then have "H = error_headers" "code = 500" "body = bytes_of_string (''Internal Server Error'' @ [CHR 0x0A])"
      using assms(2) by (simp_all add: outcome_def)
    then show ?thesis
      using core_panic [of "Router_ServeHTTP (NewRouter e)" "se_core e" r s] router RPanic unfolding H by (simp add: error_headers_def)
  qed (use assms(1) in simp)
qed

end

definition not_metrics :: "senv \<Rightarrow> Request \<Rightarrow> bool" where
  "not_metrics e r \<longleftrightarrow> mt_Enabled (cf_Metrics (se_cfg e)) \<longrightarrow> hr_Path r \<noteq> mt_Path (cf_Metrics (se_cfg e))"

definition counted_request :: "senv \<Rightarrow> Request \<Rightarrow> int \<Rightarrow> nat \<Rightarrow> Metrics \<Rightarrow> Metrics" where
  "counted_request e r code n m =
     (if mt_Enabled (cf_Metrics (se_cfg e))
      then add_active (- 1) (observe (hr_Method r) code (int n) (se_duration e) (add_active 1 m)) else m)"

context metrics_writer
begin

lemma inner_outcome:
  assumes "route e (snd (request_id (se_core e) r)) \<noteq> RFiles" "outcome e r = (H, code, body)"
    and "\<not> hinted (response_headers e r (w_Header W s))" "not_metrics e r"
  shows "inner_handler e ml r W s = (False, ml_upd ml (counted_request e r code (delivered W (response_headers e r) code body s))
    (deliver W (response_headers e r) code body s))"
proof (cases "mt_Enabled (cf_Metrics (se_cfg e))")
  case True
  have "w_Header (mw_writer W) (mw, ml_upd ml f s) = w_Header W s" for mw f by (simp add: mw_writer_def upd_header)
  then have "CoreMiddleware (se_core e) (Router_ServeHTTP (NewRouter e)) r (mw_writer W) (mw, ml_upd ml f s) =
      (False, deliver (mw_writer W) (response_headers e r) code body (mw, ml_upd ml f s))" for mw f
    using response_writer.core_outcome [OF mw_response_writer [OF response_writer_axioms] assms(1,2)] assms(3) by simp
  then show ?thesis
    using metrics_deliver [of r "mt_Path (cf_Metrics (se_cfg e))" "CoreMiddleware (se_core e) (Router_ServeHTTP (NewRouter e))" s] True assms(4)
    by (simp add: inner_handler_def counted_request_def [abs_def] not_metrics_def)
next
  case False
  then show ?thesis using core_outcome [OF assms(1-3)] by (simp add: inner_handler_def counted_request_def [abs_def] upd_id)
qed

end

lemma compression_outcome:
  assumes "route e (snd (request_id (se_core e) r)) \<noteq> RFiles" "outcome e r = (H, code, body)" "200 \<le> code"
    and "\<not> hinted (response_headers e r (w_Header world_writer s))" "not_metrics e r" "\<not> bs_wroteHeader (wd_base s)"
  shows "\<exists>n. CompressionMiddleware ge (inner_handler e world_lens) (inner_handler e (snd_lens world_lens)) r world_writer s =
    (False, ml_upd world_lens (counted_request e r code n) (deliver world_writer (response_headers e r) code body s))"
proof (cases "Contains (Header_Get (hr_Header r) ''Accept-Encoding'') ''gzip''")
  case False
  then show ?thesis using wld.inner_outcome [OF assms(1,2,4,5)] by (auto simp: CompressionMiddleware_def)
next
  case True
  let ?H = "response_headers e r" and ?W = "cw_writer world_writer"
  have "w_Header ?W (cw_initial, s) = w_Header world_writer s" by (simp add: cw_writer_def)
  then have "inner_handler e (snd_lens world_lens) r ?W (cw_initial, s) = (False, ml_upd (snd_lens world_lens)
      (counted_request e r code (delivered ?W ?H code body (cw_initial, s))) (deliver ?W ?H code body (cw_initial, s)))"
    using cmp.inner_outcome [OF assms(1,2) _ assms(5)] assms(4) by simp
  moreover have "cw_Close (gz_compress ge) world_writer (ml_upd (snd_lens world_lens) f st) = ml_upd world_lens f (cw_Close (gz_compress ge) world_writer st)" for f st
    by (cases st) (auto simp: cw_Close_def snd_lens_def wld.upd_Write wld.upd_WriteHeader split: option.splits bool.splits)
  moreover have "w_WriteHeader world_writer code (w_setHeader world_writer h s) =
      snd (w_Write world_writer [] (w_WriteHeader world_writer code (w_setHeader world_writer h s)))" for h
    using assms(3,6) by (simp add: world_writer_def base_WriteHeader_def base_Write_def Let_def)
  then have "cw_Close (gz_compress ge) world_writer (deliver ?W ?H code body (cw_initial, s)) = deliver world_writer ?H code body s"
    unfolding cw_deliver by (simp add: deliver_def)
  ultimately show ?thesis using True by (auto simp: CompressionMiddleware_def)
qed

definition first_headers :: "senv \<Rightarrow> header" where
  "first_headers e = (if sc_HTTP3 (cf_Server (se_cfg e)) then Header_Set ''Alt-Svc'' (AltSvcHeader 443) [] else [])"

lemma respond_outcome:
  assumes "route e (snd (request_id (se_core e) r)) \<noteq> RFiles" "outcome e r = (H, code, body)" "200 \<le> code"
    and "\<not> hinted (response_headers e r (first_headers e))" "not_metrics e r"
  shows "\<exists>n. respond e r m = (False,
    \<lparr>wd_base = \<lparr>bs_header = response_headers e r (first_headers e), bs_head = (hr_Method r = ''HEAD''), bs_wroteHeader = True,
        bs_status = code, bs_sent = response_headers e r (first_headers e), bs_info = [],
        bs_body = (if bodyAllowedForStatus code \<and> hr_Method r \<noteq> ''HEAD'' then body else [])\<rparr>,
     wd_metrics = counted_request e r code n m\<rparr>)"
proof -
  let ?s = "\<lparr>wd_base = (new_base (hr_Method r = ''HEAD''))\<lparr>bs_header := first_headers e\<rparr>, wd_metrics = m\<rparr>"
  have "respond e r m = CompressionMiddleware (se_gzip e) (inner_handler e world_lens) (inner_handler e (snd_lens world_lens)) r world_writer ?s"
    by (simp add: respond_def buildMiddleware_def AltSvcMiddleware_def header_set_def first_headers_def Let_def world_writer_def
        new_base_def)
  moreover obtain n where "CompressionMiddleware (se_gzip e) (inner_handler e world_lens) (inner_handler e (snd_lens world_lens)) r world_writer ?s =
    (False, ml_upd world_lens (counted_request e r code n) (deliver world_writer (response_headers e r) code body ?s))"
    using compression_outcome [OF assms(1-3) _ assms(5), of ?s] assms(4) by (auto simp: world_writer_def new_base_def)
  moreover have "wd_metrics (deliver world_writer (response_headers e r) code body ?s) = m"
    by (simp add: deliver_def world_writer_def case_prod_beta)
  ultimately show ?thesis
    using world_deliver [OF assms(3), where head = "hr_Method r = ''HEAD''"]
    by (intro exI [of _ n]) (auto simp: world_lens_def intro!: world.equality)
qed

subsection \<open>Early hints\<close>

text \<open>The same delivery, with a 103 sent before the status.\<close>

definition deliver_hint :: "'s writer \<Rightarrow> (header \<Rightarrow> header) \<Rightarrow> int \<Rightarrow> byte list \<Rightarrow> 's \<Rightarrow> 's" where
  "deliver_hint W H code body s =
     snd (w_Write W body (w_WriteHeader W code (w_WriteHeader W 103 (w_setHeader W (H (w_Header W s)) s))))"

context response_writer
begin

lemma rw_deliver_hint:
  assumes "hinted (H (w_Header W s))"
  shows "snd (deliver (rw_writer W) H code body (rw_initial, s)) = deliver_hint W H code body s"
  using assms
  by (simp add: deliver_def deliver_hint_def rw_writer_def rw_WriteHeader_def rw_Write_def rw_hints_def rw_initial_def hinted_def
      header_setHeader case_prod_beta)

lemma deliver_hint_after_set:
  "deliver_hint W H code body (header_set W k v s) = deliver_hint W (\<lambda>h. H (Header_Set k v h)) code body s"
  by (simp add: deliver_hint_def header_set_def header_setHeader setHeader_setHeader)

lemma core_hint:
  assumes "route e (snd (request_id (se_core e) r)) = RDeliver H code body"
    and "hinted (response_headers e r (w_Header W s))"
  shows "CoreMiddleware (se_core e) (Router_ServeHTTP (NewRouter e)) r W s = (False, deliver_hint W (response_headers e r) code body s)"
proof -
  note router = response_writer.router_route [OF rw_response_writer [OF response_writer_axioms], of e "snd (request_id (se_core e) r)"]
  have H: "response_headers e r = (\<lambda>h. H (Header_Set ''X-Request-ID'' (fst (request_id (se_core e) r)) h))"
    using assms(1) by (simp add: response_headers_def outcome_def fun_eq_iff)
  show ?thesis
    using router rw_deliver_hint [of H "header_set W ''X-Request-ID'' (fst (request_id (se_core e) r)) s" code body] assms
    unfolding H by (simp add: CoreMiddleware_def core_run_def logged_def case_prod_beta deliver_hint_after_set)
qed

end

context metrics_writer
begin

lemma mw_deliver_hint: "snd (deliver_hint (mw_writer W) H code body (mw, s)) = deliver_hint W H code body s"
  by (simp add: deliver_hint_def mw_writer_def mw_WriteHeader_def mw_Write_def case_prod_beta)

lemma deliver_hint_upd: "deliver_hint W H code body (ml_upd ml f s) = ml_upd ml f (deliver_hint W H code body s)"
  by (simp add: deliver_hint_def upd_header upd_setHeader upd_WriteHeader upd_Write)

lemma inner_hint:
  assumes "route e (snd (request_id (se_core e) r)) = RDeliver H code body"
    and "hinted (response_headers e r (w_Header W s))" "not_metrics e r"
  shows "\<exists>f. inner_handler e ml r W s = (False, ml_upd ml f (deliver_hint W (response_headers e r) code body s))"
proof (cases "mt_Enabled (cf_Metrics (se_cfg e))")
  case True
  have "w_Header (mw_writer W) (mw, ml_upd ml f s) = w_Header W s" for mw f by (simp add: mw_writer_def upd_header)
  then have "CoreMiddleware (se_core e) (Router_ServeHTTP (NewRouter e)) r (mw_writer W) (mw, ml_upd ml f s) =
      (False, deliver_hint (mw_writer W) (response_headers e r) code body (mw, ml_upd ml f s))" for mw f
    using response_writer.core_hint [OF mw_response_writer [OF response_writer_axioms] assms(1)] assms(2) by simp
  then show ?thesis
    using True assms(3)
    by (auto simp: inner_handler_def Metrics_Middleware_def not_metrics_def Let_def mw_deliver_hint deliver_hint_upd upd_upd case_prod_beta)
next
  case False
  then show ?thesis using core_hint [OF assms(1,2)] upd_id by (metis inner_handler_def)
qed

end

lemma cw_deliver_hint:
  "body \<noteq> [] \<Longrightarrow> cw_Close gzip world_writer (deliver_hint (cw_writer world_writer) H code body (cw_initial, s)) =
    snd (w_Write world_writer body (w_WriteHeader world_writer 103 (w_setHeader world_writer (H (w_Header world_writer s)) s)))"
  by (simp add: deliver_hint_def cw_writer_def cw_WriteHeader_def cw_Write_def cw_Close_def cw_initial_def compressMinSize_def Let_def)

lemma cw_Close_upd:
  "cw_Close gzip world_writer (ml_upd (snd_lens world_lens) f st) = ml_upd world_lens f (cw_Close gzip world_writer st)"
  by (cases st) (auto simp: cw_Close_def snd_lens_def wld.upd_Write wld.upd_WriteHeader split: option.splits bool.splits)

lemma world_upd_base [simp]: "wd_base (ml_upd world_lens f s) = wd_base s"
  by (simp add: world_lens_def)

lemma respond_hint:
  assumes "route e (snd (request_id (se_core e) r)) = RDeliver H code body" "not_metrics e r" "body \<noteq> []" "200 \<le> code"
    and "hinted (response_headers e r (first_headers e))"
  shows "map fst (bs_info (wd_base (snd (respond e r m)))) = [103] \<and>
    bs_status (wd_base (snd (respond e r m))) =
      (if Contains (Header_Get (hr_Header r) ''Accept-Encoding'') ''gzip'' then 200 else code)"
proof -
  let ?s = "\<lparr>wd_base = (new_base (hr_Method r = ''HEAD''))\<lparr>bs_header := first_headers e\<rparr>, wd_metrics = m\<rparr>"
  let ?H = "response_headers e r"
  have h: "w_Header world_writer ?s = first_headers e" "w_Header (cw_writer world_writer) (cw_initial, ?s) = first_headers e"
    by (simp_all add: cw_writer_def world_writer_def)
  have resp: "respond e r m = CompressionMiddleware (se_gzip e) (inner_handler e world_lens) (inner_handler e (snd_lens world_lens)) r world_writer ?s"
    by (simp add: respond_def buildMiddleware_def AltSvcMiddleware_def header_set_def first_headers_def Let_def world_writer_def
        new_base_def)
  show ?thesis
  proof (cases "Contains (Header_Get (hr_Header r) ''Accept-Encoding'') ''gzip''")
    case True
    obtain f where "inner_handler e (snd_lens world_lens) r (cw_writer world_writer) (cw_initial, ?s) =
        (False, ml_upd (snd_lens world_lens) f (deliver_hint (cw_writer world_writer) ?H code body (cw_initial, ?s)))"
      using cmp.inner_hint [OF assms(1) _ assms(2), of "(cw_initial, ?s)"] assms(5) h by auto
    then have "wd_base (snd (respond e r m)) = wd_base (snd (w_Write world_writer body
        (w_WriteHeader world_writer 103 (w_setHeader world_writer (?H (first_headers e)) ?s))))"
      using True cw_deliver_hint [OF assms(3)] h by (simp add: resp CompressionMiddleware_def cw_Close_upd)
    then show ?thesis
      using True assms(3) by (simp add: world_writer_def new_base_def base_WriteHeader_def base_Write_def Let_def)
  next
    case False
    obtain f where "inner_handler e world_lens r world_writer ?s =
        (False, ml_upd world_lens f (deliver_hint world_writer ?H code body ?s))"
      using wld.inner_hint [OF assms(1) _ assms(2), of ?s] assms(5) h by auto
    then have "wd_base (snd (respond e r m)) = wd_base (deliver_hint world_writer ?H code body ?s)"
      using False by (simp add: resp CompressionMiddleware_def)
    then show ?thesis
      using False assms(3,4)
      by (auto simp: deliver_hint_def world_writer_def new_base_def base_WriteHeader_def base_Write_def Let_def)
  qed
qed

end
