(* ===== verification/ServerProps.thy ===== *)
theory ServerProps
  imports ServerStack Listen
begin

text \<open>
  Properties of the HTTP server: what a client receives for a PHP response, a failure, a panic and a
  health check, the loss of a status under early hints, and what the server listens on.
\<close>

subsection \<open>What a client receives\<close>

definition doc_root :: "senv \<Rightarrow> string" where
  "doc_root e = (if ap_Root (cf_App (se_cfg e)) = '''' then ''.'' else ap_Root (cf_App (se_cfg e)))"

definition entry_point :: "senv \<Rightarrow> string" where
  "entry_point e = DetectEntryPoint (se_stat e) (doc_root e) (ap_Entry (cf_App (se_cfg e)))"

text \<open>A request that goes to PHP, and the context PHP gets.\<close>

definition php_context :: "senv \<Rightarrow> Request \<Rightarrow> Context option" where
  "php_context e r = NewContext (se_order e) (snd (request_id (se_core e) r)) (doc_root e) (entry_point e)"

definition goes_to_php :: "senv \<Rightarrow> Request \<Rightarrow> bool" where
  "goes_to_php e r \<longleftrightarrow> hr_Path r \<notin> {''/health'', ''/healthz'', ''/ready'', ''/readyz''} \<and> not_metrics e r \<and>
     (st_Root (cf_Static (se_cfg e)) = '''' \<or> \<not> isStaticFile (hr_Path r))"

definition run_php :: "senv \<Rightarrow> Request \<Rightarrow> exec_outcome" where
  "run_php e r = (case php_context e r of None \<Rightarrow> ExecPanicked | Some ctx \<Rightarrow> se_exec e ctx (Join [doc_root e, entry_point e]))"

lemma request_id_path [simp]: "hr_Path (snd (request_id rnd r)) = hr_Path r" "hr_Method (snd (request_id rnd r)) = hr_Method r"
  by (simp_all add: request_id_def Let_def)

lemma route_goes_to_php:
  assumes "goes_to_php e r"
  shows "route e (snd (request_id (se_core e) r)) =
    (case run_php e r of
       ExecPanicked \<Rightarrow> RPanic
     | ExecFail err \<Rightarrow> RDeliver error_headers 502 (bytes_of_string (''Internal Server Error: '' @ err @ [CHR 0x0A]))
     | ExecOk resp \<Rightarrow> RDeliver (fold (\<lambda>(k, v). Header_Set k v) (range_map (se_order e) (rp_Headers resp)))
         (rp_Status resp) (bytes_of_string (rp_Body resp)))"
  using assms
  by (auto simp: goes_to_php_def route_def route_php_def run_php_def php_context_def entry_point_def doc_root_def Let_def
      split: option.splits)

text \<open>No preload link among the headers, so that no early hints are sent.\<close>

lemma not_hinted_first: "\<not> hinted (first_headers e)"
proof -
  have "CanonicalHeaderKey ''Alt-Svc'' \<noteq> CanonicalHeaderKey ''Link''" by code_simp
  then show ?thesis by (simp add: first_headers_def hinted_def Values_Set) (simp add: Header_Values_def)
qed

lemma hinted_error_headers: "hinted (error_headers h) = hinted h"
proof -
  have k: "CanonicalHeaderKey ''X-Content-Type-Options'' \<noteq> CanonicalHeaderKey ''Link''"
    "CanonicalHeaderKey ''Content-Type'' \<noteq> CanonicalHeaderKey ''Link''"
    "CanonicalHeaderKey ''Content-Length'' \<noteq> CanonicalHeaderKey ''Link''"
    by code_simp+
  then show ?thesis by (simp add: hinted_def error_headers_def Values_Set Values_Del)
qed

lemma hinted_request_id: "hinted (Header_Set ''X-Request-ID'' i h) = hinted h"
proof -
  have "CanonicalHeaderKey ''X-Request-ID'' \<noteq> CanonicalHeaderKey ''Link''" by code_simp
  then show ?thesis by (simp add: hinted_def Values_Set)
qed


text \<open>
  C20: A failing PHP request never escapes as a broken connection: an error of the pool becomes a 502
  with the error's text, and a panic anywhere below the core middleware becomes a 500; the handler
  itself never panics, and with metrics on the request is counted under that status.
\<close>
theorem php_failures_are_5xx:
  assumes "goes_to_php e r" "run_php e r = ExecFail err \<or> run_php e r = ExecPanicked"
  shows "\<exists>b n. respond e r m = (False, \<lparr>wd_base = b, wd_metrics = counted_request e r (bs_status b) n m\<rparr>) \<and>
    bs_wroteHeader b \<and>
    bs_status b = (if run_php e r = ExecPanicked then 500 else 502) \<and>
    (hr_Method r \<noteq> ''HEAD'' \<longrightarrow> bs_body b = bytes_of_string
       (if run_php e r = ExecPanicked then ''Internal Server Error'' @ [CHR 0x0A]
        else ''Internal Server Error: '' @ err @ [CHR 0x0A]))"
proof -
  define code :: int where "code = (if run_php e r = ExecPanicked then 500 else 502)"
  define body where "body = bytes_of_string (if run_php e r = ExecPanicked then ''Internal Server Error'' @ [CHR 0x0A]
        else ''Internal Server Error: '' @ err @ [CHR 0x0A])"
  have out: "outcome e r = (error_headers, code, body)" "route e (snd (request_id (se_core e) r)) \<noteq> RFiles"
    using route_goes_to_php [OF assms(1)] assms(2) by (auto simp: outcome_def code_def body_def)
  have "not_metrics e r" using assms(1) by (simp add: goes_to_php_def)
  moreover have "\<not> hinted (response_headers e r (first_headers e))"
    using out(1) by (simp add: response_headers_def hinted_error_headers hinted_request_id not_hinted_first)
  moreover have "200 \<le> code" "bodyAllowedForStatus code" by (simp_all add: code_def bodyAllowedForStatus_def)
  ultimately obtain n where "respond e r m = (False,
    \<lparr>wd_base = \<lparr>bs_header = response_headers e r (first_headers e), bs_head = (hr_Method r = ''HEAD''), bs_wroteHeader = True,
        bs_status = code, bs_sent = response_headers e r (first_headers e), bs_info = [],
        bs_body = (if bodyAllowedForStatus code \<and> hr_Method r \<noteq> ''HEAD'' then body else [])\<rparr>,
     wd_metrics = counted_request e r code n m\<rparr>)"
    using respond_outcome [OF out(2,1)] by blast
  then show ?thesis using \<open>bodyAllowedForStatus code\<close>
    by (intro exI [of _ "wd_base (snd (respond e r m))"] exI [of _ n]) (simp add: code_def [symmetric] body_def [symmetric])
qed

definition demo_senv :: "exec_outcome \<Rightarrow> senv" where
  "demo_senv out = \<lparr>se_cfg = Default, se_exec = (\<lambda>_ _. out),
     se_stats = \<lparr>ps_totalWorkers = 0, ps_activeWorkers = 0, ps_busyWorkers = 0, ps_idleWorkers = 0, ps_totalRequests = 0\<rparr>,
     se_stat = (\<lambda>_. False), se_order = id, se_files = (\<lambda>_. []), se_liveJSON = ''{}'', se_readyJSON = (\<lambda>st _. st),
     se_core = \<lparr>ce_rnd = [], ce_buf = None, ce_rw = None\<rparr>, se_duration = 1000000,
     se_metrics = \<lparr>me_order = id, me_fmt6 = (\<lambda>_. ''0.000000''), me_goroutines = 1, me_alloc = 1, me_pool = None\<rparr>,
     se_gzip = \<lparr>gz_compress = (\<lambda>b. 31 # b), gz_pooled = Some (compressWriterPool_New\<lparr>cw_buf := [1]\<rparr>)\<rparr>\<rparr>"

definition gzip_request :: Request where
  "gzip_request = demo_request ''10.0.0.7:5123'' [(''Accept-Encoding'', [''gzip''])]"

definition demo_page :: "int \<Rightarrow> (string \<times> string) list \<Rightarrow> Response" where
  "demo_page status hs = \<lparr>rp_Status = status, rp_Headers = hs, rp_Body = ''page''\<rparr>"


theorem php_failures_are_5xx_witness:
  "bs_status (wd_base (snd (respond (demo_senv (ExecFail ''boom'')) gzip_request NewMetrics))) = 502 \<and>
   bs_status (wd_base (snd (respond (demo_senv ExecPanicked) gzip_request NewMetrics))) = 500"
proof -
  have "goes_to_php (demo_senv (ExecFail ''boom'')) gzip_request" "goes_to_php (demo_senv ExecPanicked) gzip_request"
    "run_php (demo_senv (ExecFail ''boom'')) gzip_request = ExecFail ''boom''" "run_php (demo_senv ExecPanicked) gzip_request = ExecPanicked"
    by code_simp+
  then show ?thesis
    using php_failures_are_5xx [of "demo_senv (ExecFail ''boom'')" gzip_request "''boom''" NewMetrics]
      php_failures_are_5xx [of "demo_senv ExecPanicked" gzip_request "''boom''" NewMetrics]
    by fastforce
qed

text \<open>
  C39: Early hints under compression lose the status. When PHP's headers hold a preload or preconnect
  link, the client gets a 103 first; a client that accepts gzip then gets status 200 whatever status
  PHP gave, because the compressing writer takes the 103 for the final header; a client that does not
  accept gzip gets PHP's status.
\<close>
theorem early_hints_lose_status:
  assumes "goes_to_php e r" "run_php e r = ExecOk resp" "200 \<le> rp_Status resp" "rp_Body resp \<noteq> ''''"
    and "headers = fold (\<lambda>(k, v). Header_Set k v) (range_map (se_order e) (rp_Headers resp))
      (Header_Set ''X-Request-ID'' (fst (request_id (se_core e) r)) (first_headers e))"
    and "list_ex is_hint (Header_Values headers ''Link'')"
  shows "map fst (bs_info (wd_base (snd (respond e r m)))) = [103] \<and>
    bs_status (wd_base (snd (respond e r m))) =
      (if Contains (Header_Get (hr_Header r) ''Accept-Encoding'') ''gzip'' then 200 else rp_Status resp)"
proof -
  note rt = route_goes_to_php [OF assms(1), unfolded assms(2), simplified]
  have "response_headers e r (first_headers e) = headers" by (simp add: response_headers_def outcome_def rt assms(5))
  moreover have "bytes_of_string (rp_Body resp) \<noteq> []" using assms(4) by (metis length_0_conv length_bytes_of_string)
  moreover have "not_metrics e r" using assms(1) by (simp add: goes_to_php_def)
  ultimately show ?thesis using respond_hint [OF rt _ _ assms(3)] assms(6) by (simp add: hinted_def)
qed

theorem early_hints_lose_status_witness:
  "bs_status (wd_base (snd (respond (demo_senv (ExecOk (demo_page 404 [(''Link'', ''</a.css>; rel=preload'')]))) gzip_request NewMetrics))) = 200"
proof -
  let ?resp = "demo_page 404 [(''Link'', ''</a.css>; rel=preload'')]"
  let ?e = "demo_senv (ExecOk ?resp)"
  let ?h = "fold (\<lambda>(k, v). Header_Set k v) (range_map (se_order ?e) (rp_Headers ?resp))
      (Header_Set ''X-Request-ID'' (fst (request_id (se_core ?e) gzip_request)) (first_headers ?e))"
  have "goes_to_php ?e gzip_request" by code_simp
  moreover have "run_php ?e gzip_request = ExecOk ?resp" by code_simp
  moreover have "list_ex is_hint (Header_Values ?h ''Link'')" by code_simp
  moreover have "Contains (Header_Get (hr_Header gzip_request) ''Accept-Encoding'') ''gzip''" by code_simp
  ultimately show ?thesis using early_hints_lose_status [of ?e gzip_request ?resp ?h NewMetrics] by (simp add: demo_page_def)
qed

text \<open>
  Readiness tells whether there are workers: \<open>/ready\<close> and \<open>/readyz\<close> answer 200 when the pool has a
  worker and 503 when it has none, and \<open>/health\<close> and \<open>/healthz\<close> always answer 200, through the whole
  stack, whatever the pool would do with a request.
\<close>
theorem health_endpoints:
  assumes "not_metrics e r" "hr_Path r \<in> {''/health'', ''/healthz'', ''/ready'', ''/readyz''}"
  shows "bs_status (wd_base (snd (respond e r m))) =
    (if hr_Path r \<in> {''/ready'', ''/readyz''} \<and> ps_totalWorkers (se_stats e) \<le> 0 then 503 else 200)"
proof -
  let ?code = "if hr_Path r \<in> {''/ready'', ''/readyz''} \<and> ps_totalWorkers (se_stats e) \<le> 0 then 503 else 200"
  obtain body where rt: "route e (snd (request_id (se_core e) r)) =
      RDeliver (Header_Set ''Content-Type'' ''application/json'') ?code body"
    using assms(2) by (auto simp: route_def Let_def)
  then have out: "outcome e r = (Header_Set ''Content-Type'' ''application/json'', ?code, body)" by (simp add: outcome_def)
  have "CanonicalHeaderKey ''Content-Type'' \<noteq> CanonicalHeaderKey ''Link''" by code_simp
  then have "hinted (Header_Set ''Content-Type'' v h) = hinted h" for v h by (simp add: hinted_def Values_Set)
  then have "\<not> hinted (response_headers e r (first_headers e))"
    by (simp add: response_headers_def out hinted_request_id not_hinted_first)
  then show ?thesis using respond_outcome [OF _ out _ _ assms(1), of m] rt by (auto split: if_splits)
qed

theorem health_endpoints_witness:
  "bs_status (wd_base (snd (respond (demo_senv ExecPanicked) (gzip_request\<lparr>hr_Path := ''/readyz''\<rparr>) NewMetrics))) = 503"
proof -
  have "not_metrics (demo_senv ExecPanicked) (gzip_request\<lparr>hr_Path := ''/readyz''\<rparr>)" by code_simp
  moreover have "ps_totalWorkers (se_stats (demo_senv ExecPanicked)) = 0" by (simp add: demo_senv_def)
  ultimately show ?thesis using health_endpoints [of "demo_senv ExecPanicked" "gzip_request\<lparr>hr_Path := ''/readyz''\<rparr>"] by simp
qed

subsection \<open>Listeners\<close>

definition tls_cfg :: "bool \<Rightarrow> Config" where
  "tls_cfg h3 = Default\<lparr>cf_Server := (cf_Server Default)\<lparr>sc_HTTP3 := h3,
     sc_TLS := (sc_TLS (cf_Server Default))\<lparr>tc_Cert := ''c.pem'', tc_Key := ''k.pem''\<rparr>\<rparr>\<rparr>"

text \<open>
  HTTP/3 is advertised without being served. With certificate files and \<^verbatim>\<open>http3: true\<close> no HTTP/3
  server is started, and still every health response of the stack carries the Alt-Svc header for
  port 443.
\<close>
theorem alt_svc_without_http3:
  assumes "sc_HTTP3 (cf_Server (se_cfg e))" "t = sc_TLS (cf_Server (se_cfg e))"
    and "tc_Cert t \<noteq> ''''" "tc_Key t \<noteq> ''''" "ac_Email (tc_ACME t) = ''''"
    and "not_metrics e r" "hr_Path r = ''/health''"
  shows "(\<exists>s. Server_Start te (Server_New (se_cfg e)) =
      Inr (\<lparr>ls_main = ListenAndServeTLS (tc_Cert t) (tc_Key t), ls_http3 = None\<rparr>, s)) \<and>
    Header_Get (bs_sent (wd_base (snd (respond e r m)))) ''Alt-Svc'' = AltSvcHeader 443"
proof -
  obtain body where rt: "route e (snd (request_id (se_core e) r)) =
      RDeliver (Header_Set ''Content-Type'' ''application/json'') 200 body"
    using assms(7) by (auto simp: route_def)
  then have out: "outcome e r = (Header_Set ''Content-Type'' ''application/json'', 200, body)" by (simp add: outcome_def)
  have "CanonicalHeaderKey ''Content-Type'' \<noteq> CanonicalHeaderKey ''Link''"
    "CanonicalHeaderKey ''Content-Type'' \<noteq> CanonicalHeaderKey ''Alt-Svc''"
    "CanonicalHeaderKey ''X-Request-ID'' \<noteq> CanonicalHeaderKey ''Alt-Svc''" by code_simp+
  then have "\<not> hinted (response_headers e r (first_headers e))"
    "Header_Get (response_headers e r (first_headers e)) ''Alt-Svc'' = AltSvcHeader 443"
    using not_hinted_first [of e] hinted_request_id assms(1)
    by (simp_all add: response_headers_def out first_headers_def Get_Set) (simp add: hinted_def Values_Set)
  then have "Header_Get (bs_sent (wd_base (snd (respond e r m)))) ''Alt-Svc'' = AltSvcHeader 443"
    using respond_outcome [OF _ out _ _ assms(6), of m] rt by auto
  moreover have "\<exists>s. Server_Start te (Server_New (se_cfg e)) =
      Inr (\<lparr>ls_main = ListenAndServeTLS (tc_Cert t) (tc_Key t), ls_http3 = None\<rparr>, s)"
    using assms(2-5) by (simp add: start_defs Let_def)
  ultimately show ?thesis by blast
qed

theorem alt_svc_without_http3_witness:
  "Header_Get (bs_sent (wd_base (snd (respond ((demo_senv ExecPanicked)\<lparr>se_cfg := tls_cfg True\<rparr>)
     (gzip_request\<lparr>hr_Path := ''/health''\<rparr>) NewMetrics)))) ''Alt-Svc'' = AltSvcHeader 443"
proof -
  have "not_metrics ((demo_senv ExecPanicked)\<lparr>se_cfg := tls_cfg True\<rparr>) (gzip_request\<lparr>hr_Path := ''/health''\<rparr>)" by code_simp
  then show ?thesis
    using alt_svc_without_http3 [of "(demo_senv ExecPanicked)\<lparr>se_cfg := tls_cfg True\<rparr>" _ "gzip_request\<lparr>hr_Path := ''/health''\<rparr>", OF _ refl]
    by (simp add: tls_cfg_def Default_def)
qed

end
