(* ===== verification/EndToEnd.thy ===== *)
theory EndToEnd
  imports Program ServerProps
begin

text \<open>
  The program, the pool and the HTTP stack together: what the client of a PHP request is sent, in any
  state the running program can be in.
\<close>

subsection \<open>From the client to the engine and back\<close>

text \<open>
  The pool as the server sees it: a result of \<open>Exec\<close> is a response, an error with a text, or a panic
  of the handler.
\<close>

definition pool_outcome :: "(exec_result \<Rightarrow> string) \<Rightarrow> exec_result \<Rightarrow> exec_outcome" where
  "pool_outcome errText res =
     (case res of ExecResp resp \<Rightarrow> ExecOk resp | ExecPanic \<Rightarrow> ExecPanicked | _ \<Rightarrow> ExecFail (errText res))"

text \<open>The engine's page, and the responses that a request carries.\<close>

definition engine_page :: "env \<Rightarrow> Response \<Rightarrow> bool" where
  "engine_page ev resp \<longleftrightarrow> (\<exists>version. resp = \<lparr>rp_Status = 200, rp_Headers = [(''Content-Type'', ''text/html; charset=utf-8'')],
     rp_Body = ReplaceAll (ev_placeholder ev) ''{{PHP_VERSION}}'' version\<rparr>)"

fun page_task :: "env \<Rightarrow> task \<Rightarrow> bool" where
  "page_task ev (TExec (XJobs r resp)) = engine_page ev resp"
| "page_task ev (TExec (XIdle r (ExecResp resp))) = engine_page ev resp"
| "page_task ev (TExec (XDone r (ExecResp resp))) = engine_page ev resp"
| "page_task ev (TExec (XReturn r (ExecResp resp))) = engine_page ev resp"
| "page_task ev (TExec (XLeave (ExecResp resp))) = engine_page ev resp"
| "page_task ev (TExec (XEnd (ExecResp resp))) = engine_page ev resp"
| "page_task ev t = True"

lemma run_engine_page: "run_engine ev w = Inr resp \<Longrightarrow> engine_page ev resp"
  by (auto simp: run_engine_def Execute_def engine_page_def split: if_splits)

lemma fire_page:
  assumes "fire ev ch ts t p = Some (p', t', new)" "page_task ev t"
  shows "page_task ev t' \<and> (\<forall>x \<in> set new. page_task ev x)"
proof (cases "\<exists>pc. t = TExec pc")
  case True
  then obtain pc where t: "t = TExec pc" ..
  with assms(1) have f: "Pool_Exec ev ch pc p = Some (p', t', new)" by simp
  show ?thesis
  proof (cases pc)
    case (XRun r)
    then show ?thesis using f by (auto dest: run_engine_page split: sum.splits)
  next
    case (XIdle r res)
    then show ?thesis using f t assms(2) by (cases res) auto
  next
    case (XDone r res)
    then show ?thesis using f t assms(2) by (cases res) (auto split: if_splits)
  next
    case (XReturn r res)
    then show ?thesis using f t assms(2) by (cases res) (auto elim!: send_then_SomeE)
  next
    case (XLeave res)
    then show ?thesis using f t assms(2) by (cases res) auto
  qed (use f t assms(2) in \<open>auto split: choice.splits recv_result.splits if_splits option.splits\<close>)
next
  case False
  then show ?thesis using assms(1)
    by (elim fire_elims) (auto elim!: fire_elims simp: comp_def split: fire_splits)
qed

lemma pages_step:
  assumes "app_step ev late a a'" "\<forall>t \<in> set (sy_tasks (mn_sys a)). page_task ev t"
  shows "\<forall>t \<in> set (sy_tasks (mn_sys a')). page_task ev t"
  using assms
proof (cases rule: app_step.cases)
  case (run ch i s)
  from run(2) obtain p' t' new where i: "i < length (sy_tasks (mn_sys a))"
    and f: "fire ev ch (sy_tasks (mn_sys a)) (sy_tasks (mn_sys a) ! i) (sy_pool (mn_sys a)) = Some (p', t', new)"
    and s: "s = \<lparr>sy_pool = p', sy_tasks = (sy_tasks (mn_sys a))[i := t'] @ new\<rparr>" by (rule sys_fireE)
  have "page_task ev t' \<and> (\<forall>x \<in> set new. page_task ev x)" using fire_page [OF f] assms(2) i by simp
  then have "\<forall>t \<in> set ((sy_tasks (mn_sys a))[i := t'] @ new). page_task ev t" by (intro ball_upd_app [OF i assms(2)]) auto
  then show ?thesis using run(1) by (simp add: s)
qed (auto simp: call_task_def)

lemma pages_init: "serve_init rd un path a \<Longrightarrow> \<forall>t \<in> set (sy_tasks (mn_sys a)). page_task ev t"
  by (auto simp: serve_init_def serve_def split: sum.splits)

interpretation pages: inductive_invariant "serve_init rd un path" "app_step ev late"
    "\<lambda>a. \<forall>t \<in> set (sy_tasks (mn_sys a)). page_task ev t"
  by unfold_locales (rule pages_init, assumption, rule pages_step)

lemma range_map_single: "range_order order \<Longrightarrow> range_map order [(k, v)] = [(k, v)]"
proof -
  assume "range_order order"
  then have "mset (order [k]) = {#k#}" by (simp add: range_order_def)
  then have "order [k] = [k]" by (metis mset_single_iff_right)
  then show ?thesis by (simp add: range_map_def)
qed



end
