(* ===== verification/ExtWorker.thy ===== *)
theory ExtWorker
  imports Wire Config "HOL-Library.Sublist"
begin

text \<open>
  The process-backed worker (\<^verbatim>\<open>internal/pool/worker.go\<close>): a PHP process and the two pipes to it. The
  process is what the operating system keeps of it: the bytes it was sent, whether its input is open,
  the bytes it wrote and how many of them were read, whether it has exited, by a signal or not, and
  whether \<^verbatim>\<open>Wait\<close> has collected it. A write of a frame is one write of the pipe and either all of it or nothing arrives;
  a read of a frame waits until the process has written the whole frame or ended. What a process does
  with its input is no part of this theory, except for \<open>sdk_run\<close>, the loop of the PHP SDK
  (\<^verbatim>\<open>php-sdk/src/Worker.php\<close>).
\<close>

subsection \<open>Processes and pipes\<close>

record proc =
  pr_env :: "string list"
  pr_in :: "byte list"
  pr_in_open :: bool
  pr_out :: "byte list"
  pr_pos :: nat
  pr_exited :: bool
  pr_signaled :: bool
  pr_waited :: bool

datatype pipe_error = FileClosed | BrokenPipe

definition pipe_write :: "proc \<Rightarrow> byte list \<Rightarrow> pipe_error option \<times> proc" where
  "pipe_write p b =
     (if \<not> pr_in_open p \<or> pr_waited p then (Some FileClosed, p)
      else if pr_exited p then (Some BrokenPipe, p)
      else (None, p\<lparr>pr_in := pr_in p @ b\<rparr>))"

definition send_frame :: "Frame \<Rightarrow> proc \<Rightarrow> pipe_error write_error option \<times> proc" where
  "send_frame f p = (let (err, p', _) = WriteFrame pipe_write [] p f in (err, p'))"

definition unread :: "proc \<Rightarrow> byte list" where
  "unread p = drop (pr_pos p) (pr_out p)"

text \<open>Errors of \<open>ReadFrame\<close> that only the end of the stream can cause.\<close>

fun cut_short :: "read_error + Frame \<Rightarrow> bool" where
  "cut_short (Inl (ErrReadHeader e)) = True"
| "cut_short (Inl (ErrReadData n e)) = True"
| "cut_short res = False"

datatype read_failure = PipeClosed | BadFrame read_error

definition recv_frame :: "proc \<Rightarrow> ((read_failure + Frame) \<times> proc) option" where
  "recv_frame p =
     (if pr_waited p then Some (Inl PipeClosed, p)
      else case ReadFrame (unread p) of
        (res, rest) \<Rightarrow>
          if cut_short res \<and> \<not> pr_exited p then None
          else Some (map_sum BadFrame id res, p\<lparr>pr_pos := length (pr_out p) - length rest\<rparr>))"

definition end_process :: "bool \<Rightarrow> proc \<Rightarrow> proc" where
  "end_process signaled p = (if pr_exited p then p else p\<lparr>pr_exited := True, pr_signaled := signaled\<rparr>)"

definition kill :: "proc \<Rightarrow> proc" where
  "kill p = end_process True p"

definition close_stdin :: "proc \<Rightarrow> proc" where
  "close_stdin p = p\<lparr>pr_in_open := False\<rparr>"

text \<open>\<^verbatim>\<open>cmd.Wait\<close> returns when the process has exited; it sets the process state and closes
  the pipes, which are closed to reads and writes from then on.\<close>

definition wait_process :: "proc \<Rightarrow> proc option" where
  "wait_process p = (if pr_exited p then Some (p\<lparr>pr_waited := True\<rparr>) else None)"

subsection \<open>The worker\<close>

datatype xstate = XIdle | XBusy | XStopped

record XWorker =
  xw_id :: int
  xw_proc :: proc
  xw_state :: xstate
  xw_jobs :: int64
  xw_mu :: bool

text \<open>The process as \<^verbatim>\<open>cmd.Start\<close> leaves it, and the worker built around it.\<close>

definition start_process :: "string list \<Rightarrow> proc" where
  "start_process env = \<lparr>pr_env = env, pr_in = [], pr_in_open = True, pr_out = [], pr_pos = 0,
     pr_exited = False, pr_signaled = False, pr_waited = False\<rparr>"

definition new_XWorker :: "int \<Rightarrow> string list \<Rightarrow> XWorker" where
  "new_XWorker wid env =
     \<lparr>xw_id = wid, xw_proc = start_process env, xw_state = XIdle, xw_jobs = 0, xw_mu = False\<rparr>"

datatype ready_error = NotReady read_failure | NotReadyType byte

text \<open>The wait for the ready frame, with which \<open>NewWorker\<close> ends; a failure kills the process.\<close>

definition await_ready :: "proc \<Rightarrow> (ready_error option \<times> proc) option" where
  "await_ready p =
     (case recv_frame p of
        None \<Rightarrow> None
      | Some (Inl err, p) \<Rightarrow> Some (Some (NotReady err), kill p)
      | Some (Inr f, p) \<Rightarrow>
          if fr_Type f \<noteq> TypeWorkerReady then Some (Some (NotReadyType (fr_Type f)), kill p)
          else Some (None, p))"

text \<open>The process state exists once \<^verbatim>\<open>Wait\<close> has returned; \<^verbatim>\<open>Exited\<close> is false of a process killed by a signal.\<close>

definition IsAlive :: "proc \<Rightarrow> bool" where
  "IsAlive p \<longleftrightarrow> \<not> pr_waited p \<or> pr_signaled p"

definition on_proc :: "(proc \<Rightarrow> proc) \<Rightarrow> XWorker \<Rightarrow> XWorker" where
  "on_proc f w = w\<lparr>xw_proc := f (xw_proc w)\<rparr>"

definition xstore_state :: "xstate \<Rightarrow> XWorker \<Rightarrow> XWorker" where
  "xstore_state st w = w\<lparr>xw_state := st\<rparr>"

definition xadd_job :: "XWorker \<Rightarrow> XWorker" where
  "xadd_job w = w\<lparr>xw_jobs := xw_jobs w + 1\<rparr>"

definition ExecStream :: "Frame \<Rightarrow> XWorker \<Rightarrow> pipe_error write_error option \<times> XWorker" where
  "ExecStream f w = (let (err, p) = send_frame f (xw_proc w) in (err, w\<lparr>xw_proc := p\<rparr>))"

text \<open>
  \<open>Ping\<close>: between the write and the read the process acts, which the argument \<open>react\<close> stands for. It may
  leave the read waiting; the timeout that the caller passes is not used.
\<close>

datatype ping_error = PingSend "pipe_error write_error" | PongRead read_failure | PongType byte

definition Ping :: "(proc \<Rightarrow> proc) \<Rightarrow> XWorker \<Rightarrow> (ping_error option \<times> XWorker) option" where
  "Ping react w =
     (case send_frame NewPingFrame (xw_proc w) of
        (Some err, p) \<Rightarrow> Some (Some (PingSend err), w\<lparr>xw_proc := p\<rparr>)
      | (None, p) \<Rightarrow>
          (case recv_frame (react p) of
             None \<Rightarrow> None
           | Some (Inl err, p) \<Rightarrow> Some (Some (PongRead err), w\<lparr>xw_proc := p\<rparr>)
           | Some (Inr f, p) \<Rightarrow>
               Some (if fr_Type f \<noteq> TypePing then Some (PongType (fr_Type f)) else None, w\<lparr>xw_proc := p\<rparr>)))"

subsection \<open>The SDK's loop\<close>

text \<open>
  What \<^verbatim>\<open>Worker::run\<close> writes for the frames it reads, \<open>answer\<close> being the application: a ready frame
  first, then for every request its answer and a ready frame; a ping is answered by a pong alone, a
  stop frame ends the loop, other frames are acknowledged by a ready frame. The limits on requests
  and memory, like a crash, end the process earlier: it has then written a part of this.
\<close>

definition sdk_ready :: Frame where
  "sdk_ready = \<lparr>fr_Type = TypeWorkerReady, fr_Flags = 0, fr_StreamID = 0, fr_Headers = [], fr_Payload = []\<rparr>"

definition sdk_pong :: Frame where
  "sdk_pong = \<lparr>fr_Type = TypePing, fr_Flags = 0, fr_StreamID = 0, fr_Headers = [], fr_Payload = bytes_of_string ''pong''\<rparr>"

fun sdk_loop :: "(Frame \<Rightarrow> Frame) \<Rightarrow> Frame list \<Rightarrow> Frame list" where
  "sdk_loop answer [] = []"
| "sdk_loop answer (f # fs) =
     (if fr_Type f = TypeWorkerStop then []
      else if fr_Type f = TypePing then sdk_pong # sdk_loop answer fs
      else (if fr_Type f = TypeRequest then [answer f] else []) @ sdk_ready # sdk_loop answer fs)"

definition sdk_run :: "(Frame \<Rightarrow> Frame) \<Rightarrow> Frame list \<Rightarrow> Frame list" where
  "sdk_run answer fs = sdk_ready # sdk_loop answer fs"

text \<open>The frames of an input, up to the first one that is incomplete or not a frame.\<close>

fun frames_fuel :: "nat \<Rightarrow> byte list \<Rightarrow> Frame list" where
  "frames_fuel 0 b = []"
| "frames_fuel (Suc n) b = (case ReadFrame b of (Inr f, rest) \<Rightarrow> f # frames_fuel n rest | (Inl err, rest) \<Rightarrow> [])"

definition frames_of :: "byte list \<Rightarrow> Frame list" where
  "frames_of b = frames_fuel (length b) b"

definition bytes :: "Frame list \<Rightarrow> byte list" where
  "bytes fs = concat (map frame_bytes fs)"

text \<open>A process that runs the SDK has written a part of what the loop writes for its input.\<close>

definition sdk_behaves :: "(Frame \<Rightarrow> Frame) \<Rightarrow> byte list \<Rightarrow> byte list \<Rightarrow> bool" where
  "sdk_behaves answer inp out = prefix out (bytes (sdk_run answer (frames_of inp)))"

subsection \<open>Frames through the pipes\<close>

lemma bytes_simps [simp]: "bytes [] = []" "bytes (f # fs) = frame_bytes f @ bytes fs" "bytes (fs @ gs) = bytes fs @ bytes gs"
  by (simp_all add: bytes_def)

lemma length_frame_bytes_pos: "14 \<le> length (frame_bytes f)"
  by (simp add: frame_bytes_def)

lemma frames_fuel_bytes: "length (bytes fs) \<le> n \<Longrightarrow> list_all frame_fits fs \<Longrightarrow> frames_fuel n (bytes fs) = fs"
proof (induction fs arbitrary: n)
  case Nil
  then show ?case by (cases n) (auto simp: ReadFrame_short split: prod.splits sum.splits dest: ReadFrame_InrD)
next
  case (Cons f fs)
  then obtain m where n: "n = Suc m" using length_frame_bytes_pos [of f] by (cases n) auto
  have "length (bytes fs) \<le> m" using Cons.prems(1) length_frame_bytes_pos [of f] by (simp add: n)
  then show ?case using Cons.IH [of m] Cons.prems(2) ReadFrame_fits [of f "bytes fs"] by (simp add: n)
qed

lemma frames_of_bytes [simp]: "list_all frame_fits fs \<Longrightarrow> frames_of (bytes fs) = fs"
  by (simp add: frames_of_def frames_fuel_bytes)

lemma sdk_loop_snoc:
  "sdk_loop answer (fs @ [f]) =
     sdk_loop answer fs @ (if list_ex (\<lambda>x. fr_Type x = TypeWorkerStop) fs then [] else sdk_loop answer [f])"
  by (induction fs) auto

lemma send_frame_eq: "send_frame f p = (let (err, p') = pipe_write p (frame_bytes f) in (map_option ErrWriting err, p'))"
  by (simp add: send_frame_def WriteFrame_eq split: prod.splits)

lemma map_sum_Inr_iff: "map_sum f id x = Inr y \<longleftrightarrow> x = Inr y"
  by (cases x) auto

lemma recv_frame_InrD:
  assumes "recv_frame p = Some (Inr f, p')" "pr_pos p \<le> length (pr_out p)"
  shows "frame_fits f \<and> p' = p\<lparr>pr_pos := pr_pos p + length (frame_bytes f)\<rparr> \<and>
    pr_out p = take (pr_pos p) (pr_out p) @ frame_bytes f @ drop (pr_pos p') (pr_out p) \<and>
    pr_pos p' \<le> length (pr_out p)"
proof -
  obtain rest where r: "ReadFrame (unread p) = (Inr f, rest)" "p' = p\<lparr>pr_pos := length (pr_out p) - length rest\<rparr>"
    using assms(1) by (auto simp: recv_frame_def map_sum_Inr_iff split: if_splits prod.splits)
  then have e: "unread p = frame_bytes f @ rest" "frame_fits f" using ReadFrame_InrD by blast+
  then have l: "length (pr_out p) = pr_pos p + length (frame_bytes f) + length rest"
    using assms(2) by (auto simp: unread_def dest!: arg_cong [of _ _ length])
  have "drop (pr_pos p + length (frame_bytes f)) (pr_out p) = rest"
    using e(1) by (metis add.commute append_eq_conv_conj drop_drop unread_def)
  then show ?thesis using r(2) e l append_take_drop_id [of "pr_pos p" "pr_out p"] by (simp add: unread_def)
qed

text \<open>
  Reading a frame from a process that has written a part of \<open>A @ frame_bytes g @ B\<close>, after \<open>A\<close> was
  read: the frame is \<open>g\<close>.
\<close>

lemma recv_frame_next:
  assumes "recv_frame p = Some (Inr f, p')" "pr_pos p \<le> length (pr_out p)" "frame_fits g"
    and "prefix (pr_out p) (A @ frame_bytes g @ B)" "pr_pos p = length A"
  shows "f = g \<and> p' = p\<lparr>pr_pos := length (A @ frame_bytes g)\<rparr>"
proof -
  have r: "frame_fits f" "p' = p\<lparr>pr_pos := pr_pos p + length (frame_bytes f)\<rparr>"
    "pr_out p = take (pr_pos p) (pr_out p) @ frame_bytes f @ drop (pr_pos p') (pr_out p)"
    using recv_frame_InrD [OF assms(1,2)] by blast+
  obtain C where "A @ frame_bytes g @ B = pr_out p @ C" using assms(4) by (auto simp: prefix_def)
  then have "A @ frame_bytes g @ B = take (pr_pos p) (pr_out p) @ frame_bytes f @ drop (pr_pos p') (pr_out p) @ C"
    using r(3) by (metis append.assoc)
  then have "frame_bytes g @ B = frame_bytes f @ drop (pr_pos p') (pr_out p) @ C"
    using assms(2,5) by (simp add: append_eq_append_conv)
  then have "f = g" using frame_bytes_inj [OF assms(3) r(1)] by blast
  then show ?thesis using r(2) assms(5) by simp
qed

lemma recv_frame_nothing:
  assumes "recv_frame p = Some (Inr f, p')" "pr_pos p \<le> length (pr_out p)"
    and "prefix (pr_out p) A" "pr_pos p = length A"
  shows False
proof -
  have "pr_pos p + length (frame_bytes f) \<le> length (pr_out p)" using recv_frame_InrD [OF assms(1,2)] by auto
  then show False using assms(3,4) length_frame_bytes_pos [of f] prefix_length_le [of "pr_out p" A] by simp
qed

end
