(* ===== verification/ExtPool.thy ===== *)
theory ExtPool
  imports ExtWorker GoChan GoMap GoStrings
begin

text \<open>
  The pool of worker processes (\<^verbatim>\<open>internal/pool/pool.go\<close>). As for the embedded pool, every function
  that runs in a goroutine is a program counter and a transition function; a system is the pool and
  its goroutines. \<open>spawnWorker\<close> and the worker's \<open>Stop\<close> are routines that several goroutines call step
  by step. A result channel of \<open>Exec\<close> is a slot, which names the worker and the request of the
  goroutine that fills it and holds the result until it is received; the channel on which \<open>Stop\<close>
  waits for a process is a flag. The processes act between these steps: they write output, within
  what \<open>behaves\<close> allows for their input, and they exit.
\<close>

subsection \<open>The pool\<close>

datatype exec_error = SendErr "pipe_error write_error" | RecvErr read_failure

record slot =
  sl_worker :: nat
  sl_req :: Frame
  sl_buf :: "(exec_error + Frame) option"

record XPool =
  xp_cfg :: PoolConfig
  xp_php :: PHPConfig
  xp_workers :: "nat list"
  xp_available :: "nat chan"
  xp_nextID :: "32 word"
  xp_cancelled :: bool
  xp_totalRequests :: int64
  xp_activeWorkers :: "32 word"
  xp_busyWorkers :: "32 word"
  xp_heap :: "XWorker list"
  xp_slots :: "slot list"
  xp_waits :: "bool list"

definition XPool_New :: "PoolConfig \<Rightarrow> PHPConfig \<Rightarrow> XPool" where
  "XPool_New cfg php =
     \<lparr>xp_cfg = cfg, xp_php = php, xp_workers = [], xp_available = make_chan (nat (po_MaxWorkers cfg)),
      xp_nextID = 0, xp_cancelled = False, xp_totalRequests = 0, xp_activeWorkers = 0, xp_busyWorkers = 0,
      xp_heap = [], xp_slots = [], xp_waits = []\<rparr>"

definition xworker :: "XPool \<Rightarrow> nat \<Rightarrow> XWorker" where
  "xworker p r = xp_heap p ! r"

definition xproc :: "XPool \<Rightarrow> nat \<Rightarrow> proc" where
  "xproc p r = xw_proc (xp_heap p ! r)"

definition xupd :: "nat \<Rightarrow> (XWorker \<Rightarrow> XWorker) \<Rightarrow> XPool \<Rightarrow> XPool" where
  "xupd r f p = p\<lparr>xp_heap := (xp_heap p)[r := f (xp_heap p ! r)]\<rparr>"

record XPoolStats =
  xs_TotalWorkers :: int
  xs_ActiveWorkers :: int
  xs_BusyWorkers :: int
  xs_IdleWorkers :: int
  xs_TotalRequests :: int
  xs_QueueDepth :: int

definition XStats :: "XPool \<Rightarrow> XPoolStats" where
  "XStats p =
     (let total = int (length (xp_workers p))
      in \<lparr>xs_TotalWorkers = total, xs_ActiveWorkers = sint (xp_activeWorkers p),
          xs_BusyWorkers = sint (xp_busyWorkers p), xs_IdleWorkers = total - sint (xp_busyWorkers p),
          xs_TotalRequests = sint (xp_totalRequests p), xs_QueueDepth = int (length (ch_buf (xp_available p)))\<rparr>)"

definition needsRecycle :: "nat \<Rightarrow> XPool \<Rightarrow> bool" where
  "needsRecycle r p \<longleftrightarrow> po_MaxJobs (xp_cfg p) > 0 \<and> sint (xw_jobs (xworker p r)) \<ge> po_MaxJobs (xp_cfg p)"

text \<open>\<open>order\<close> is the order in which \<^verbatim>\<open>range\<close> visits the INI settings.\<close>

definition buildEnv :: "(string list \<Rightarrow> string list) \<Rightarrow> XPool \<Rightarrow> string list" where
  "buildEnv order p =
     (if po_MaxJobs (xp_cfg p) > 0 then [''MAX_REQUESTS='' @ show_int (po_MaxJobs (xp_cfg p))] else []) @
     map (\<lambda>(k, v). ''PHP_INI_'' @ k @ ''='' @ v) (range_map order (ph_INI (xp_php p)))"

fun xremove_id :: "XWorker list \<Rightarrow> int \<Rightarrow> nat list \<Rightarrow> nat list option" where
  "xremove_id h wid [] = None"
| "xremove_id h wid (r # rs) =
     (if xw_id (h ! r) = wid then Some rs else map_option ((#) r) (xremove_id h wid rs))"

definition xremoveWorker :: "nat \<Rightarrow> XPool \<Rightarrow> XPool" where
  "xremoveWorker r p =
     (case xremove_id (xp_heap p) (xw_id (xworker p r)) (xp_workers p) of
        None \<Rightarrow> p
      | Some rs \<Rightarrow> p\<lparr>xp_workers := rs, xp_activeWorkers := xp_activeWorkers p - 1\<rparr>)"

subsection \<open>Choices\<close>

text \<open>What a step may choose: to proceed, a timeout or the cancelled context of a \<^verbatim>\<open>select\<close>, or that a
  process cannot be started.\<close>

datatype xchoice = Ready | TimedOut | Cancelled | StartFails

subsection \<open>spawnWorker\<close>

datatype spawn_error = StartFailed | ReadyFailed ready_error

datatype spawn_pc = NStart | NReady nat | NPublish nat

datatype spawn_out = SMore spawn_pc | SErr spawn_error | SOk nat

fun xspawnWorker :: "(string list \<Rightarrow> string list) \<Rightarrow> xchoice \<Rightarrow> spawn_pc \<Rightarrow> XPool \<Rightarrow> (XPool \<times> spawn_out) option" where
  "xspawnWorker order ch NStart p =
     (let wid = xp_nextID p + 1; p = p\<lparr>xp_nextID := wid\<rparr>
      in if ch = StartFails then Some (p, SErr StartFailed)
         else Some (p\<lparr>xp_heap := xp_heap p @ [new_XWorker (sint wid) (buildEnv order p)]\<rparr>, SMore (NReady (length (xp_heap p)))))"
| "xspawnWorker order ch (NReady r) p =
     (case await_ready (xproc p r) of
        None \<Rightarrow> None
      | Some (err, pr) \<Rightarrow>
          Some (xupd r (on_proc (\<lambda>_. pr)) p, case err of None \<Rightarrow> SMore (NPublish r) | Some e \<Rightarrow> SErr (ReadyFailed e)))"
| "xspawnWorker order ch (NPublish r) p =
     Some (p\<lparr>xp_workers := xp_workers p @ [r], xp_activeWorkers := xp_activeWorkers p + 1\<rparr>, SOk r)"

subsection \<open>The worker's Stop\<close>

datatype kpc = KState | KWrite | KClose | KFork | KWait nat

datatype stop_out = KMore kpc | KFork_waiter kpc nat | KDone

fun xStop :: "xchoice \<Rightarrow> nat \<Rightarrow> kpc \<Rightarrow> XPool \<Rightarrow> (XPool \<times> stop_out) option" where
  "xStop ch r KState p = Some (xupd r (xstore_state XStopped) p, KMore KWrite)"
| "xStop ch r KWrite p = Some (xupd r (on_proc (\<lambda>pr. snd (send_frame NewWorkerStopFrame pr))) p, KMore KClose)"
| "xStop ch r KClose p = Some (xupd r (on_proc close_stdin) p, KMore KFork)"
| "xStop ch r KFork p =
     Some (p\<lparr>xp_waits := xp_waits p @ [False]\<rparr>, KFork_waiter (KWait (length (xp_waits p))) (length (xp_waits p)))"
| "xStop ch r (KWait d) p =
     (case ch of
        Ready \<Rightarrow> if xp_waits p ! d then Some (p, KDone) else None
      | TimedOut \<Rightarrow> Some (xupd r (on_proc kill) p, KDone)
      | _ \<Rightarrow> None)"

subsection \<open>Goroutines\<close>

datatype xresult =
    Resp Frame
  | RequestTimeout
  | ExecFailed exec_error
  | NoWorker
  | ShuttingDown
  | SendPanic
  | NilCrash

datatype xstart_pc = SLoop nat | SSpawn nat spawn_pc | SSend nat nat | SFork | SEnd "spawn_error option" | SPanic

datatype xexec_pc =
    EEnter
  | ESelect
  | EGot "nat option"
  | EGo nat
  | EWait nat nat
  | EDecide nat Frame
  | EReady nat Frame
  | EReturn nat Frame
  | ELeave xresult
  | EEnd xresult

datatype run_pc =
    RLock nat Frame nat
  | RBusy nat Frame nat
  | RWrite nat Frame nat
  | RRead nat Frame nat
  | RIdle nat Frame nat "exec_error + Frame"
  | RJobs nat Frame nat "exec_error + Frame"
  | RUnlock nat Frame nat "exec_error + Frame"
  | RSend nat Frame nat "exec_error + Frame"
  | REnd
  | RCrash

datatype xrepl_pc = QStop nat kpc | QRemove nat | QCheck | QSpawn spawn_pc | QSend nat | QEnd | QPanic

datatype watch_pc =
    WTick
  | WSnap
  | WState "nat list"
  | WAlive nat "nat list"
  | WTotal
  | WBusy int
  | WUp int int
  | WSpawn int int spawn_pc
  | WSend int int nat
  | WDown int int
  | WEnd
  | WPanic

datatype xstopper_pc = OStop nat kpc | ORemove nat | OEnd | OCrash

datatype xreload_pc =
    LSnap
  | LLoop "nat list" "nat list" nat
  | LSpawn "nat list" "nat list" nat spawn_pc
  | LSend "nat list" "nat list" nat nat
  | LFail "nat list" spawn_error
  | LAbort nat kpc "nat list" spawn_error
  | LEnd "spawn_error option"
  | LPanic

datatype xdrain_pc = DWait "nat list" | DStop nat kpc "nat list" | DRemove nat "nat list" | DEnd

datatype xwg_pc = GStop nat kpc | GEnd

datatype xstop_pc = HCancel | HSnap | HWait "nat list" | HClose | HEnd | HPanic

datatype waiter_pc = VWait nat nat | VEnd

datatype xtask =
    XStart xstart_pc
  | XExec Frame xexec_pc
  | XRun run_pc
  | XRepl xrepl_pc
  | XWatch watch_pc
  | XStopper xstopper_pc
  | XReload xreload_pc
  | XDrain xdrain_pc
  | XWg xwg_pc
  | XStop xstop_pc
  | XWaiter waiter_pc

type_synonym xfired = "(XPool \<times> xtask \<times> xtask list) option"

definition xsend_then :: "nat \<Rightarrow> XPool \<Rightarrow> xtask \<Rightarrow> xtask \<Rightarrow> xfired" where
  "xsend_then r p sent panicked =
     (case chan_send r (xp_available p) of
        Sent c \<Rightarrow> Some (p\<lparr>xp_available := c\<rparr>, sent, [])
      | SendBlocks \<Rightarrow> None
      | SendPanics \<Rightarrow> Some (p, panicked, []))"

text \<open>A goroutine inside \<open>spawnWorker\<close>, or inside the \<open>Stop\<close> of a worker, and where it goes from there.\<close>

definition spawning :: "(XPool \<times> spawn_out) option \<Rightarrow> (spawn_pc \<Rightarrow> xtask) \<Rightarrow> (spawn_error \<Rightarrow> xtask) \<Rightarrow> (nat \<Rightarrow> xtask) \<Rightarrow> xfired" where
  "spawning out cont failed spawned =
     (case out of
        None \<Rightarrow> None
      | Some (p, SMore pc) \<Rightarrow> Some (p, cont pc, [])
      | Some (p, SErr err) \<Rightarrow> Some (p, failed err, [])
      | Some (p, SOk r) \<Rightarrow> Some (p, spawned r, []))"

definition stopping :: "nat \<Rightarrow> (XPool \<times> stop_out) option \<Rightarrow> (kpc \<Rightarrow> xtask) \<Rightarrow> xtask \<Rightarrow> xfired" where
  "stopping r out cont stopped =
     (case out of
        None \<Rightarrow> None
      | Some (p, KMore pc) \<Rightarrow> Some (p, cont pc, [])
      | Some (p, KFork_waiter pc d) \<Rightarrow> Some (p, cont pc, [XWaiter (VWait r d)])
      | Some (p, KDone) \<Rightarrow> Some (p, stopped, []))"

subsection \<open>Exec\<close>

text \<open>The worker's \<open>Exec\<close>, in the goroutine that the pool's \<open>Exec\<close> starts.\<close>

fun xrun :: "run_pc \<Rightarrow> XPool \<Rightarrow> xfired" where
  "xrun (RLock r req d) p =
     (if xw_mu (xworker p r) then None else Some (xupd r (\<lambda>w. w\<lparr>xw_mu := True\<rparr>) p, XRun (RBusy r req d), []))"
| "xrun (RBusy r req d) p = Some (xupd r (xstore_state XBusy) p, XRun (RWrite r req d), [])"
| "xrun (RWrite r req d) p =
     (case send_frame req (xproc p r) of
        (err, pr) \<Rightarrow>
          Some (xupd r (on_proc (\<lambda>_. pr)) p,
            XRun (case err of Some e \<Rightarrow> RIdle r req d (Inl (SendErr e)) | None \<Rightarrow> RRead r req d), []))"
| "xrun (RRead r req d) p =
     (case recv_frame (xproc p r) of
        None \<Rightarrow> None
      | Some (res, pr) \<Rightarrow> Some (xupd r (on_proc (\<lambda>_. pr)) p, XRun (RIdle r req d (map_sum RecvErr id res)), []))"
| "xrun (RIdle r req d res) p = Some (xupd r (xstore_state XIdle) p, XRun (RJobs r req d res), [])"
| "xrun (RJobs r req d res) p = Some (xupd r xadd_job p, XRun (RUnlock r req d res), [])"
| "xrun (RUnlock r req d res) p = Some (xupd r (\<lambda>w. w\<lparr>xw_mu := False\<rparr>) p, XRun (RSend r req d res), [])"
| "xrun (RSend r req d res) p =
     Some (p\<lparr>xp_slots := (xp_slots p)[d := (xp_slots p ! d)\<lparr>sl_buf := Some res\<rparr>]\<rparr>, XRun REnd, [])"
| "xrun REnd p = None"
| "xrun RCrash p = None"

fun XPool_Exec :: "xchoice \<Rightarrow> Frame \<Rightarrow> xexec_pc \<Rightarrow> XPool \<Rightarrow> xfired" where
  "XPool_Exec ch req EEnter p = Some (p\<lparr>xp_totalRequests := xp_totalRequests p + 1\<rparr>, XExec req ESelect, [])"
| "XPool_Exec ch req ESelect p =
     (case ch of
        Ready \<Rightarrow>
          (case chan_recv (xp_available p) of
             Received r c \<Rightarrow> Some (p\<lparr>xp_available := c\<rparr>, XExec req (EGot (Some r)), [])
           | RecvZero \<Rightarrow> Some (p, XExec req (EGot None), [])
           | RecvBlocks \<Rightarrow> None)
      | TimedOut \<Rightarrow> Some (p, XExec req (EEnd NoWorker), [])
      | Cancelled \<Rightarrow> if xp_cancelled p then Some (p, XExec req (EEnd ShuttingDown), []) else None
      | StartFails \<Rightarrow> None)"
| "XPool_Exec ch req (EGot w) p =
     (let p = p\<lparr>xp_busyWorkers := xp_busyWorkers p + 1\<rparr>
      in case w of
        Some r \<Rightarrow> Some (p, XExec req (EGo r), [])
      | None \<Rightarrow> Some (p, XExec req (ELeave NilCrash), [XRun RCrash]))"
| "XPool_Exec ch req (EGo r) p =
     (let d = length (xp_slots p)
      in Some (p\<lparr>xp_slots := xp_slots p @ [\<lparr>sl_worker = r, sl_req = req, sl_buf = None\<rparr>]\<rparr>,
           XExec req (EWait r d), [XRun (RLock r req d)]))"
| "XPool_Exec ch req (EWait r d) p =
     (case ch of
        Ready \<Rightarrow>
          (case sl_buf (xp_slots p ! d) of
             None \<Rightarrow> None
           | Some res \<Rightarrow>
               (let p = p\<lparr>xp_slots := (xp_slots p)[d := (xp_slots p ! d)\<lparr>sl_buf := None\<rparr>]\<rparr>
                in case res of
                  Inl err \<Rightarrow> Some (p, XExec req (ELeave (ExecFailed err)), [XRepl (QStop r KState)])
                | Inr f \<Rightarrow> Some (p, XExec req (EDecide r f), [])))
      | TimedOut \<Rightarrow>
          if po_RequestTimeout (xp_cfg p) > 0
          then Some (p, XExec req (ELeave RequestTimeout), [XRepl (QStop r KState)]) else None
      | Cancelled \<Rightarrow>
          if po_RequestTimeout (xp_cfg p) > 0 \<and> xp_cancelled p
          then Some (p, XExec req (ELeave ShuttingDown), []) else None
      | StartFails \<Rightarrow> None)"
| "XPool_Exec ch req (EDecide r f) p =
     (if needsRecycle r p then Some (p, XExec req (ELeave (Resp f)), [XRepl (QStop r KState)])
      else Some (p, XExec req (EReady r f), []))"
| "XPool_Exec ch req (EReady r f) p =
     (case recv_frame (xproc p r) of
        None \<Rightarrow> None
      | Some (res, pr) \<Rightarrow>
          (let p = xupd r (on_proc (\<lambda>_. pr)) p
           in case res of
             Inl err \<Rightarrow> Some (p, XExec req (ELeave (Resp f)), [XRepl (QStop r KState)])
           | Inr ready \<Rightarrow>
               if fr_Type ready \<noteq> TypeWorkerReady
               then Some (p, XExec req (ELeave (Resp f)), [XRepl (QStop r KState)])
               else Some (p, XExec req (EReturn r f), [])))"
| "XPool_Exec ch req (EReturn r f) p = xsend_then r p (XExec req (ELeave (Resp f))) (XExec req (ELeave SendPanic))"
| "XPool_Exec ch req (ELeave res) p = Some (p\<lparr>xp_busyWorkers := xp_busyWorkers p - 1\<rparr>, XExec req (EEnd res), [])"
| "XPool_Exec ch req (EEnd res) p = None"

subsection \<open>replaceWorker\<close>

fun xreplaceWorker :: "(string list \<Rightarrow> string list) \<Rightarrow> xchoice \<Rightarrow> xrepl_pc \<Rightarrow> XPool \<Rightarrow> xfired" where
  "xreplaceWorker order ch (QStop r k) p = stopping r (xStop ch r k p) (\<lambda>k. XRepl (QStop r k)) (XRepl (QRemove r))"
| "xreplaceWorker order ch (QRemove r) p = Some (xremoveWorker r p, XRepl QCheck, [])"
| "xreplaceWorker order ch QCheck p = Some (p, XRepl (if xp_cancelled p then QEnd else QSpawn NStart), [])"
| "xreplaceWorker order ch (QSpawn s) p =
     spawning (xspawnWorker order ch s p) (\<lambda>s. XRepl (QSpawn s)) (\<lambda>err. XRepl QEnd) (\<lambda>r. XRepl (QSend r))"
| "xreplaceWorker order ch (QSend r) p = xsend_then r p (XRepl QEnd) (XRepl QPanic)"
| "xreplaceWorker order ch QEnd p = None"
| "xreplaceWorker order ch QPanic p = None"

subsection \<open>The watchdog: checkHealth and autoScale\<close>

text \<open>The percentages are compared as in the embedded pool, exactly.\<close>

fun xwatchdog :: "(string list \<Rightarrow> string list) \<Rightarrow> xchoice \<Rightarrow> watch_pc \<Rightarrow> XPool \<Rightarrow> xfired" where
  "xwatchdog order ch WTick p =
     (case ch of
        Ready \<Rightarrow> Some (p, XWatch WSnap, [])
      | Cancelled \<Rightarrow> if xp_cancelled p then Some (p, XWatch WEnd, []) else None
      | _ \<Rightarrow> None)"
| "xwatchdog order ch WSnap p = Some (p, XWatch (WState (xp_workers p)), [])"
| "xwatchdog order ch (WState []) p = Some (p, XWatch WTotal, [])"
| "xwatchdog order ch (WState (r # rs)) p =
     (if xw_state (xworker p r) = XBusy then Some (p, XWatch (WState rs), [])
      else Some (p, XWatch (WAlive r rs), []))"
| "xwatchdog order ch (WAlive r rs) p =
     Some (p, XWatch (WState rs), if IsAlive (xproc p r) then [] else [XRepl (QStop r KState)])"
| "xwatchdog order ch WTotal p = Some (p, XWatch (WBusy (xs_TotalWorkers (XStats p))), [])"
| "xwatchdog order ch (WBusy tot) p = Some (p, XWatch (WUp tot (xs_BusyWorkers (XStats p))), [])"
| "xwatchdog order ch (WUp tot busy) p =
     (if tot > 0 then
        if busy * 100 \<ge> 80 * tot \<and> tot < po_MaxWorkers (xp_cfg p)
        then Some (p, XWatch (WSpawn tot busy NStart), [])
        else Some (p, XWatch (WDown tot busy), [])
      else Some (p, XWatch WTick, []))"
| "xwatchdog order ch (WSpawn tot busy s) p =
     spawning (xspawnWorker order ch s p) (\<lambda>s. XWatch (WSpawn tot busy s)) (\<lambda>err. XWatch WTick)
       (\<lambda>r. XWatch (WSend tot busy r))"
| "xwatchdog order ch (WSend tot busy r) p = xsend_then r p (XWatch (WDown tot busy)) (XWatch WPanic)"
| "xwatchdog order ch (WDown tot busy) p =
     (if busy * 100 \<le> 20 * tot \<and> tot > po_MinWorkers (xp_cfg p) then
        (case chan_recv (xp_available p) of
           Received r c \<Rightarrow> Some (p\<lparr>xp_available := c\<rparr>, XWatch WTick, [XStopper (OStop r KState)])
         | RecvZero \<Rightarrow> Some (p, XWatch WTick, [XStopper OCrash])
         | RecvBlocks \<Rightarrow> Some (p, XWatch WTick, []))
      else Some (p, XWatch WTick, []))"
| "xwatchdog order ch WEnd p = None"
| "xwatchdog order ch WPanic p = None"

fun xstop_idle :: "xchoice \<Rightarrow> xstopper_pc \<Rightarrow> XPool \<Rightarrow> xfired" where
  "xstop_idle ch (OStop r k) p = stopping r (xStop ch r k p) (\<lambda>k. XStopper (OStop r k)) (XStopper (ORemove r))"
| "xstop_idle ch (ORemove r) p = Some (xremoveWorker r p, XStopper OEnd, [])"
| "xstop_idle ch OEnd p = None"
| "xstop_idle ch OCrash p = None"

subsection \<open>Reload\<close>

fun xReload :: "(string list \<Rightarrow> string list) \<Rightarrow> xchoice \<Rightarrow> xreload_pc \<Rightarrow> XPool \<Rightarrow> xfired" where
  "xReload order ch LSnap p = Some (p, XReload (LLoop (xp_workers p) [] (nat (po_MinWorkers (xp_cfg p)))), [])"
| "xReload order ch (LLoop old news (Suc k)) p = Some (p, XReload (LSpawn old news k NStart), [])"
| "xReload order ch (LLoop old news 0) p = Some (p, XReload (LEnd None), [XDrain (DWait old)])"
| "xReload order ch (LSpawn old news k s) p =
     spawning (xspawnWorker order ch s p) (\<lambda>s. XReload (LSpawn old news k s)) (\<lambda>err. XReload (LFail news err))
       (\<lambda>r. XReload (LSend old (news @ [r]) k r))"
| "xReload order ch (LSend old news k r) p = xsend_then r p (XReload (LLoop old news k)) (XReload LPanic)"
| "xReload order ch (LFail [] err) p = Some (p, XReload (LEnd (Some err)), [])"
| "xReload order ch (LFail (r # rs) err) p = Some (p, XReload (LAbort r KState rs err), [])"
| "xReload order ch (LAbort r k rs err) p =
     stopping r (xStop ch r k p) (\<lambda>k. XReload (LAbort r k rs err)) (XReload (LFail rs err))"
| "xReload order ch (LEnd e) p = None"
| "xReload order ch LPanic p = None"

fun xdrain_old :: "xchoice \<Rightarrow> xdrain_pc \<Rightarrow> XPool \<Rightarrow> xfired" where
  "xdrain_old ch (DWait []) p = Some (p, XDrain DEnd, [])"
| "xdrain_old ch (DWait (r # rs)) p =
     (if xw_state (xworker p r) = XBusy then None else Some (p, XDrain (DStop r KState rs), []))"
| "xdrain_old ch (DStop r k rs) p = stopping r (xStop ch r k p) (\<lambda>k. XDrain (DStop r k rs)) (XDrain (DRemove r rs))"
| "xdrain_old ch (DRemove r rs) p = Some (xremoveWorker r p, XDrain (DWait rs), [])"
| "xdrain_old ch DEnd p = None"

subsection \<open>Stop\<close>

fun xstop_one :: "xchoice \<Rightarrow> xwg_pc \<Rightarrow> XPool \<Rightarrow> xfired" where
  "xstop_one ch (GStop r k) p = stopping r (xStop ch r k p) (\<lambda>k. XWg (GStop r k)) (XWg GEnd)"
| "xstop_one ch GEnd p = None"

fun XPool_Stop :: "xtask list \<Rightarrow> xstop_pc \<Rightarrow> XPool \<Rightarrow> xfired" where
  "XPool_Stop ts HCancel p = Some (p\<lparr>xp_cancelled := True\<rparr>, XStop HSnap, [])"
| "XPool_Stop ts HSnap p =
     Some (p, XStop (HWait [length ts ..< length ts + length (xp_workers p)]),
       map (\<lambda>r. XWg (GStop r KState)) (xp_workers p))"
| "XPool_Stop ts (HWait gs) p =
     (if list_all (\<lambda>g. ts ! g = XWg GEnd) gs then Some (p, XStop HClose, []) else None)"
| "XPool_Stop ts HClose p =
     (case chan_close (xp_available p) of
        Some c \<Rightarrow> Some (p\<lparr>xp_available := c\<rparr>, XStop HEnd, [])
      | None \<Rightarrow> Some (p, XStop HPanic, []))"
| "XPool_Stop ts HEnd p = None"
| "XPool_Stop ts HPanic p = None"

text \<open>The goroutine in which a worker's \<open>Stop\<close> waits for the process.\<close>

fun xwaiter :: "waiter_pc \<Rightarrow> XPool \<Rightarrow> xfired" where
  "xwaiter (VWait r d) p =
     (case wait_process (xproc p r) of
        None \<Rightarrow> None
      | Some pr \<Rightarrow> Some ((xupd r (on_proc (\<lambda>_. pr)) p)\<lparr>xp_waits := (xp_waits p)[d := True]\<rparr>, XWaiter VEnd, []))"
| "xwaiter VEnd p = None"

subsection \<open>Start\<close>

fun XPool_Start :: "(string list \<Rightarrow> string list) \<Rightarrow> xchoice \<Rightarrow> xstart_pc \<Rightarrow> XPool \<Rightarrow> xfired" where
  "XPool_Start order ch (SLoop (Suc k)) p = Some (p, XStart (SSpawn k NStart), [])"
| "XPool_Start order ch (SLoop 0) p = Some (p, XStart SFork, [])"
| "XPool_Start order ch (SSpawn k s) p =
     spawning (xspawnWorker order ch s p) (\<lambda>s. XStart (SSpawn k s)) (\<lambda>err. XStart (SEnd (Some err)))
       (\<lambda>r. XStart (SSend k r))"
| "XPool_Start order ch (SSend k r) p = xsend_then r p (XStart (SLoop k)) (XStart SPanic)"
| "XPool_Start order ch SFork p = Some (p, XStart (SEnd None), [XWatch WTick])"
| "XPool_Start order ch (SEnd e) p = None"
| "XPool_Start order ch SPanic p = None"

subsection \<open>The system\<close>

fun xfire :: "(string list \<Rightarrow> string list) \<Rightarrow> xchoice \<Rightarrow> xtask list \<Rightarrow> xtask \<Rightarrow> XPool \<Rightarrow> xfired" where
  "xfire order ch ts (XStart pc) p = XPool_Start order ch pc p"
| "xfire order ch ts (XExec req pc) p = XPool_Exec ch req pc p"
| "xfire order ch ts (XRun pc) p = xrun pc p"
| "xfire order ch ts (XRepl pc) p = xreplaceWorker order ch pc p"
| "xfire order ch ts (XWatch pc) p = xwatchdog order ch pc p"
| "xfire order ch ts (XStopper pc) p = xstop_idle ch pc p"
| "xfire order ch ts (XReload pc) p = xReload order ch pc p"
| "xfire order ch ts (XDrain pc) p = xdrain_old ch pc p"
| "xfire order ch ts (XWg pc) p = xstop_one ch pc p"
| "xfire order ch ts (XStop pc) p = XPool_Stop ts pc p"
| "xfire order ch ts (XWaiter pc) p = xwaiter pc p"

record xsystem =
  xy_pool :: XPool
  xy_tasks :: "xtask list"

definition xsys_fire :: "(string list \<Rightarrow> string list) \<Rightarrow> xchoice \<Rightarrow> nat \<Rightarrow> xsystem \<Rightarrow> xsystem option" where
  "xsys_fire order ch i s =
     (if i < length (xy_tasks s) then
        (case xfire order ch (xy_tasks s) (xy_tasks s ! i) (xy_pool s) of
           None \<Rightarrow> None
         | Some (p, t, new) \<Rightarrow> Some \<lparr>xy_pool = p, xy_tasks = (xy_tasks s)[i := t] @ new\<rparr>)
      else None)"

definition write_out :: "byte list \<Rightarrow> proc \<Rightarrow> proc" where
  "write_out chunk pr = pr\<lparr>pr_out := pr_out pr @ chunk\<rparr>"

definition xinit :: "PoolConfig \<Rightarrow> PHPConfig \<Rightarrow> xsystem \<Rightarrow> bool" where
  "xinit cfg php s \<longleftrightarrow>
     s = \<lparr>xy_pool = XPool_New cfg php, xy_tasks = [XStart (SLoop (nat (po_MinWorkers cfg)))]\<rparr>"

text \<open>
  The steps: a goroutine moves; an operation is called; a process writes, if \<open>behaves\<close> allows the
  output for its input; a process exits by itself or by a signal.
\<close>

inductive xstep :: "(string list \<Rightarrow> string list) \<Rightarrow> (byte list \<Rightarrow> byte list \<Rightarrow> bool) \<Rightarrow> xtask set \<Rightarrow> xsystem \<Rightarrow> xsystem \<Rightarrow> bool"
  for order behaves A where
  run: "xsys_fire order ch i s = Some s' \<Longrightarrow> xstep order behaves A s s'"
| call: "t \<in> A \<Longrightarrow> xstep order behaves A s (s\<lparr>xy_tasks := xy_tasks s @ [t]\<rparr>)"
| writes: "r < length (xp_heap (xy_pool s)) \<Longrightarrow> \<not> pr_exited (xproc (xy_pool s) r) \<Longrightarrow>
    behaves (pr_in (xproc (xy_pool s) r)) (pr_out (xproc (xy_pool s) r) @ chunk) \<Longrightarrow>
    xstep order behaves A s (s\<lparr>xy_pool := xupd r (on_proc (write_out chunk)) (xy_pool s)\<rparr>)"
| exits: "r < length (xp_heap (xy_pool s)) \<Longrightarrow>
    xstep order behaves A s (s\<lparr>xy_pool := xupd r (on_proc (end_process signaled)) (xy_pool s)\<rparr>)"

text \<open>The calls of the pool's users: requests in the form of frames of a request type, reloads, shutdowns.\<close>

definition xcalls :: "xtask set" where
  "xcalls = {XExec req EEnter | req. fr_Type req = TypeRequest \<and> frame_fits req} \<union> {XReload LSnap, XStop HCancel}"

end
