(* ===== verification/ExtPoolInv.thy ===== *)
theory ExtPoolInv
  imports ExtPool Transition
begin

text \<open>
  Invariants of every interleaving of the process pool, for processes that do anything. As in the
  embedded pool a worker is owned by the channel, by a goroutine, or by a result channel that holds
  the outcome of a request on it, and the owners are counted. The result channel of a request always
  belongs to the worker and the request of the goroutines that share it. A process is collected only
  after its input was closed by a \<open>Stop\<close>.
\<close>

subsection \<open>Transitions by cases\<close>

fun_cases XPool_Start_SomeE: "XPool_Start order ch pc p = Some x"
fun_cases XPool_Exec_SomeE: "XPool_Exec ch req pc p = Some x"
fun_cases xrun_SomeE: "xrun pc p = Some x"
fun_cases xreplaceWorker_SomeE: "xreplaceWorker order ch pc p = Some x"
fun_cases xwatchdog_SomeE: "xwatchdog order ch pc p = Some x"
fun_cases xstop_idle_SomeE: "xstop_idle ch pc p = Some x"
fun_cases xReload_SomeE: "xReload order ch pc p = Some x"
fun_cases xdrain_old_SomeE: "xdrain_old ch pc p = Some x"
fun_cases xstop_one_SomeE: "xstop_one ch pc p = Some x"
fun_cases XPool_Stop_SomeE: "XPool_Stop ts pc p = Some x"
fun_cases xwaiter_SomeE: "xwaiter pc p = Some x"
fun_cases xspawnWorker_SomeE: "xspawnWorker order ch s p = Some x"
fun_cases xStop_SomeE: "xStop ch r k p = Some x"

lemma xfire_SomeE:
  assumes "xfire order ch ts t p = Some x"
  obtains pc where "t = XStart pc" "XPool_Start order ch pc p = Some x"
  | req pc where "t = XExec req pc" "XPool_Exec ch req pc p = Some x"
  | pc where "t = XRun pc" "xrun pc p = Some x"
  | pc where "t = XRepl pc" "xreplaceWorker order ch pc p = Some x"
  | pc where "t = XWatch pc" "xwatchdog order ch pc p = Some x"
  | pc where "t = XStopper pc" "xstop_idle ch pc p = Some x"
  | pc where "t = XReload pc" "xReload order ch pc p = Some x"
  | pc where "t = XDrain pc" "xdrain_old ch pc p = Some x"
  | pc where "t = XWg pc" "xstop_one ch pc p = Some x"
  | pc where "t = XStop pc" "XPool_Stop ts pc p = Some x"
  | pc where "t = XWaiter pc" "xwaiter pc p = Some x"
  using assms by (cases t) auto

lemma xsend_then_SomeE:
  assumes "xsend_then r p t1 t2 = Some (p', t', new)"
  obtains (sent) c where "chan_send r (xp_available p) = Sent c" "p' = p\<lparr>xp_available := c\<rparr>" "t' = t1" "new = []"
  | (panics) "chan_send r (xp_available p) = SendPanics" "p' = p" "t' = t2" "new = []"
  using assms by (auto simp: xsend_then_def split: send_result.splits)

lemma spawning_SomeE:
  assumes "spawning out cont failed spawned = Some (p', t', new)"
  obtains (cont) pc where "out = Some (p', SMore pc)" "t' = cont pc" "new = []"
  | (failed) err where "out = Some (p', SErr err)" "t' = failed err" "new = []"
  | (spawned) r where "out = Some (p', SOk r)" "t' = spawned r" "new = []"
  using assms by (auto simp: spawning_def split: option.splits spawn_out.splits)

lemma stopping_SomeE:
  assumes "stopping r out cont stopped = Some (p', t', new)"
  obtains (cont) pc where "out = Some (p', KMore pc)" "t' = cont pc" "new = []"
  | (waiter) pc d where "out = Some (p', KFork_waiter pc d)" "t' = cont pc" "new = [XWaiter (VWait r d)]"
  | (stopped) "out = Some (p', KDone)" "t' = stopped" "new = []"
  using assms by (auto simp: stopping_def split: option.splits stop_out.splits)

lemmas xfire_elims = xfire_SomeE XPool_Start_SomeE XPool_Exec_SomeE xrun_SomeE xreplaceWorker_SomeE xwatchdog_SomeE
  xstop_idle_SomeE xReload_SomeE xdrain_old_SomeE xstop_one_SomeE XPool_Stop_SomeE xwaiter_SomeE
  xsend_then_SomeE xsend_then_SomeE [OF sym] spawning_SomeE spawning_SomeE [OF sym]
  stopping_SomeE stopping_SomeE [OF sym] xspawnWorker_SomeE xStop_SomeE

lemmas xfire_splits = sum.splits if_splits prod.splits option.splits recv_result.splits xchoice.splits

lemma xupd_fields [simp]:
  "xp_cfg (xupd r f p) = xp_cfg p" "xp_php (xupd r f p) = xp_php p" "xp_workers (xupd r f p) = xp_workers p"
  "xp_available (xupd r f p) = xp_available p" "xp_nextID (xupd r f p) = xp_nextID p"
  "xp_cancelled (xupd r f p) = xp_cancelled p" "xp_totalRequests (xupd r f p) = xp_totalRequests p"
  "xp_activeWorkers (xupd r f p) = xp_activeWorkers p" "xp_busyWorkers (xupd r f p) = xp_busyWorkers p"
  "xp_slots (xupd r f p) = xp_slots p" "xp_waits (xupd r f p) = xp_waits p"
  "length (xp_heap (xupd r f p)) = length (xp_heap p)"
  by (simp_all add: xupd_def)

lemma xremoveWorker_fields [simp]:
  "xp_cfg (xremoveWorker r p) = xp_cfg p" "xp_heap (xremoveWorker r p) = xp_heap p"
  "xp_available (xremoveWorker r p) = xp_available p" "xp_slots (xremoveWorker r p) = xp_slots p"
  "xp_cancelled (xremoveWorker r p) = xp_cancelled p" "xp_totalRequests (xremoveWorker r p) = xp_totalRequests p"
  "xp_busyWorkers (xremoveWorker r p) = xp_busyWorkers p" "xp_waits (xremoveWorker r p) = xp_waits p"
  by (simp_all add: xremoveWorker_def split: option.splits)

subsection \<open>Ownership\<close>

fun spawn_owns :: "spawn_pc \<Rightarrow> nat list" where
  "spawn_owns NStart = []"
| "spawn_owns (NReady r) = [r]"
| "spawn_owns (NPublish r) = [r]"

fun xowns :: "xtask \<Rightarrow> nat list" where
  "xowns (XStart (SSpawn k s)) = spawn_owns s"
| "xowns (XStart (SSend k r)) = [r]"
| "xowns (XExec req (EGot (Some r))) = [r]"
| "xowns (XExec req (EGo r)) = [r]"
| "xowns (XExec req (EDecide r f)) = [r]"
| "xowns (XExec req (EReady r f)) = [r]"
| "xowns (XExec req (EReturn r f)) = [r]"
| "xowns (XRun (RLock r req d)) = [r]"
| "xowns (XRun (RBusy r req d)) = [r]"
| "xowns (XRun (RWrite r req d)) = [r]"
| "xowns (XRun (RRead r req d)) = [r]"
| "xowns (XRun (RIdle r req d res)) = [r]"
| "xowns (XRun (RJobs r req d res)) = [r]"
| "xowns (XRun (RUnlock r req d res)) = [r]"
| "xowns (XRun (RSend r req d res)) = [r]"
| "xowns (XRepl (QSpawn s)) = spawn_owns s"
| "xowns (XRepl (QSend r)) = [r]"
| "xowns (XWatch (WSpawn tot busy s)) = spawn_owns s"
| "xowns (XWatch (WSend tot busy r)) = [r]"
| "xowns (XReload (LSpawn old news k s)) = spawn_owns s"
| "xowns (XReload (LSend old news k r)) = [r]"
| "xowns t = []"

definition slot_bit :: "nat \<Rightarrow> slot \<Rightarrow> nat" where
  "slot_bit r x = (if sl_buf x \<noteq> None \<and> sl_worker x = r then 1 else 0)"

definition pool_held :: "XPool \<Rightarrow> nat \<Rightarrow> nat" where
  "pool_held p r = count_list (ch_buf (xp_available p)) r + sum_list (map (slot_bit r) (xp_slots p))"

definition xheld :: "xsystem \<Rightarrow> nat \<Rightarrow> nat" where
  "xheld s r = pool_held (xy_pool s) r + sum_list (map (\<lambda>t. count_list (xowns t) r) (xy_tasks s))"

text \<open>A goroutine that uses a result channel uses the one of its own worker and request.\<close>

definition slot_for :: "XPool \<Rightarrow> nat \<Rightarrow> nat \<Rightarrow> Frame \<Rightarrow> bool" where
  "slot_for p d r req \<longleftrightarrow> d < length (xp_slots p) \<and> sl_worker (xp_slots p ! d) = r \<and> sl_req (xp_slots p ! d) = req"

fun linked :: "XPool \<Rightarrow> xtask \<Rightarrow> bool" where
  "linked p (XExec req (EWait r d)) = slot_for p d r req"
| "linked p (XRun (RLock r req d)) = slot_for p d r req"
| "linked p (XRun (RBusy r req d)) = slot_for p d r req"
| "linked p (XRun (RWrite r req d)) = slot_for p d r req"
| "linked p (XRun (RRead r req d)) = slot_for p d r req"
| "linked p (XRun (RIdle r req d res)) = slot_for p d r req"
| "linked p (XRun (RJobs r req d res)) = slot_for p d r req"
| "linked p (XRun (RUnlock r req d res)) = slot_for p d r req"
| "linked p (XRun (RSend r req d res)) = slot_for p d r req"
| "linked p t = True"

lemma slot_held_upd:
  assumes "d < length xs"
  shows "sum_list (map (slot_bit r) (xs[d := x])) + slot_bit r (xs ! d) = sum_list (map (slot_bit r) xs) + slot_bit r x"
  using sum_list_upd_app [OF assms, of "slot_bit r" x "[]"] by simp

lemma pool_held_simps [simp]:
  "pool_held (xupd x f p) r = pool_held p r" "pool_held (xremoveWorker x p) r = pool_held p r"
  "pool_held (p\<lparr>xp_nextID := n\<rparr>) r = pool_held p r" "pool_held (p\<lparr>xp_heap := h\<rparr>) r = pool_held p r"
  "pool_held (p\<lparr>xp_workers := ws\<rparr>) r = pool_held p r" "pool_held (p\<lparr>xp_activeWorkers := a\<rparr>) r = pool_held p r"
  "pool_held (p\<lparr>xp_busyWorkers := b\<rparr>) r = pool_held p r" "pool_held (p\<lparr>xp_totalRequests := q\<rparr>) r = pool_held p r"
  "pool_held (p\<lparr>xp_cancelled := c\<rparr>) r = pool_held p r" "pool_held (p\<lparr>xp_waits := w\<rparr>) r = pool_held p r"
  by (simp_all add: pool_held_def)

lemma pool_held_send: "chan_send x (xp_available p) = Sent c \<Longrightarrow>
    pool_held (p\<lparr>xp_available := c\<rparr>) r = pool_held p r + (if x = r then 1 else 0)"
  by (simp add: pool_held_def gc.send_count)

lemma pool_held_recv: "chan_recv (xp_available p) = Received x c \<Longrightarrow>
    pool_held p r = pool_held (p\<lparr>xp_available := c\<rparr>) r + (if x = r then 1 else 0)"
  by (simp add: pool_held_def gc.recv_count)

lemma pool_held_close: "chan_close (xp_available p) = Some c \<Longrightarrow> pool_held (p\<lparr>xp_available := c\<rparr>) r = pool_held p r"
  by (auto simp: pool_held_def chan_close_def split: if_splits)

lemma pool_held_new_slot:
  "pool_held (p\<lparr>xp_slots := xp_slots p @ [\<lparr>sl_worker = x, sl_req = req, sl_buf = None\<rparr>]\<rparr>) r = pool_held p r"
  by (simp add: pool_held_def slot_bit_def)

lemma pool_held_fill:
  assumes "slot_for p d x req"
  shows "pool_held (p\<lparr>xp_slots := (xp_slots p)[d := (xp_slots p ! d)\<lparr>sl_buf := Some res\<rparr>]\<rparr>) r
    \<le> pool_held p r + (if x = r then 1 else 0)"
  using assms slot_held_upd [of d "xp_slots p" r "(xp_slots p ! d)\<lparr>sl_buf := Some res\<rparr>"]
  by (auto simp: pool_held_def slot_for_def slot_bit_def split: if_splits)

lemma pool_held_take:
  assumes "slot_for p d x req" "sl_buf (xp_slots p ! d) = Some res"
  shows "pool_held p r = pool_held (p\<lparr>xp_slots := (xp_slots p)[d := (xp_slots p ! d)\<lparr>sl_buf := None\<rparr>]\<rparr>) r + (if x = r then 1 else 0)"
  using assms slot_held_upd [of d "xp_slots p" r "(xp_slots p ! d)\<lparr>sl_buf := None\<rparr>"]
  by (auto simp: pool_held_def slot_for_def slot_bit_def split: if_splits)

lemmas pool_held_rules = pool_held_send pool_held_recv pool_held_close pool_held_new_slot

lemma xfire_held:
  assumes "xfire order ch ts t p = Some (p', t', new)" "linked p t"
  shows "pool_held p' r + count_list (xowns t') r + sum_list (map (\<lambda>t. count_list (xowns t) r) new)
    \<le> pool_held p r + count_list (xowns t) r + (if length (xp_heap p) \<le> r \<and> r < length (xp_heap p') then 1 else 0)"
  using assms
  by (elim xfire_elims)
    (auto elim!: xfire_elims simp: pool_held_rules pool_held_take [of p] Let_def comp_def
      intro: pool_held_fill [THEN le_trans] split: xfire_splits)

lemma slot_for_mono:
  assumes "slot_for p d r req" "length (xp_slots p) \<le> length (xp_slots p')"
    and "\<forall>d < length (xp_slots p). sl_worker (xp_slots p' ! d) = sl_worker (xp_slots p ! d) \<and> sl_req (xp_slots p' ! d) = sl_req (xp_slots p ! d)"
  shows "slot_for p' d r req"
  using assms by (auto simp: slot_for_def)

lemma nth_upd_same: "f y = f (xs ! d) \<Longrightarrow> f (xs[d := y] ! k) = f (xs ! k)"
  by (metis list_update_beyond not_less nth_list_update)

lemma slot_upd_fields [simp]:
  "sl_worker (xs[d := (xs ! d)\<lparr>sl_buf := b\<rparr>] ! k) = sl_worker (xs ! k)"
  "sl_req (xs[d := (xs ! d)\<lparr>sl_buf := b\<rparr>] ! k) = sl_req (xs ! k)"
  by (rule nth_upd_same, simp)+

lemma xfire_slots:
  assumes "xfire order ch ts t p = Some (p', t', new)"
  shows "length (xp_slots p) \<le> length (xp_slots p') \<and>
    (\<forall>d < length (xp_slots p). sl_worker (xp_slots p' ! d) = sl_worker (xp_slots p ! d) \<and> sl_req (xp_slots p' ! d) = sl_req (xp_slots p ! d))"
  using assms
  by (elim xfire_elims)
    (auto elim!: xfire_elims simp: Let_def nth_append split: xfire_splits)

lemma linked_mono:
  assumes "xfire order ch ts t p = Some (p', t', new)" "linked p x"
  shows "linked p' x"
  using assms(2) slot_for_mono [of p _ _ _ p'] xfire_slots [OF assms(1)] by (cases "(p, x)" rule: linked.cases) auto

lemma xfire_linked:
  assumes "xfire order ch ts t p = Some (p', t', new)" "linked p t"
  shows "linked p' t' \<and> (\<forall>x \<in> set new. linked p' x)"
  using assms
  by (elim xfire_elims)
    (auto elim!: xfire_elims simp: Let_def slot_for_def split: xfire_splits)

subsection \<open>References\<close>

fun xothers :: "xtask \<Rightarrow> nat list" where
  "xothers (XExec req (EWait r d)) = [r]"
| "xothers (XRepl (QStop r k)) = [r]"
| "xothers (XRepl (QRemove r)) = [r]"
| "xothers (XWatch (WState rs)) = rs"
| "xothers (XWatch (WAlive r rs)) = r # rs"
| "xothers (XStopper (OStop r k)) = [r]"
| "xothers (XStopper (ORemove r)) = [r]"
| "xothers (XReload (LLoop old news k)) = old @ news"
| "xothers (XReload (LSpawn old news k s)) = old @ news"
| "xothers (XReload (LSend old news k r)) = old @ news"
| "xothers (XReload (LFail rs err)) = rs"
| "xothers (XReload (LAbort r k rs err)) = r # rs"
| "xothers (XDrain (DWait rs)) = rs"
| "xothers (XDrain (DStop r k rs)) = r # rs"
| "xothers (XDrain (DRemove r rs)) = r # rs"
| "xothers (XWg (GStop r k)) = [r]"
| "xothers (XWaiter (VWait r d)) = [r]"
| "xothers t = []"

definition xrefs :: "xtask \<Rightarrow> nat list" where
  "xrefs t = xowns t @ xothers t"

definition xpool_refs :: "XPool \<Rightarrow> nat set" where
  "xpool_refs p = set (xp_workers p) \<union> set (ch_buf (xp_available p)) \<union> sl_worker ` set (xp_slots p)"

definition xsys_refs :: "xsystem \<Rightarrow> nat set" where
  "xsys_refs s = xpool_refs (xy_pool s) \<union> (\<Union>t \<in> set (xy_tasks s). set (xrefs t))"

lemma xremove_id_set: "xremove_id h wid rs = Some rs' \<Longrightarrow> set rs' \<subseteq> set rs"
  by (induction rs arbitrary: rs') (auto split: if_splits)

lemma xpool_refs_simps [simp]:
  "xpool_refs (xupd x f p) = xpool_refs p"
  "xpool_refs (p\<lparr>xp_nextID := n\<rparr>) = xpool_refs p" "xpool_refs (p\<lparr>xp_heap := h\<rparr>) = xpool_refs p"
  "xpool_refs (p\<lparr>xp_activeWorkers := a\<rparr>) = xpool_refs p"
  "xpool_refs (p\<lparr>xp_workers := xp_workers p @ [r]\<rparr>) = insert r (xpool_refs p)"
  "xpool_refs (p\<lparr>xp_busyWorkers := b\<rparr>) = xpool_refs p" "xpool_refs (p\<lparr>xp_totalRequests := q\<rparr>) = xpool_refs p"
  "xpool_refs (p\<lparr>xp_cancelled := c\<rparr>) = xpool_refs p" "xpool_refs (p\<lparr>xp_waits := w\<rparr>) = xpool_refs p"
  "xpool_refs (p\<lparr>xp_slots := xp_slots p @ [sl]\<rparr>) = insert (sl_worker sl) (xpool_refs p)"
  by (auto simp: xpool_refs_def)

lemma xpool_refs_remove: "xpool_refs (xremoveWorker r p) \<subseteq> xpool_refs p"
  by (auto simp: xpool_refs_def xremoveWorker_def split: option.splits dest!: xremove_id_set)

lemma xpool_refs_slot: "d < length (xp_slots p) \<Longrightarrow> sl_worker x = sl_worker (xp_slots p ! d) \<Longrightarrow>
    xpool_refs (p\<lparr>xp_slots := (xp_slots p)[d := x]\<rparr>) = xpool_refs p"
proof -
  assume "d < length (xp_slots p)" "sl_worker x = sl_worker (xp_slots p ! d)"
  then have "map sl_worker ((xp_slots p)[d := x]) = map sl_worker (xp_slots p)"
    by (metis list_update_id map_update)
  then show ?thesis by (simp add: xpool_refs_def) (metis list.set_map)
qed

lemma xpool_refs_chan:
  "chan_send x (xp_available p) = Sent c \<Longrightarrow> xpool_refs (p\<lparr>xp_available := c\<rparr>) = insert x (xpool_refs p)"
  "chan_recv (xp_available p) = Received x c \<Longrightarrow> x \<in> xpool_refs p"
  "chan_recv (xp_available p) = Received x c \<Longrightarrow> r \<in> xpool_refs (p\<lparr>xp_available := c\<rparr>) \<Longrightarrow> r \<in> xpool_refs p"
  "chan_close (xp_available p) = Some c \<Longrightarrow> xpool_refs (p\<lparr>xp_available := c\<rparr>) = xpool_refs p"
  by (auto simp: xpool_refs_def chan_set chan_close_def split: if_splits)

lemma workers_refs: "r \<in> set (xp_workers p) \<Longrightarrow> r \<in> xpool_refs p"
  by (auto simp: xpool_refs_def)

lemma xfire_refs:
  assumes "xfire order ch ts t p = Some (p', t', new)" "linked p t"
  shows "xpool_refs p' \<union> set (xrefs t') \<union> (\<Union>x \<in> set new. set (xrefs x))
    \<subseteq> xpool_refs p \<union> set (xrefs t) \<union> {r. length (xp_heap p) \<le> r \<and> r < length (xp_heap p')}"
  using assms
  by (elim xfire_elims)
    (auto elim!: xfire_elims intro: xpool_refs_chan(2,3) workers_refs xpool_refs_remove [THEN subsetD]
      simp: Let_def xrefs_def xpool_refs_chan(1,4) xpool_refs_slot slot_for_def split: xfire_splits)

lemma xfire_heap:
  assumes "xfire order ch ts t p = Some (p', t', new)"
  shows "length (xp_heap p) \<le> length (xp_heap p') \<and> length (xp_heap p') \<le> Suc (length (xp_heap p)) \<and> xp_cfg p' = xp_cfg p"
  using assms
  by (elim xfire_elims) (auto elim!: xfire_elims simp: Let_def split: xfire_splits)

subsection \<open>The invariant of every run\<close>

definition xinv :: "xsystem \<Rightarrow> bool" where
  "xinv s \<longleftrightarrow> (\<forall>r. xheld s r \<le> 1) \<and> xsys_refs s \<subseteq> {r. r < length (xp_heap (xy_pool s))} \<and>
     (\<forall>t \<in> set (xy_tasks s). linked (xy_pool s) t)"

lemma xsys_fireE:
  assumes "xsys_fire order ch i s = Some s'"
  obtains p' t' new where "i < length (xy_tasks s)"
    "xfire order ch (xy_tasks s) (xy_tasks s ! i) (xy_pool s) = Some (p', t', new)"
    "s' = \<lparr>xy_pool = p', xy_tasks = (xy_tasks s)[i := t'] @ new\<rparr>"
  using assms by (auto simp: xsys_fire_def split: if_splits option.splits)

lemma sum_count_0: "sum_list (map (\<lambda>t. count_list (f t) r) ts) = 0 \<longleftrightarrow> (\<forall>t \<in> set ts. r \<notin> set (f t))"
  by (induction ts) (auto simp: count_list_0_iff)

lemma pool_held_fresh: "r \<notin> xpool_refs p \<Longrightarrow> pool_held p r = 0"
  by (auto simp: pool_held_def xpool_refs_def count_list_0_iff slot_bit_def image_iff)

lemma xheld_fresh: "r \<notin> xsys_refs s \<Longrightarrow> xheld s r = 0"
  by (auto simp: xheld_def sum_count_0 xsys_refs_def xrefs_def pool_held_fresh)

lemma xinv_run:
  assumes inv: "xinv s" and step: "xsys_fire order ch i s = Some s'"
  shows "xinv s'"
proof -
  let ?ts = "xy_tasks s" and ?p = "xy_pool s"
  from step obtain p' t' new where i: "i < length ?ts"
    and f: "xfire order ch ?ts (?ts ! i) ?p = Some (p', t', new)"
    and s': "s' = \<lparr>xy_pool = p', xy_tasks = ?ts[i := t'] @ new\<rparr>" by (rule xsys_fireE)
  have l: "linked ?p (?ts ! i)" "\<forall>t \<in> set ?ts. linked ?p t" using inv i by (simp_all add: xinv_def)
  have ref: "xsys_refs s \<subseteq> {r. r < length (xp_heap ?p)}" using inv by (simp add: xinv_def)
  have "xheld s' r \<le> xheld s r + (if length (xp_heap ?p) \<le> r \<and> r < length (xp_heap p') then 1 else 0)" for r
    using xfire_held [OF f l(1), of r] sum_list_upd_app [OF i, of "\<lambda>t. count_list (xowns t) r" t' new]
    by (simp add: xheld_def s')
  then have bound: "xheld s' r \<le> xheld s r + (if length (xp_heap ?p) \<le> r then 1 else 0)" for r
    by (rule order_trans) simp
  have fresh: "xheld s r = 0" if "length (xp_heap ?p) \<le> r" for r
    using ref that by (intro xheld_fresh) auto
  have "xheld s r \<le> 1" for r using inv by (simp add: xinv_def)
  then have held: "xheld s' r \<le> 1" for r
    using bound [of r] fresh [of r] by (cases "length (xp_heap ?p) \<le> r") (simp_all add: order_trans [OF bound])
  have "(\<Union>t \<in> set (?ts[i := t'] @ new). set (xrefs t))
      \<subseteq> set (xrefs t') \<union> (\<Union>t \<in> set ?ts. set (xrefs t)) \<union> (\<Union>t \<in> set new. set (xrefs t))"
    using set_upd_app [OF i, of t' new] by blast
  then have "xsys_refs s' \<subseteq> xsys_refs s \<union> {r. length (xp_heap ?p) \<le> r \<and> r < length (xp_heap p')}"
    using xfire_refs [OF f l(1)] nth_mem [OF i] unfolding xsys_refs_def s' xsystem.simps by blast
  then have "xsys_refs s' \<subseteq> {r. r < length (xp_heap p')}" using ref xfire_heap [OF f] by fastforce
  moreover have "\<forall>t \<in> set (?ts[i := t'] @ new). linked p' t"
    using xfire_linked [OF f l(1)] linked_mono [OF f] l(2) set_upd_app [OF i, of t' new] by blast
  ultimately show ?thesis using held by (simp add: xinv_def s')
qed

lemma linked_xupd [simp]: "linked (xupd r f p) t = linked p t"
  by (cases "(p, t)" rule: linked.cases) (simp_all add: slot_for_def)

lemma xinv_proc: "xinv s \<Longrightarrow> xinv (s\<lparr>xy_pool := xupd r f (xy_pool s)\<rparr>)"
  by (simp add: xinv_def xheld_def xsys_refs_def)

lemma xcalls_neutral: "t \<in> xcalls \<Longrightarrow> xowns t = [] \<and> xrefs t = [] \<and> linked p t"
  by (auto simp: xcalls_def xrefs_def)

lemma xinv_call: "xinv s \<Longrightarrow> t \<in> xcalls \<Longrightarrow> xinv (s\<lparr>xy_tasks := xy_tasks s @ [t]\<rparr>)"
  using xcalls_neutral [of t] by (auto simp: xinv_def xheld_def xsys_refs_def)

lemma xinv_init: "xinit cfg php s \<Longrightarrow> xinv s"
  by (auto simp: xinit_def xinv_def xheld_def pool_held_def xsys_refs_def xpool_refs_def xrefs_def XPool_New_def make_chan_def)

interpretation xp: inductive_invariant "xinit cfg php" "xstep order behaves xcalls" xinv
  by unfold_locales (auto intro: xinv_init xinv_run xinv_call xinv_proc elim!: xstep.cases)

text \<open>An owned worker has no other owner.\<close>

lemma sum_list_two:
  fixes f :: "'a \<Rightarrow> nat"
  assumes "i < length xs" "j < length xs" "i \<noteq> j"
  shows "f (xs ! i) + f (xs ! j) \<le> sum_list (map f xs)"
proof -
  have "f (xs ! i) + f (xs ! j) = (\<Sum>k \<in> {i, j}. f (xs ! k))" using assms(3) by simp
  also have "\<dots> \<le> (\<Sum>k < length xs. f (xs ! k))" using assms by (intro sum_mono2) auto
  finally show ?thesis by (simp add: sum_list_sum_nth atLeast0LessThan)
qed

lemma xinv_exclusive:
  assumes inv: "xinv s" and i: "i < length (xy_tasks s)" and r: "r \<in> set (xowns (xy_tasks s ! i))"
  shows "j < length (xy_tasks s) \<Longrightarrow> r \<in> set (xowns (xy_tasks s ! j)) \<Longrightarrow> j = i"
    and "r \<notin> set (ch_buf (xp_available (xy_pool s)))"
    and "x \<in> set (xp_slots (xy_pool s)) \<Longrightarrow> sl_buf x \<noteq> None \<Longrightarrow> sl_worker x \<noteq> r"
proof -
  let ?c = "\<lambda>t. count_list (xowns t) r"
  have le: "pool_held (xy_pool s) r + sum_list (map ?c (xy_tasks s)) \<le> 1" using inv by (simp add: xinv_def xheld_def)
  have ci: "1 \<le> ?c (xy_tasks s ! i)" using r count_list_0_iff by (simp add: Suc_le_eq) fastforce
  show "j = i" if "j < length (xy_tasks s)" "r \<in> set (xowns (xy_tasks s ! j))"
  proof (rule ccontr)
    assume "j \<noteq> i"
    have "1 \<le> ?c (xy_tasks s ! j)" using that(2) count_list_0_iff by (simp add: Suc_le_eq) fastforce
    with ci le sum_list_two [OF that(1) i \<open>j \<noteq> i\<close>, of ?c] show False by simp
  qed
  have "?c (xy_tasks s ! i) \<le> sum_list (map ?c (xy_tasks s))" using i by (simp add: member_le_sum_list)
  with ci le have "pool_held (xy_pool s) r = 0" by simp
  then have 0: "count_list (ch_buf (xp_available (xy_pool s))) r = 0" "\<forall>x \<in> set (xp_slots (xy_pool s)). slot_bit r x = 0"
    by (simp_all add: pool_held_def)
  then show "r \<notin> set (ch_buf (xp_available (xy_pool s)))" by (simp add: count_list_0_iff)
  show "sl_worker x \<noteq> r" if "x \<in> set (xp_slots (xy_pool s))" "sl_buf x \<noteq> None"
    using 0(2) that by (auto simp: slot_bit_def split: if_splits)
qed

end
