(* ===== verification/ExtPoolServe.thy ===== *)
theory ExtPoolServe
  imports ExtPoolInv
begin

text \<open>
  Requests on the process pool when the processes run the PHP SDK. Each process is somewhere in its
  session: nothing is due (\<open>quiet\<close>), the answer to a request is due (\<open>awaiting\<close>), or only the ready frame
  (\<open>answered\<close>). The owner of a worker knows where its process is, and no other goroutine can change
  that: a \<open>Stop\<close> from elsewhere only ends the session. Hence every response is the answer to its own
  request.
\<close>

subsection \<open>Sessions\<close>

definition sess :: "(Frame \<Rightarrow> Frame) \<Rightarrow> proc \<Rightarrow> byte list" where
  "sess answer pr = bytes (sdk_run answer (frames_of (pr_in pr)))"

definition good :: "(Frame \<Rightarrow> Frame) \<Rightarrow> proc \<Rightarrow> bool" where
  "good answer pr \<longleftrightarrow>
     (\<exists>fs. pr_in pr = bytes fs \<and> list_all (\<lambda>f. frame_fits f \<and> (fr_Type f = TypeRequest \<or> fr_Type f = TypeWorkerStop)) fs) \<and>
     prefix (pr_out pr) (sess answer pr) \<and> pr_pos pr \<le> length (pr_out pr)"

definition quiet :: "(Frame \<Rightarrow> Frame) \<Rightarrow> proc \<Rightarrow> bool" where
  "quiet answer pr \<longleftrightarrow> pr_pos pr = length (sess answer pr)"

definition answered :: "(Frame \<Rightarrow> Frame) \<Rightarrow> proc \<Rightarrow> bool" where
  "answered answer pr \<longleftrightarrow> (\<exists>A. sess answer pr = A @ frame_bytes sdk_ready \<and> pr_pos pr = length A)"

definition awaiting :: "(Frame \<Rightarrow> Frame) \<Rightarrow> Frame \<Rightarrow> proc \<Rightarrow> bool" where
  "awaiting answer req pr \<longleftrightarrow> quiet answer pr \<or>
     (\<exists>A. sess answer pr = A @ frame_bytes (answer req) @ frame_bytes sdk_ready \<and> pr_pos pr = length A)"

text \<open>The process is where it was in its session.\<close>

definition tame :: "(Frame \<Rightarrow> Frame) \<Rightarrow> proc \<Rightarrow> proc \<Rightarrow> bool" where
  "tame answer pr pr' \<longleftrightarrow> sess answer pr' = sess answer pr \<and> pr_pos pr' = pr_pos pr"

lemma tame_refl [simp]: "tame answer pr pr"
  by (simp add: tame_def)

lemma tame_keeps:
  assumes "tame answer pr pr'"
  shows "quiet answer pr' = quiet answer pr" "answered answer pr' = answered answer pr"
    "awaiting answer req pr' = awaiting answer req pr"
  using assms by (simp_all add: tame_def quiet_def answered_def awaiting_def)

lemma goodE:
  assumes "good answer pr"
  obtains fs where "pr_in pr = bytes fs" "list_all frame_fits fs" "sess answer pr = bytes (sdk_run answer fs)"
    "list_all (\<lambda>f. frame_fits f \<and> (fr_Type f = TypeRequest \<or> fr_Type f = TypeWorkerStop)) fs"
    "prefix (pr_out pr) (sess answer pr)" "pr_pos pr \<le> length (pr_out pr)"
proof -
  obtain fs where fs: "pr_in pr = bytes fs"
    "list_all (\<lambda>f. frame_fits f \<and> (fr_Type f = TypeRequest \<or> fr_Type f = TypeWorkerStop)) fs"
    "prefix (pr_out pr) (sess answer pr)" "pr_pos pr \<le> length (pr_out pr)"
    using assms by (auto simp: good_def)
  then have "list_all frame_fits fs" by (auto simp: list_all_iff)
  with fs show thesis by (intro that [of fs]) (simp_all add: sess_def)
qed

lemma good_frame:
  assumes "good answer pr" "pr_in pr' = pr_in pr" "prefix (pr_out pr') (sess answer pr)" "pr_pos pr' \<le> length (pr_out pr')"
  shows "good answer pr'" "sess answer pr' = sess answer pr"
  using assms by (auto simp: good_def sess_def)

text \<open>The start of a session, its end from outside, and the output of the process.\<close>

lemma good_start: "good answer (start_process env)" "answered answer (start_process env)"
proof -
  have "sess answer (start_process env) = frame_bytes sdk_ready"
    using frames_of_bytes [of "[]"] by (simp add: sess_def start_process_def sdk_run_def)
  then show "good answer (start_process env)" "answered answer (start_process env)"
    by (auto simp: good_def answered_def start_process_def intro: exI [of _ "[]"])
qed

lemma good_close: "good answer pr \<Longrightarrow> good answer (close_stdin pr) \<and> tame answer pr (close_stdin pr)"
  by (simp add: good_def tame_def sess_def close_stdin_def)

lemma good_end: "good answer pr \<Longrightarrow> good answer (end_process sig pr) \<and> tame answer pr (end_process sig pr)"
  by (simp add: good_def tame_def sess_def end_process_def)

lemma good_kill: "good answer pr \<Longrightarrow> good answer (kill pr) \<and> tame answer pr (kill pr)"
  by (simp add: kill_def good_end)

lemma good_wait: "good answer pr \<Longrightarrow> wait_process pr = Some pr' \<Longrightarrow> good answer pr' \<and> tame answer pr pr'"
  by (auto simp: good_def tame_def sess_def wait_process_def split: if_splits)

lemma good_emit:
  "good answer pr \<Longrightarrow> sdk_behaves answer (pr_in pr) (pr_out pr @ chunk) \<Longrightarrow>
   good answer (write_out chunk pr) \<and> tame answer pr (write_out chunk pr)"
  by (auto simp: good_def tame_def sess_def write_out_def sdk_behaves_def)

text \<open>Writing a frame extends the input, and the session by what it calls for.\<close>

lemma good_write:
  assumes g: "good answer pr" and q: "frame_fits q" "fr_Type q = TypeRequest \<or> fr_Type q = TypeWorkerStop"
    and w: "pr' = pr\<lparr>pr_in := pr_in pr @ frame_bytes q\<rparr>"
  shows "good answer pr' \<and> pr_pos pr' = pr_pos pr \<and>
    (sess answer pr' = sess answer pr \<or>
     fr_Type q = TypeRequest \<and> sess answer pr' = sess answer pr @ frame_bytes (answer q) @ frame_bytes sdk_ready)"
proof -
  obtain fs where fs: "pr_in pr = bytes fs" "list_all frame_fits fs" "sess answer pr = bytes (sdk_run answer fs)"
    "list_all (\<lambda>f. frame_fits f \<and> (fr_Type f = TypeRequest \<or> fr_Type f = TypeWorkerStop)) fs"
    "prefix (pr_out pr) (sess answer pr)" "pr_pos pr \<le> length (pr_out pr)"
    by (rule goodE [OF g])
  have i: "pr_in pr' = bytes (fs @ [q])" using fs(1) w by simp
  have fr: "frames_of (pr_in pr') = fs @ [q]" unfolding i using fs(2) q(1) by (intro frames_of_bytes) simp
  have neq: "TypeRequest \<noteq> TypeWorkerStop" "TypePing \<noteq> TypeRequest" by (simp_all add: frame_type_defs)
  have s: "sess answer pr' = sess answer pr @ (if list_ex (\<lambda>x. fr_Type x = TypeWorkerStop) fs then [] else bytes (sdk_loop answer [q]))"
    by (simp add: sess_def fr fs(3) sdk_run_def sdk_loop_snoc fs(1,2))
  then have "prefix (pr_out pr') (sess answer pr')" using fs(5) w by (auto simp: prefix_def)
  then have "good answer pr'"
    unfolding good_def using fs(4,6) q i w by (intro conjI exI [of _ "fs @ [q]"]) (simp_all)
  then show ?thesis using s q(2) neq w by auto
qed

lemma NewWorkerStopFrame_fits: "frame_fits NewWorkerStopFrame" "fr_Type NewWorkerStopFrame = TypeWorkerStop"
  by (simp_all add: NewWorkerStopFrame_def control_frame_def frame_fits_def)

lemma send_frame_cases:
  obtains (sent) "send_frame f pr = (None, pr\<lparr>pr_in := pr_in pr @ frame_bytes f\<rparr>)"
  | (failed) e where "send_frame f pr = (Some e, pr)"
  by (cases "pr_in_open pr \<and> \<not> pr_waited pr"; cases "pr_exited pr") (auto simp: send_frame_eq pipe_write_def Let_def)

lemma good_stop:
  assumes "good answer pr"
  shows "good answer (snd (send_frame NewWorkerStopFrame pr)) \<and> tame answer pr (snd (send_frame NewWorkerStopFrame pr))"
proof (cases rule: send_frame_cases [of NewWorkerStopFrame pr])
  case sent
  have "TypeWorkerStop \<noteq> TypeRequest" by (simp add: frame_type_defs)
  then show ?thesis
    using good_write [OF assms NewWorkerStopFrame_fits(1) _ refl] NewWorkerStopFrame_fits(2) sent by (auto simp: tame_def)
qed (simp add: assms)

lemma good_send:
  assumes "good answer pr" "quiet answer pr" "frame_fits q" "fr_Type q = TypeRequest" "send_frame q pr = (err, pr')"
  shows "good answer pr' \<and> (err = None \<longrightarrow> awaiting answer q pr')"
proof (cases rule: send_frame_cases [of q pr])
  case sent
  then have "pr' = pr\<lparr>pr_in := pr_in pr @ frame_bytes q\<rparr>" using assms(5) by simp
  from good_write [OF assms(1,3) _ this] assms(4) have w: "good answer pr'" "pr_pos pr' = pr_pos pr"
    "sess answer pr' = sess answer pr \<or> sess answer pr' = sess answer pr @ frame_bytes (answer q) @ frame_bytes sdk_ready"
    by auto
  then show ?thesis using assms(2) by (auto simp: awaiting_def quiet_def)
qed (use assms in auto)

text \<open>Reading in a session.\<close>

lemma good_recv: "good answer pr \<Longrightarrow> recv_frame pr = Some (res, pr') \<Longrightarrow> good answer pr'"
  by (auto simp: good_def sess_def recv_frame_def split: if_splits prod.splits)

lemma recv_sess: "recv_frame pr = Some (res, pr') \<Longrightarrow> sess answer pr' = sess answer pr"
  by (auto simp: sess_def recv_frame_def split: if_splits prod.splits)

lemma sdk_ready_fits: "frame_fits sdk_ready" "fr_Type sdk_ready = TypeWorkerReady"
  by (simp_all add: sdk_ready_def frame_fits_def)

lemma recv_answered:
  assumes g: "good answer pr" and a: "answered answer pr" and r: "recv_frame pr = Some (Inr f, pr')"
  shows "quiet answer pr'"
proof -
  obtain A where A: "sess answer pr = A @ frame_bytes sdk_ready" "pr_pos pr = length A"
    using a by (auto simp: answered_def)
  have "prefix (pr_out pr) (A @ frame_bytes sdk_ready @ [])" "pr_pos pr \<le> length (pr_out pr)"
    using g A(1) by (auto simp: good_def)
  then have "pr' = pr\<lparr>pr_pos := length (A @ frame_bytes sdk_ready)\<rparr>"
    using recv_frame_next [OF r _ sdk_ready_fits(1) _ A(2)] by blast
  then show ?thesis using recv_sess [OF r, of answer] A(1) by (simp add: quiet_def)
qed

lemma recv_awaiting:
  assumes g: "good answer pr" and a: "awaiting answer req pr" and fits: "frame_fits (answer req)"
    and r: "recv_frame pr = Some (Inr f, pr')"
  shows "f = answer req \<and> answered answer pr'"
proof -
  have o: "prefix (pr_out pr) (sess answer pr)" "pr_pos pr \<le> length (pr_out pr)" using g by (auto simp: good_def)
  have "\<not> quiet answer pr" using recv_frame_nothing [OF r o(2,1)] by (auto simp: quiet_def)
  then obtain A where A: "sess answer pr = A @ frame_bytes (answer req) @ frame_bytes sdk_ready" "pr_pos pr = length A"
    using a by (auto simp: awaiting_def)
  have "f = answer req \<and> pr' = pr\<lparr>pr_pos := length (A @ frame_bytes (answer req))\<rparr>"
    using recv_frame_next [OF r o(2) fits _ A(2)] o(1) A(1) by simp
  then show ?thesis using recv_sess [OF r, of answer] A(1)
    by (auto simp: answered_def intro!: exI [of _ "A @ frame_bytes (answer req)"])
qed

subsection \<open>What the owner of a worker knows\<close>

fun spawn_ok :: "(Frame \<Rightarrow> Frame) \<Rightarrow> XPool \<Rightarrow> spawn_pc \<Rightarrow> bool" where
  "spawn_ok answer p NStart = True"
| "spawn_ok answer p (NReady r) = answered answer (xproc p r)"
| "spawn_ok answer p (NPublish r) = quiet answer (xproc p r)"

definition res_ok :: "(Frame \<Rightarrow> Frame) \<Rightarrow> Frame \<Rightarrow> proc \<Rightarrow> exec_error + Frame \<Rightarrow> bool" where
  "res_ok answer req pr res \<longleftrightarrow> (\<forall>f. res = Inr f \<longrightarrow> f = answer req \<and> answered answer pr)"

definition req_ok :: "Frame \<Rightarrow> bool" where
  "req_ok req \<longleftrightarrow> fr_Type req = TypeRequest \<and> frame_fits req"

fun exec_ok :: "(Frame \<Rightarrow> Frame) \<Rightarrow> XPool \<Rightarrow> Frame \<Rightarrow> xexec_pc \<Rightarrow> bool" where
  "exec_ok answer p req (EGot (Some r)) = quiet answer (xproc p r)"
| "exec_ok answer p req (EGo r) = quiet answer (xproc p r)"
| "exec_ok answer p req (EDecide r f) = (f = answer req \<and> answered answer (xproc p r))"
| "exec_ok answer p req (EReady r f) = (f = answer req \<and> answered answer (xproc p r))"
| "exec_ok answer p req (EReturn r f) = (f = answer req \<and> quiet answer (xproc p r))"
| "exec_ok answer p req (ELeave (Resp f)) = (f = answer req)"
| "exec_ok answer p req (EEnd (Resp f)) = (f = answer req)"
| "exec_ok answer p req pc = True"

fun run_ok :: "(Frame \<Rightarrow> Frame) \<Rightarrow> XPool \<Rightarrow> run_pc \<Rightarrow> bool" where
  "run_ok answer p (RLock r req d) = (req_ok req \<and> quiet answer (xproc p r))"
| "run_ok answer p (RBusy r req d) = (req_ok req \<and> quiet answer (xproc p r))"
| "run_ok answer p (RWrite r req d) = (req_ok req \<and> quiet answer (xproc p r))"
| "run_ok answer p (RRead r req d) = awaiting answer req (xproc p r)"
| "run_ok answer p (RIdle r req d res) = res_ok answer req (xproc p r) res"
| "run_ok answer p (RJobs r req d res) = res_ok answer req (xproc p r) res"
| "run_ok answer p (RUnlock r req d res) = res_ok answer req (xproc p r) res"
| "run_ok answer p (RSend r req d res) = res_ok answer req (xproc p r) res"
| "run_ok answer p pc = True"

fun task_ok :: "(Frame \<Rightarrow> Frame) \<Rightarrow> XPool \<Rightarrow> xtask \<Rightarrow> bool" where
  "task_ok answer p (XStart (SSpawn k s)) = spawn_ok answer p s"
| "task_ok answer p (XStart (SSend k r)) = quiet answer (xproc p r)"
| "task_ok answer p (XExec req pc) = (req_ok req \<and> exec_ok answer p req pc)"
| "task_ok answer p (XRun pc) = run_ok answer p pc"
| "task_ok answer p (XRepl (QSpawn s)) = spawn_ok answer p s"
| "task_ok answer p (XRepl (QSend r)) = quiet answer (xproc p r)"
| "task_ok answer p (XWatch (WSpawn tot busy s)) = spawn_ok answer p s"
| "task_ok answer p (XWatch (WSend tot busy r)) = quiet answer (xproc p r)"
| "task_ok answer p (XReload (LSpawn old news k s)) = spawn_ok answer p s"
| "task_ok answer p (XReload (LSend old news k r)) = quiet answer (xproc p r)"
| "task_ok answer p t = True"

definition slot_ok :: "(Frame \<Rightarrow> Frame) \<Rightarrow> XPool \<Rightarrow> slot \<Rightarrow> bool" where
  "slot_ok answer p x \<longleftrightarrow> (\<forall>res. sl_buf x = Some res \<longrightarrow> res_ok answer (sl_req x) (xproc p (sl_worker x)) res)"

text \<open>What an owner knows stays true while the processes of its workers stay where they are.\<close>

lemma spawn_ok_tame:
  "spawn_ok answer p s \<Longrightarrow> \<forall>r \<in> set (spawn_owns s). tame answer (xproc p r) (xproc p' r) \<Longrightarrow> spawn_ok answer p' s"
  by (cases s) (simp_all add: tame_keeps)

lemma exec_ok_tame:
  "exec_ok answer p req pc \<Longrightarrow> \<forall>r \<in> set (xowns (XExec req pc)). tame answer (xproc p r) (xproc p' r) \<Longrightarrow>
   exec_ok answer p' req pc"
  by (cases "(answer, p, req, pc)" rule: exec_ok.cases) (simp_all add: tame_keeps)

lemma run_ok_tame:
  "run_ok answer p pc \<Longrightarrow> \<forall>r \<in> set (xowns (XRun pc)). tame answer (xproc p r) (xproc p' r) \<Longrightarrow> run_ok answer p' pc"
  by (cases pc) (simp_all add: tame_keeps res_ok_def)

lemma task_ok_tame:
  assumes "task_ok answer p t" "\<forall>r \<in> set (xowns t). tame answer (xproc p r) (xproc p' r)"
  shows "task_ok answer p' t"
  using assms
  by (cases "(answer, p, t)" rule: task_ok.cases)
    (auto simp: tame_keeps intro: spawn_ok_tame exec_ok_tame run_ok_tame)

lemma slot_ok_tame:
  "slot_ok answer p x \<Longrightarrow> (sl_buf x \<noteq> None \<Longrightarrow> tame answer (xproc p (sl_worker x)) (xproc p' (sl_worker x))) \<Longrightarrow>
   slot_ok answer p' x"
  by (auto simp: slot_ok_def res_ok_def tame_keeps)

subsection \<open>Processes through a transition\<close>

lemma xproc_xupd:
  "xproc (xupd x f p) r = (if x = r \<and> r < length (xp_heap p) then xw_proc (f (xp_heap p ! r)) else xproc p r)"
  by (cases "x = r"; cases "r < length (xp_heap p)") (simp_all add: xproc_def xupd_def list_update_beyond)

lemma xw_proc_simps [simp]:
  "xw_proc (on_proc g (xp_heap p ! r)) = g (xproc p r)" "xw_proc (xstore_state st (xp_heap p ! r)) = xproc p r"
  "xw_proc (xadd_job (xp_heap p ! r)) = xproc p r" "xw_proc ((xp_heap p ! r)\<lparr>xw_mu := b\<rparr>) = xproc p r"
  by (simp_all add: on_proc_def xproc_def xstore_state_def xadd_job_def)

lemma xproc_frame [simp]:
  "xproc (xremoveWorker x p) r = xproc p r" "xproc (p\<lparr>xp_available := c\<rparr>) r = xproc p r"
  "xproc (p\<lparr>xp_nextID := n\<rparr>) r = xproc p r" "xproc (p\<lparr>xp_workers := ws\<rparr>) r = xproc p r"
  "xproc (p\<lparr>xp_activeWorkers := a\<rparr>) r = xproc p r" "xproc (p\<lparr>xp_busyWorkers := b\<rparr>) r = xproc p r"
  "xproc (p\<lparr>xp_totalRequests := q\<rparr>) r = xproc p r" "xproc (p\<lparr>xp_cancelled := d\<rparr>) r = xproc p r"
  "xproc (p\<lparr>xp_waits := w\<rparr>) r = xproc p r" "xproc (p\<lparr>xp_slots := sl\<rparr>) r = xproc p r"
  by (simp_all add: xproc_def)

lemma xproc_alloc: "xproc (p\<lparr>xp_nextID := n, xp_heap := xp_heap p @ [w]\<rparr>) r =
   (if r < length (xp_heap p) then xproc p r else if r = length (xp_heap p) then xw_proc w
    else xproc (p\<lparr>xp_nextID := n, xp_heap := xp_heap p @ [w]\<rparr>) r)"
  by (simp add: xproc_def nth_append)

definition goods :: "(Frame \<Rightarrow> Frame) \<Rightarrow> XPool \<Rightarrow> bool" where
  "goods answer p \<longleftrightarrow> (\<forall>r < length (xp_heap p). good answer (xproc p r))"

text \<open>A transition that may only disturb the processes in \<open>X\<close>.\<close>

definition keeps :: "(Frame \<Rightarrow> Frame) \<Rightarrow> nat set \<Rightarrow> XPool \<Rightarrow> XPool \<Rightarrow> bool" where
  "keeps answer X p p' \<longleftrightarrow> goods answer p' \<and>
     (\<forall>r < length (xp_heap p). r \<notin> X \<longrightarrow> tame answer (xproc p r) (xproc p' r))"

lemma keeps_same: "goods answer p \<Longrightarrow> xp_heap p' = xp_heap p \<Longrightarrow> keeps answer X p p'"
  by (simp add: keeps_def goods_def xproc_def)

lemma keeps_upd:
  assumes "goods answer p" "r < length (xp_heap p) \<Longrightarrow> good answer (xw_proc (f (xp_heap p ! r)))"
    and "r \<notin> X \<Longrightarrow> r < length (xp_heap p) \<Longrightarrow> tame answer (xproc p r) (xw_proc (f (xp_heap p ! r)))"
  shows "keeps answer X p (xupd r f p)"
  using assms by (auto simp: keeps_def goods_def xproc_xupd)

lemma keeps_calm:
  assumes "goods answer p" "\<And>pr. good answer pr \<Longrightarrow> good answer (g pr) \<and> tame answer pr (g pr)"
  shows "keeps answer X p (xupd r (on_proc g) p)"
  using assms by (intro keeps_upd) (auto simp: goods_def)

lemma keeps_still:
  assumes "goods answer p" "\<And>w. xw_proc (f w) = xw_proc w"
  shows "keeps answer X p (xupd r f p)"
  using assms by (intro keeps_upd) (auto simp: goods_def xproc_def)

lemma still_simps [simp]:
  "xw_proc (xstore_state st w) = xw_proc w" "xw_proc (xadd_job w) = xw_proc w"
  by (simp_all add: xstore_state_def xadd_job_def)

lemma xStop_keeps:
  assumes "xStop ch r k p = Some (p', out)" and g: "goods answer p"
  shows "keeps answer X p p'"
proof (cases k)
  case KState
  then show ?thesis using assms by (auto intro: keeps_still)
next
  case KWrite
  then show ?thesis using assms by (auto intro!: keeps_calm good_stop)
next
  case KClose
  then show ?thesis using assms by (auto intro!: keeps_calm good_close)
next
  case KFork
  then show ?thesis using assms by (auto intro!: keeps_same)
next
  case (KWait d)
  have "p' = p \<or> p' = xupd r (on_proc kill) p" using assms(1) KWait by (auto split: xchoice.splits if_splits)
  then show ?thesis using keeps_calm [OF g good_kill] keeps_same [OF g] by blast
qed

lemma xspawnWorker_keeps:
  assumes s: "xspawnWorker order ch s p = Some (p', out)" and g: "goods answer p" and ok: "spawn_ok answer p s"
    and lt: "\<forall>r \<in> set (spawn_owns s). r < length (xp_heap p)"
  shows "keeps answer (set (spawn_owns s)) p p' \<and>
    (case out of SMore s' \<Rightarrow> spawn_ok answer p' s' | SOk r \<Rightarrow> quiet answer (xproc p' r) | SErr e \<Rightarrow> True)"
proof (cases s)
  case NStart
  have "keeps answer {} p (p\<lparr>xp_nextID := n, xp_heap := xp_heap p @ [new_XWorker i env]\<rparr>)" for n i env
    using g by (auto simp: keeps_def goods_def xproc_alloc new_XWorker_def good_start less_Suc_eq)
  moreover have "answered answer (xproc (p\<lparr>xp_nextID := n, xp_heap := xp_heap p @ [new_XWorker i env]\<rparr>) (length (xp_heap p)))" for n i env
    by (simp add: xproc_alloc new_XWorker_def good_start)
  ultimately show ?thesis using s NStart by (auto simp: Let_def keeps_same [OF g] split: if_splits)
next
  case (NReady r)
  have r: "r < length (xp_heap p)" "good answer (xproc p r)" "answered answer (xproc p r)"
    using lt g ok NReady by (auto simp: goods_def)
  obtain err pr where a: "await_ready (xproc p r) = Some (err, pr)" "p' = xupd r (on_proc (\<lambda>_. pr)) p"
    "out = (case err of None \<Rightarrow> SMore (NPublish r) | Some e \<Rightarrow> SErr (ReadyFailed e))"
    using s NReady by (auto split: option.splits)
  have pr: "good answer pr \<and> (err = None \<longrightarrow> quiet answer pr)"
    using a(1) good_recv [OF r(2)] recv_answered [OF r(2,3)] good_kill
    by (auto simp: await_ready_def split: option.splits sum.splits if_splits)
  then have "keeps answer {r} p p'" unfolding a(2) using g by (intro keeps_upd) auto
  then show ?thesis using pr r(1) NReady by (auto simp: a(2,3) xproc_xupd split: option.splits)
next
  case (NPublish r)
  then show ?thesis using s ok by (auto simp: keeps_same [OF g])
qed

lemma xStop_frame:
  "xStop ch r k p = Some (p', out) \<Longrightarrow> xp_available p' = xp_available p \<and> xp_slots p' = xp_slots p"
  by (elim xStop_SomeE) (auto split: xchoice.splits if_splits)

lemma xspawnWorker_frame:
  "xspawnWorker order ch s p = Some (p', out) \<Longrightarrow> xp_available p' = xp_available p \<and> xp_slots p' = xp_slots p"
  by (elim xspawnWorker_SomeE) (auto simp: Let_def split: option.splits if_splits)

text \<open>
  After a transition of an owner: what the goroutine and the new ones know holds, and what was put
  into the channel or a result channel is in order.
\<close>

definition settles :: "(Frame \<Rightarrow> Frame) \<Rightarrow> nat set \<Rightarrow> XPool \<Rightarrow> XPool \<Rightarrow> xtask \<Rightarrow> xtask list \<Rightarrow> bool" where
  "settles answer X p p' t' new \<longleftrightarrow> keeps answer X p p' \<and> task_ok answer p' t' \<and> (\<forall>x \<in> set new. task_ok answer p' x) \<and>
     (\<forall>r \<in> set (ch_buf (xp_available p')). r \<in> set (ch_buf (xp_available p)) \<or> quiet answer (xproc p' r)) \<and>
     (\<forall>x \<in> set (xp_slots p'). x \<in> set (xp_slots p) \<or> slot_ok answer p' x)"

lemma settles_stopping:
  assumes "stopping r (xStop ch r k p) cont stopped = Some (p', t', new)" "goods answer p"
    and "\<And>k. task_ok answer p' (cont k)" "task_ok answer p' stopped"
  shows "settles answer X p p' t' new"
  using assms
  by (elim stopping_SomeE) (auto simp: settles_def dest: xStop_frame intro: xStop_keeps)

lemma settles_spawning:
  assumes "spawning (xspawnWorker order ch s p) cont failed spawned = Some (p', t', new)" "goods answer p"
    and "spawn_ok answer p s" "\<forall>r \<in> set (spawn_owns s). r < length (xp_heap p)"
    and "\<And>s. spawn_ok answer p' s \<Longrightarrow> task_ok answer p' (cont s)" "\<And>e. task_ok answer p' (failed e)"
    and "\<And>r. quiet answer (xproc p' r) \<Longrightarrow> task_ok answer p' (spawned r)"
  shows "settles answer (set (spawn_owns s)) p p' t' new"
  using assms(1)
proof (cases rule: spawning_SomeE)
  case (cont pc)
  then show ?thesis
    using xspawnWorker_keeps [OF cont(1) assms(2-4)] xspawnWorker_frame [OF cont(1)] assms(5) by (simp add: settles_def)
next
  case (failed err)
  then show ?thesis
    using xspawnWorker_keeps [OF failed(1) assms(2-4)] xspawnWorker_frame [OF failed(1)] assms(6) by (simp add: settles_def)
next
  case (spawned r)
  then show ?thesis
    using xspawnWorker_keeps [OF spawned(1) assms(2-4)] xspawnWorker_frame [OF spawned(1)] assms(7) by (simp add: settles_def)
qed

lemma settles_send:
  assumes "xsend_then r p sent panicked = Some (p', t', new)" "goods answer p" "quiet answer (xproc p r)"
    and "\<And>p'. xp_heap p' = xp_heap p \<Longrightarrow> task_ok answer p' sent \<and> task_ok answer p' panicked"
  shows "settles answer X p p' t' new"
  using assms by (elim xsend_then_SomeE) (auto simp: settles_def gc.send_set intro!: keeps_same)

lemma settles_same:
  assumes "goods answer p" "xp_heap p' = xp_heap p" "xp_slots p' = xp_slots p"
    "set (ch_buf (xp_available p')) \<subseteq> set (ch_buf (xp_available p))" "task_ok answer p' t'" "\<forall>x \<in> set new. task_ok answer p' x"
  shows "settles answer X p p' t' new"
  using assms by (auto simp: settles_def intro!: keeps_same)

lemma xrun_settles:
  assumes f: "xrun pc p = Some (p', t', new)" and g: "goods answer p" and ok: "run_ok answer p pc"
    and lt: "\<forall>r \<in> set (xowns (XRun pc)). r < length (xp_heap p)" and l: "linked p (XRun pc)"
    and fits: "\<forall>q. frame_fits (answer q)"
  shows "settles answer (set (xowns (XRun pc))) p p' t' new"
proof (cases pc)
  case (RWrite r req d)
  with f obtain err pr where w: "send_frame req (xproc p r) = (err, pr)" "p' = xupd r (on_proc (\<lambda>_. pr)) p" "new = []"
    "t' = XRun (case err of Some e \<Rightarrow> RIdle r req d (Inl (SendErr e)) | None \<Rightarrow> RRead r req d)"
    by (auto split: prod.splits)
  have "good answer pr \<and> (err = None \<longrightarrow> awaiting answer req pr)"
    using good_send [OF _ _ _ _ w(1)] g ok lt RWrite by (auto simp: goods_def req_ok_def)
  then show ?thesis using g lt RWrite w
    by (auto simp: settles_def xproc_xupd res_ok_def split: option.splits intro!: keeps_upd)
next
  case (RRead r req d)
  with f obtain res pr where w: "recv_frame (xproc p r) = Some (res, pr)" "p' = xupd r (on_proc (\<lambda>_. pr)) p" "new = []"
    "t' = XRun (RIdle r req d (map_sum RecvErr id res))"
    by (auto split: option.splits)
  have gp: "good answer (xproc p r)" "awaiting answer req (xproc p r)" using g lt ok RRead by (auto simp: goods_def)
  have "good answer pr" using good_recv [OF gp(1) w(1)] .
  moreover have "res_ok answer req pr (map_sum RecvErr id res)"
    using recv_awaiting [OF gp] fits w(1) by (auto simp: res_ok_def map_sum_Inr_iff)
  ultimately show ?thesis using g lt RRead w by (auto simp: settles_def xproc_xupd intro!: keeps_upd)
next
  case (RSend r req d res)
  then have d: "slot_for p d r req" using l by simp
  have "slot_ok answer p' x" if "x \<in> set ((xp_slots p)[d := (xp_slots p ! d)\<lparr>sl_buf := Some res\<rparr>])" "x \<notin> set (xp_slots p)" for x
  proof -
    have "x = (xp_slots p ! d)\<lparr>sl_buf := Some res\<rparr>"
      using that set_update_subset_insert [of "xp_slots p" d "(xp_slots p ! d)\<lparr>sl_buf := Some res\<rparr>"] by blast
    then show ?thesis using d f ok RSend by (auto simp: slot_ok_def slot_for_def)
  qed
  then have "\<forall>x \<in> set ((xp_slots p)[d := (xp_slots p ! d)\<lparr>sl_buf := Some res\<rparr>]). x \<in> set (xp_slots p) \<or> slot_ok answer p' x"
    by blast
  then show ?thesis using RSend f g by (auto simp: settles_def intro!: keeps_same)
qed (use f g ok lt in \<open>auto simp: settles_def xproc_xupd xproc_def [symmetric] split: if_splits intro!: keeps_still\<close>)

lemma exec_settles:
  assumes f: "XPool_Exec ch req pc p = Some (p', t', new)" and g: "goods answer p" and ok: "req_ok req" "exec_ok answer p req pc"
    and lt: "\<forall>r \<in> set (xowns (XExec req pc)). r < length (xp_heap p)" and l: "linked p (XExec req pc)"
    and c: "\<forall>r \<in> set (ch_buf (xp_available p)). quiet answer (xproc p r)" and sl: "\<forall>x \<in> set (xp_slots p). slot_ok answer p x"
  shows "settles answer (set (xowns (XExec req pc))) p p' t' new"
proof (cases pc)
  case ESelect
  then show ?thesis
    using f g ok(1) c
    by (auto split: xchoice.splits recv_result.splits if_splits simp: chan_set intro!: settles_same)
next
  case (EGot w)
  then show ?thesis using f g ok by (auto simp: Let_def split: option.splits intro!: settles_same)
next
  case (EGo r)
  then show ?thesis using f g ok by (auto simp: Let_def settles_def slot_ok_def intro!: keeps_same)
next
  case (EWait r d)
  show ?thesis
  proof (cases "ch = Ready")
    case True
    then obtain res where res: "sl_buf (xp_slots p ! d) = Some res"
      "p' = p\<lparr>xp_slots := (xp_slots p)[d := (xp_slots p ! d)\<lparr>sl_buf := None\<rparr>]\<rparr>"
      "(\<exists>err. res = Inl err \<and> t' = XExec req (ELeave (ExecFailed err)) \<and> new = [XRepl (QStop r KState)]) \<or>
       (\<exists>h. res = Inr h \<and> t' = XExec req (EDecide r h) \<and> new = [])"
      using f EWait by (auto simp: Let_def split: option.splits sum.splits)
    have d: "slot_for p d r req" using l EWait by simp
    then have "slot_ok answer p (xp_slots p ! d)" using sl by (simp add: slot_for_def)
    then have r: "res_ok answer req (xproc p r) res" using d res(1) by (simp add: slot_ok_def slot_for_def)
    have "\<forall>x \<in> set ((xp_slots p)[d := (xp_slots p ! d)\<lparr>sl_buf := None\<rparr>]). x \<in> set (xp_slots p) \<or> slot_ok answer p' x"
      using set_update_subset_insert [of "xp_slots p" d "(xp_slots p ! d)\<lparr>sl_buf := None\<rparr>"] by (auto simp: slot_ok_def)
    then show ?thesis using res(2,3) r ok(1) g by (auto simp: settles_def res_ok_def intro!: keeps_same)
  next
    case False
    then show ?thesis using f g ok EWait by (auto split: xchoice.splits if_splits intro!: settles_same)
  qed
next
  case (EReady r h)
  with f obtain res pr where w: "recv_frame (xproc p r) = Some (res, pr)" "p' = xupd r (on_proc (\<lambda>_. pr)) p"
    "t' = XExec req (ELeave (Resp h)) \<and> new = [XRepl (QStop r KState)] \<or>
     (\<exists>ready. res = Inr ready \<and> t' = XExec req (EReturn r h) \<and> new = [])"
    by (auto simp: Let_def split: option.splits sum.splits if_splits)
  have gp: "good answer (xproc p r)" "answered answer (xproc p r)" "h = answer req" using g lt ok EReady by (auto simp: goods_def)
  have "good answer pr" "\<forall>ready. res = Inr ready \<longrightarrow> quiet answer pr"
    using good_recv [OF gp(1) w(1)] recv_answered [OF gp(1,2)] w(1) by auto
  then show ?thesis using g lt ok(1) gp(3) EReady w(2,3) by (auto simp: settles_def xproc_xupd intro!: keeps_upd)
next
  case (EReturn r h)
  then show ?thesis using f g ok by (auto intro!: settles_send [of r p "XExec req (ELeave (Resp h))" "XExec req (ELeave SendPanic)"])
next
  case (ELeave res)
  then show ?thesis using f g ok by (cases res) (auto intro!: settles_same)
qed (use f g ok in \<open>auto split: if_splits intro!: settles_same\<close>)

lemma start_settles:
  assumes "XPool_Start order ch pc p = Some (p', t', new)" "goods answer p" "task_ok answer p (XStart pc)"
    and "\<forall>r \<in> set (xowns (XStart pc)). r < length (xp_heap p)"
  shows "settles answer (set (xowns (XStart pc))) p p' t' new"
proof (cases pc)
  case (SLoop k)
  then show ?thesis using assms by (cases k) (auto intro!: settles_same)
next
  case (SSpawn k s)
  then show ?thesis using assms by (auto intro!: settles_spawning)
next
  case (SSend k r)
  then show ?thesis using assms by (auto intro!: settles_send)
qed (use assms in \<open>auto intro!: settles_same\<close>)

lemma replace_settles:
  assumes "xreplaceWorker order ch pc p = Some (p', t', new)" "goods answer p" "task_ok answer p (XRepl pc)"
    and "\<forall>r \<in> set (xowns (XRepl pc)). r < length (xp_heap p)"
  shows "settles answer (set (xowns (XRepl pc))) p p' t' new"
proof (cases pc)
  case (QStop r k)
  then show ?thesis using assms by (auto intro!: settles_stopping)
next
  case (QSpawn s)
  then show ?thesis using assms by (auto intro!: settles_spawning)
next
  case (QSend r)
  then show ?thesis using assms by (auto intro!: settles_send)
qed (use assms in \<open>auto intro!: settles_same\<close>)

lemma watch_settles:
  assumes "xwatchdog order ch pc p = Some (p', t', new)" "goods answer p" "task_ok answer p (XWatch pc)"
    and "\<forall>r \<in> set (xowns (XWatch pc)). r < length (xp_heap p)"
  shows "settles answer (set (xowns (XWatch pc))) p p' t' new"
proof (cases pc)
  case WTick
  then show ?thesis using assms by (auto split: xchoice.splits if_splits intro!: settles_same)
next
  case (WState rs)
  then show ?thesis using assms by (cases rs) (auto split: if_splits intro!: settles_same)
next
  case (WSpawn tot busy s)
  then show ?thesis using assms by (auto intro!: settles_spawning)
next
  case (WSend tot busy r)
  then show ?thesis using assms by (auto intro!: settles_send)
next
  case (WDown tot busy)
  then show ?thesis using assms by (auto split: recv_result.splits if_splits simp: chan_set intro!: settles_same)
qed (use assms in \<open>auto split: if_splits intro!: settles_same\<close>)

lemma reload_settles:
  assumes "xReload order ch pc p = Some (p', t', new)" "goods answer p" "task_ok answer p (XReload pc)"
    and "\<forall>r \<in> set (xowns (XReload pc)). r < length (xp_heap p)"
  shows "settles answer (set (xowns (XReload pc))) p p' t' new"
proof (cases pc)
  case (LLoop old news k)
  then show ?thesis using assms by (cases k) (auto intro!: settles_same)
next
  case (LSpawn old news k s)
  then show ?thesis using assms by (auto intro!: settles_spawning)
next
  case (LSend old news k r)
  then show ?thesis using assms by (auto intro!: settles_send)
next
  case (LFail rs err)
  then show ?thesis using assms by (cases rs) (auto intro!: settles_same)
next
  case (LAbort r k rs err)
  then show ?thesis using assms by (auto intro!: settles_stopping)
qed (use assms in \<open>auto intro!: settles_same\<close>)

lemma drain_settles:
  assumes "xdrain_old ch pc p = Some (p', t', new)" "goods answer p"
  shows "settles answer X p p' t' new"
proof (cases pc)
  case (DWait rs)
  then show ?thesis using assms by (cases rs) (auto split: if_splits intro!: settles_same)
next
  case (DStop r k rs)
  then show ?thesis using assms by (auto intro!: settles_stopping)
qed (use assms in \<open>auto intro!: settles_same\<close>)

lemma stopper_settles:
  assumes "xstop_idle ch pc p = Some (p', t', new)" "goods answer p"
  shows "settles answer X p p' t' new"
proof (cases pc)
  case (OStop r k)
  then show ?thesis using assms by (auto intro!: settles_stopping)
qed (use assms in \<open>auto intro!: settles_same\<close>)

lemma waiter_settles:
  assumes "xwaiter pc p = Some (p', t', new)" "goods answer p"
  shows "settles answer X p p' t' new"
proof (cases pc)
  case (VWait r d)
  with assms(1) obtain pr where w: "wait_process (xproc p r) = Some pr" "t' = XWaiter VEnd" "new = []"
    "p' = (xupd r (on_proc (\<lambda>_. pr)) p)\<lparr>xp_waits := (xp_waits p)[d := True]\<rparr>"
    by (auto split: option.splits)
  have "keeps answer X p (xupd r (on_proc (\<lambda>_. pr)) p)"
    using assms(2) good_wait [OF _ w(1)] by (intro keeps_upd) (auto simp: goods_def)
  then have "keeps answer X p p'" by (simp add: w(4) keeps_def goods_def)
  then show ?thesis by (simp add: settles_def w)
qed (use assms in simp)

lemma xfire_settles:
  assumes f: "xfire order ch ts t p = Some (p', t', new)" and g: "goods answer p" and ok: "task_ok answer p t"
    and lt: "\<forall>r \<in> set (xowns t). r < length (xp_heap p)" and l: "linked p t"
    and c: "\<forall>r \<in> set (ch_buf (xp_available p)). quiet answer (xproc p r)" and sl: "\<forall>x \<in> set (xp_slots p). slot_ok answer p x"
    and fits: "\<forall>q. frame_fits (answer q)"
  shows "settles answer (set (xowns t)) p p' t' new"
proof (cases t)
  case (XExec req pc)
  then show ?thesis using exec_settles [OF _ g _ _ _ _ c sl] f ok lt l by simp
next
  case (XRun pc)
  then show ?thesis using xrun_settles [OF _ g _ _ _ fits] f ok lt l by simp
next
  case (XStopper pc)
  then show ?thesis using f g stopper_settles by simp
next
  case (XWg pc)
  then show ?thesis using f g by (cases pc) (auto intro!: settles_stopping)
next
  case (XStop pc)
  then show ?thesis using f g by (cases pc) (auto simp: chan_close_def split: option.splits if_splits intro!: settles_same)
qed (use f g ok lt start_settles replace_settles watch_settles reload_settles drain_settles waiter_settles in auto)

subsection \<open>The invariant of the sessions\<close>

definition serve_inv :: "(Frame \<Rightarrow> Frame) \<Rightarrow> xsystem \<Rightarrow> bool" where
  "serve_inv answer s \<longleftrightarrow> xinv s \<and> goods answer (xy_pool s) \<and> (\<forall>t \<in> set (xy_tasks s). task_ok answer (xy_pool s) t) \<and>
     (\<forall>r \<in> set (ch_buf (xp_available (xy_pool s))). quiet answer (xproc (xy_pool s) r)) \<and>
     (\<forall>x \<in> set (xp_slots (xy_pool s)). slot_ok answer (xy_pool s) x)"

lemma xinv_refs:
  assumes "xinv s"
  shows "t \<in> set (xy_tasks s) \<Longrightarrow> r \<in> set (xowns t) \<Longrightarrow> r < length (xp_heap (xy_pool s))"
    and "r \<in> set (ch_buf (xp_available (xy_pool s))) \<Longrightarrow> r < length (xp_heap (xy_pool s))"
    and "x \<in> set (xp_slots (xy_pool s)) \<Longrightarrow> sl_worker x < length (xp_heap (xy_pool s))"
  using assms by (auto simp: xinv_def xsys_refs_def xpool_refs_def xrefs_def)

lemma serve_inv_run:
  assumes inv: "serve_inv answer s" and step: "xsys_fire order ch i s = Some s'" and fits: "\<forall>q. frame_fits (answer q)"
  shows "serve_inv answer s'"
proof -
  let ?ts = "xy_tasks s" and ?p = "xy_pool s"
  from step obtain p' t' new where i: "i < length ?ts"
    and f: "xfire order ch ?ts (?ts ! i) ?p = Some (p', t', new)"
    and s': "s' = \<lparr>xy_pool = p', xy_tasks = ?ts[i := t'] @ new\<rparr>" by (rule xsys_fireE)
  have x: "xinv s" and g: "goods answer ?p" and ok: "\<forall>t \<in> set ?ts. task_ok answer ?p t"
    and c: "\<forall>r \<in> set (ch_buf (xp_available ?p)). quiet answer (xproc ?p r)"
    and sl: "\<forall>y \<in> set (xp_slots ?p). slot_ok answer ?p y"
    using inv by (simp_all add: serve_inv_def)
  have "linked ?p (?ts ! i)" using x i by (simp add: xinv_def)
  moreover have "\<forall>r \<in> set (xowns (?ts ! i)). r < length (xp_heap ?p)" using xinv_refs(1) [OF x nth_mem [OF i]] by blast
  ultimately have st: "settles answer (set (xowns (?ts ! i))) ?p p' t' new"
    using xfire_settles [OF f g _ _ _ c sl fits] ok i by simp
  have tame: "tame answer (xproc ?p r) (xproc p' r)" if "r < length (xp_heap ?p)" "r \<notin> set (xowns (?ts ! i))" for r
    using st that by (simp add: settles_def keeps_def)
  have "task_ok answer p' (?ts ! j)" if j: "j < length ?ts" "j \<noteq> i" for j
  proof (rule task_ok_tame)
    show "\<forall>r \<in> set (xowns (?ts ! j)). tame answer (xproc ?p r) (xproc p' r)"
      using xinv_exclusive(1) [OF x i] xinv_refs(1) [OF x nth_mem [OF j(1)]] j by (blast intro: tame)
  qed (use ok j in simp)
  then have "\<forall>t \<in> set (?ts[i := t']). task_ok answer p' t"
    using st i by (auto simp: in_set_conv_nth nth_list_update settles_def)
  then have tasks: "\<forall>t \<in> set (?ts[i := t'] @ new). task_ok answer p' t" using st by (auto simp: settles_def)
  have "quiet answer (xproc p' r)" if r: "r \<in> set (ch_buf (xp_available p'))" for r
  proof (cases "r \<in> set (ch_buf (xp_available ?p))")
    case True
    then have "tame answer (xproc ?p r) (xproc p' r)"
      using xinv_exclusive(2) [OF x i] xinv_refs(2) [OF x] by (blast intro: tame)
    then show ?thesis using c True by (simp add: tame_keeps)
  qed (use st r in \<open>auto simp: settles_def\<close>)
  moreover have "slot_ok answer p' y" if y: "y \<in> set (xp_slots p')" for y
  proof (cases "y \<in> set (xp_slots ?p)")
    case True
    show ?thesis
    proof (rule slot_ok_tame)
      show "tame answer (xproc ?p (sl_worker y)) (xproc p' (sl_worker y))" if "sl_buf y \<noteq> None"
        using xinv_exclusive(3) [OF x i _ True that] xinv_refs(3) [OF x True] by (blast intro: tame)
    qed (use sl True in simp)
  qed (use st y in \<open>auto simp: settles_def\<close>)
  ultimately show ?thesis
    using xinv_run [OF x step] st tasks by (simp add: serve_inv_def s' settles_def keeps_def)
qed

lemma serve_inv_proc:
  assumes inv: "serve_inv answer s" and r: "r < length (xp_heap (xy_pool s))"
    and g: "\<And>pr. pr = xproc (xy_pool s) r \<Longrightarrow> good answer pr \<Longrightarrow> good answer (h pr) \<and> tame answer pr (h pr)"
  shows "serve_inv answer (s\<lparr>xy_pool := xupd r (on_proc h) (xy_pool s)\<rparr>)"
proof -
  let ?p = "xy_pool s" and ?p' = "xupd r (on_proc h) (xy_pool s)"
  have gs: "goods answer ?p" using inv by (simp add: serve_inv_def)
  then have gr: "good answer (h (xproc ?p r)) \<and> tame answer (xproc ?p r) (h (xproc ?p r))"
    using g r by (simp add: goods_def)
  then have t: "tame answer (xproc ?p x) (xproc ?p' x)" for x by (auto simp: xproc_xupd)
  have "goods answer ?p'" using gs gr by (simp add: goods_def xproc_xupd)
  then show ?thesis
    using inv xinv_proc [of s r "on_proc h"] t task_ok_tame [of answer ?p _ ?p'] slot_ok_tame [of answer ?p _ ?p']
    by (auto simp: serve_inv_def tame_keeps(1) [OF t])
qed

lemma serve_inv_init: "xinit cfg php s \<Longrightarrow> serve_inv answer s"
  using xinv_init [of cfg php s]
  by (auto simp: serve_inv_def xinit_def XPool_New_def make_chan_def goods_def)

lemma serve_inv_call: "serve_inv answer s \<Longrightarrow> t \<in> xcalls \<Longrightarrow> serve_inv answer (s\<lparr>xy_tasks := xy_tasks s @ [t]\<rparr>)"
  using xinv_call [of s t] by (auto simp: serve_inv_def xcalls_def req_ok_def)

lemma serve_inv_step:
  assumes "xstep order (sdk_behaves answer) xcalls s s'" "serve_inv answer s" "\<forall>q. frame_fits (answer q)"
  shows "serve_inv answer s'"
  using assms
proof (cases rule: xstep.cases)
  case (writes r chunk)
  then show ?thesis using assms(2) good_emit by (auto intro!: serve_inv_proc)
next
  case (exits r signaled)
  then show ?thesis using assms(2) good_end by (auto intro!: serve_inv_proc)
qed (auto intro: serve_inv_run serve_inv_call)

lemma serve_reachable:
  assumes "\<forall>q. frame_fits (answer q)"
  shows "reachable (xinit cfg php) (xstep order (sdk_behaves answer) xcalls) s \<Longrightarrow> serve_inv answer s"
  by (induction rule: reachable.induct) (auto intro: serve_inv_init serve_inv_step [OF _ _ assms])

end
