(* ===== verification/ExtPoolProps.thy ===== *)
theory ExtPoolProps
  imports ExtPoolServe
begin

text \<open>
  Properties of the process pool: exclusive use of the pipes, responses that belong to their requests,
  and what the health check can see; and runs that show the hypotheses can hold.
\<close>

subsection \<open>Which processes are collected\<close>

text \<open>The workers whose input was closed, as the goroutines of their \<open>Stop\<close> know.\<close>

fun past_close :: "kpc \<Rightarrow> bool" where
  "past_close KFork = True"
| "past_close (KWait d) = True"
| "past_close k = False"

fun told :: "xtask \<Rightarrow> nat list" where
  "told (XRepl (QStop r k)) = (if past_close k then [r] else [])"
| "told (XStopper (OStop r k)) = (if past_close k then [r] else [])"
| "told (XReload (LAbort r k rs err)) = (if past_close k then [r] else [])"
| "told (XDrain (DStop r k rs)) = (if past_close k then [r] else [])"
| "told (XWg (GStop r k)) = (if past_close k then [r] else [])"
| "told (XWaiter (VWait r d)) = [r]"
| "told t = []"

lemma send_frame_fields:
  "pr_in_open (snd (send_frame f pr)) = pr_in_open pr" "pr_waited (snd (send_frame f pr)) = pr_waited pr"
  by (cases rule: send_frame_cases [of f pr]; simp)+

lemma recv_frame_fields:
  "recv_frame pr = Some (res, pr') \<Longrightarrow> pr_in_open pr' = pr_in_open pr \<and> pr_waited pr' = pr_waited pr"
  by (auto simp: recv_frame_def split: if_splits prod.splits)

lemma await_ready_fields:
  "await_ready pr = Some (err, pr') \<Longrightarrow> pr_in_open pr' = pr_in_open pr \<and> pr_waited pr' = pr_waited pr"
  by (auto simp: await_ready_def kill_def end_process_def dest!: recv_frame_fields split: option.splits sum.splits if_splits)

text \<open>What a transition does to the two ends of a process.\<close>

definition ends_ok :: "nat set \<Rightarrow> XPool \<Rightarrow> XPool \<Rightarrow> bool" where
  "ends_ok X p p' \<longleftrightarrow>
     (\<forall>r < length (xp_heap p). (pr_in_open (xproc p' r) \<longrightarrow> pr_in_open (xproc p r)) \<and>
        (pr_waited (xproc p' r) \<longrightarrow> pr_waited (xproc p r) \<or> r \<in> X)) \<and>
     (\<forall>r < length (xp_heap p'). length (xp_heap p) \<le> r \<longrightarrow> \<not> pr_waited (xproc p' r))"

lemma ends_same: "xp_heap p' = xp_heap p \<Longrightarrow> ends_ok X p p'"
  by (simp add: ends_ok_def xproc_def)

lemma ends_still: "(\<And>w. xw_proc (f w) = xw_proc w) \<Longrightarrow> ends_ok X p (xupd r f p)"
  by (simp add: ends_ok_def xproc_xupd) (simp add: xproc_def)

lemma ends_proc:
  "(pr_in_open (g (xproc p r)) \<Longrightarrow> pr_in_open (xproc p r)) \<Longrightarrow> (pr_waited (g (xproc p r)) \<Longrightarrow> pr_waited (xproc p r) \<or> r \<in> X) \<Longrightarrow>
   ends_ok X p (xupd r (on_proc g) p)"
  by (auto simp: ends_ok_def xproc_xupd)

lemma ends_stop:
  assumes "xStop ch r k p = Some (p', out)" "past_close k \<Longrightarrow> \<not> pr_in_open (xproc p r)" "r < length (xp_heap p)"
  shows "ends_ok X p p' \<and> (case out of KMore k' \<Rightarrow> past_close k' \<longrightarrow> \<not> pr_in_open (xproc p' r)
    | KFork_waiter k' d \<Rightarrow> \<not> pr_in_open (xproc p' r) | KDone \<Rightarrow> True)"
proof (cases k)
  case KState
  then show ?thesis using assms by (auto intro!: ends_still)
next
  case KWrite
  then show ?thesis using assms by (auto intro!: ends_proc simp: send_frame_fields)
next
  case KClose
  then show ?thesis using assms by (auto intro!: ends_proc simp: close_stdin_def xproc_xupd)
next
  case KFork
  then show ?thesis using assms by (auto intro!: ends_same)
next
  case (KWait d)
  then have "out = KDone" "p' = p \<or> p' = xupd r (on_proc kill) p" using assms(1) by (auto split: xchoice.splits if_splits)
  moreover have "ends_ok X p (xupd r (on_proc kill) p)" by (rule ends_proc) (simp_all add: kill_def end_process_def split: if_splits)
  ultimately show ?thesis using ends_same [of p p X] by auto
qed

lemma ends_spawn:
  assumes "xspawnWorker order ch s p = Some (p', out)"
  shows "ends_ok X p p'"
proof (cases s)
  case NStart
  have "ends_ok X p (p\<lparr>xp_nextID := n, xp_heap := xp_heap p @ [new_XWorker i env]\<rparr>)" for n i env
    by (auto simp: ends_ok_def xproc_alloc new_XWorker_def start_process_def less_Suc_eq)
  then show ?thesis using assms NStart by (auto simp: Let_def split: if_splits intro: ends_same)
next
  case (NReady r)
  then obtain err pr where "await_ready (xproc p r) = Some (err, pr)" "p' = xupd r (on_proc (\<lambda>_. pr)) p"
    using assms by (auto split: option.splits)
  then show ?thesis using await_ready_fields by (auto intro!: ends_proc)
next
  case (NPublish r)
  then show ?thesis using assms by (auto intro!: ends_same)
qed

text \<open>\<open>ends_ok\<close> of a transition, and what the goroutines of a \<open>Stop\<close> know afterwards.\<close>

definition ends_step :: "nat set \<Rightarrow> XPool \<Rightarrow> XPool \<Rightarrow> xtask \<Rightarrow> xtask list \<Rightarrow> bool" where
  "ends_step X p p' t' new \<longleftrightarrow> ends_ok X p p' \<and> (\<forall>x \<in> insert t' (set new). \<forall>r \<in> set (told x). \<not> pr_in_open (xproc p' r))"

lemma ends_stopping:
  assumes "stopping r (xStop ch r k p) cont stopped = Some (p', t', new)" "past_close k \<Longrightarrow> \<not> pr_in_open (xproc p r)"
    and "r < length (xp_heap p)" "\<And>k. told (cont k) = (if past_close k then [r] else [])" "told stopped = []"
  shows "ends_step X p p' t' new"
  using assms(1)
proof (cases rule: stopping_SomeE)
  case (cont k')
  then show ?thesis using ends_stop [OF cont(1) assms(2,3), of X] assms(4) by (simp add: ends_step_def)
next
  case (waiter k' d)
  then show ?thesis using ends_stop [OF waiter(1) assms(2,3), of X] assms(4) by (simp add: ends_step_def)
next
  case stopped
  then show ?thesis using ends_stop [OF stopped(1) assms(2,3), of X] assms(5) by (simp add: ends_step_def)
qed

lemma ends_spawning:
  assumes "spawning (xspawnWorker order ch s p) cont failed spawned = Some (p', t', new)"
    and "\<And>s. told (cont s) = []" "\<And>e. told (failed e) = []" "\<And>r. told (spawned r) = []"
  shows "ends_step X p p' t' new"
  using assms by (elim spawning_SomeE) (auto simp: ends_step_def intro: ends_spawn)

lemma ends_step_same:
  assumes "xp_heap p' = xp_heap p" "told t' = []" "\<forall>x \<in> set new. told x = []"
  shows "ends_step X p p' t' new"
  using assms by (auto simp: ends_step_def intro: ends_same)

lemma ends_send:
  assumes "xsend_then r p sent panicked = Some (p', t', new)" "told sent = []" "told panicked = []"
  shows "ends_step X p p' t' new"
  using assms by (elim xsend_then_SomeE) (auto intro!: ends_step_same)

lemma ends_run:
  assumes "xrun pc p = Some (p', t', new)"
  shows "ends_step X p p' t' new"
proof -
  have "ends_ok X p p'"
  proof (cases pc)
    case (RWrite r req d)
    then obtain err where "p' = xupd r (on_proc (\<lambda>_. snd (send_frame req (xproc p r)))) p"
      using assms by (auto split: prod.splits)
    then show ?thesis by (auto intro!: ends_proc simp: send_frame_fields)
  next
    case (RRead r req d)
    then obtain res pr where "recv_frame (xproc p r) = Some (res, pr)" "p' = xupd r (on_proc (\<lambda>_. pr)) p"
      using assms by (auto split: option.splits)
    then show ?thesis by (auto intro!: ends_proc dest!: recv_frame_fields)
  next
    case (RSend r req d res)
    then show ?thesis using assms by (auto intro!: ends_same)
  qed (use assms in \<open>auto intro!: ends_still split: if_splits\<close>)
  moreover have "told t' = [] \<and> new = []" using assms by (elim xrun_SomeE) (auto split: prod.splits option.splits if_splits)
  ultimately show ?thesis by (simp add: ends_step_def)
qed

lemma ends_exec:
  assumes "XPool_Exec ch req pc p = Some (p', t', new)"
  shows "ends_step X p p' t' new"
proof (cases pc)
  case (EReady r h)
  with assms obtain res pr where w: "recv_frame (xproc p r) = Some (res, pr)" "p' = xupd r (on_proc (\<lambda>_. pr)) p"
    "told t' = []" "\<forall>x \<in> set new. told x = []"
    by (auto simp: Let_def split: option.splits sum.splits if_splits)
  then have "ends_ok X p p'" by (auto intro!: ends_proc dest!: recv_frame_fields)
  then show ?thesis using w(3,4) by (simp add: ends_step_def)
next
  case (EReturn r h)
  then show ?thesis using assms by (auto intro!: ends_send)
qed (use assms in \<open>auto intro!: ends_step_same simp: Let_def split: xchoice.splits recv_result.splits option.splits sum.splits if_splits\<close>)

lemma xfire_ends:
  assumes f: "xfire order ch ts t p = Some (p', t', new)" and c: "\<forall>r \<in> set (told t). \<not> pr_in_open (xproc p r)"
    and lt: "\<forall>r \<in> set (xrefs t). r < length (xp_heap p)"
  shows "ends_step (set (told t)) p p' t' new"
proof (cases t)
  case (XStart pc)
  then show ?thesis
    using f by (auto elim!: XPool_Start_SomeE intro: ends_step_same ends_spawning ends_send [OF sym] ends_spawning [OF sym])
next
  case (XExec req pc)
  then show ?thesis using f ends_exec by simp
next
  case (XRun pc)
  then show ?thesis using f ends_run by simp
next
  case (XRepl pc)
  then show ?thesis
    using f c lt by (cases pc) (auto simp: xrefs_def intro: ends_step_same ends_spawning ends_send ends_stopping split: if_splits)
next
  case (XWatch pc)
  then show ?thesis using f
    by (auto elim!: xwatchdog_SomeE intro: ends_step_same ends_send [OF sym] ends_spawning [OF sym]
        split: xchoice.splits if_splits recv_result.splits)
next
  case (XStopper pc)
  then show ?thesis using f c lt by (cases pc) (auto simp: xrefs_def intro: ends_step_same ends_stopping split: if_splits)
next
  case (XReload pc)
  then show ?thesis using f c lt
    by (auto elim!: xReload_SomeE simp: xrefs_def
        intro: ends_step_same ends_send [OF sym] ends_spawning [OF sym] ends_stopping [OF sym] split: if_splits)
next
  case (XDrain pc)
  then show ?thesis using f c lt
    by (auto elim!: xdrain_old_SomeE simp: xrefs_def intro: ends_step_same ends_stopping [OF sym] split: if_splits)
next
  case (XWg pc)
  then show ?thesis using f c lt by (cases pc) (auto simp: xrefs_def intro: ends_step_same ends_stopping split: if_splits)
next
  case (XStop pc)
  then show ?thesis using f by (cases pc) (auto intro!: ends_step_same split: option.splits if_splits)
next
  case (XWaiter pc)
  then show ?thesis using f
    by (cases pc) (auto simp: ends_step_def ends_ok_def xproc_xupd wait_process_def split: option.splits if_splits)
qed

definition ends_inv :: "xsystem \<Rightarrow> bool" where
  "ends_inv s \<longleftrightarrow> xinv s \<and>
     (\<forall>r < length (xp_heap (xy_pool s)). pr_waited (xproc (xy_pool s) r) \<longrightarrow> \<not> pr_in_open (xproc (xy_pool s) r)) \<and>
     (\<forall>t \<in> set (xy_tasks s). \<forall>r \<in> set (told t). \<not> pr_in_open (xproc (xy_pool s) r))"

lemma told_refs: "r \<in> set (told t) \<Longrightarrow> r \<in> set (xrefs t)"
  by (cases t rule: told.cases) (auto simp: xrefs_def split: if_splits)

lemma xinv_xrefs: "xinv s \<Longrightarrow> t \<in> set (xy_tasks s) \<Longrightarrow> r \<in> set (xrefs t) \<Longrightarrow> r < length (xp_heap (xy_pool s))"
  by (auto simp: xinv_def xsys_refs_def)

lemma ends_inv_run:
  assumes inv: "ends_inv s" and step: "xsys_fire order ch i s = Some s'"
  shows "ends_inv s'"
proof -
  let ?ts = "xy_tasks s" and ?p = "xy_pool s"
  from step obtain p' t' new where i: "i < length ?ts"
    and f: "xfire order ch ?ts (?ts ! i) ?p = Some (p', t', new)"
    and s': "s' = \<lparr>xy_pool = p', xy_tasks = ?ts[i := t'] @ new\<rparr>" by (rule xsys_fireE)
  have x: "xinv s" and w: "\<forall>r < length (xp_heap ?p). pr_waited (xproc ?p r) \<longrightarrow> \<not> pr_in_open (xproc ?p r)"
    and t: "\<forall>t \<in> set ?ts. \<forall>r \<in> set (told t). \<not> pr_in_open (xproc ?p r)"
    using inv by (simp_all add: ends_inv_def)
  have st: "ends_step (set (told (?ts ! i))) ?p p' t' new"
    using xfire_ends [OF f] t nth_mem [OF i] xinv_xrefs [OF x nth_mem [OF i]] by blast
  have lt: "r < length (xp_heap ?p)" if "t \<in> set ?ts" "r \<in> set (told t)" for t r
    using that told_refs xinv_xrefs [OF x] by blast
  have "\<not> pr_in_open (xproc p' r)" if "r < length (xp_heap p')" "pr_waited (xproc p' r)" for r
    using st that w t nth_mem [OF i] by (cases "r < length (xp_heap ?p)") (auto simp: ends_step_def ends_ok_def)
  moreover have "\<forall>r \<in> set (told x). \<not> pr_in_open (xproc p' r)" if "x \<in> set (?ts[i := t'] @ new)" for x
  proof -
    have "x \<in> insert t' (set new) \<or> x \<in> set ?ts" using that set_upd_app [OF i, of t' new] by blast
    then show ?thesis using st t lt unfolding ends_step_def ends_ok_def by blast
  qed
  ultimately show ?thesis using xinv_run [OF x step] by (simp add: ends_inv_def s')
qed

lemma ends_inv_step:
  assumes "xstep order behaves xcalls s s'" "ends_inv s"
  shows "ends_inv s'"
  using assms
proof (cases rule: xstep.cases)
  case (writes r chunk)
  then show ?thesis using assms(2) xinv_proc by (auto simp: ends_inv_def xproc_xupd write_out_def split: if_splits)
next
  case (exits r signaled)
  then show ?thesis using assms(2) xinv_proc by (auto simp: ends_inv_def xproc_xupd end_process_def split: if_splits)
next
  case (call t)
  then have "told t = []" by (auto simp: xcalls_def)
  then show ?thesis using call assms(2) xinv_call by (auto simp: ends_inv_def)
qed (auto intro: ends_inv_run)

lemma ends_inv_init: "xinit cfg php s \<Longrightarrow> ends_inv s"
  using xinv_init [of cfg php s] by (simp add: ends_inv_def) (simp add: xinit_def XPool_New_def)

interpretation xends: inductive_invariant "xinit cfg php" "xstep order behaves xcalls" ends_inv
  by unfold_locales (auto intro: ends_inv_step ends_inv_init)

subsection \<open>Properties\<close>


text \<open>
  C4: No request gets another request's response. When the worker processes run the SDK's loop with an
  application \<open>answer\<close>, every response that \<open>Exec\<close> returns is the application's answer to that very
  request, in every interleaving with timeouts, crashes, recycling, scaling, reloads and shutdowns.
\<close>
theorem xresponse_is_own:
  assumes "\<forall>q. frame_fits (answer q)"
    and "reachable (xinit cfg php) (xstep order (sdk_behaves answer) xcalls) s"
    and "XExec req (EEnd (Resp f)) \<in> set (xy_tasks s)"
  shows "f = answer req"
proof -
  have "task_ok answer (xy_pool s) (XExec req (EEnd (Resp f)))"
    using serve_reachable [OF assms(1,2)] assms(3) unfolding serve_inv_def by blast
  then show ?thesis by simp
qed

text \<open>
  C40: The health check is blind to crashes. As long as no \<open>Stop\<close> has closed a worker's input, the
  watchdog passes over the worker, even if its process has long exited: the process state it looks at
  is set only by the \<open>Wait\<close> of a \<open>Stop\<close>.
\<close>
theorem health_check_blind:
  assumes "reachable (xinit cfg php) (xstep order behaves xcalls) s"
    and "r < length (xp_heap (xy_pool s))" "pr_in_open (xproc (xy_pool s) r)"
  shows "xwatchdog order ch (WAlive r rs) (xy_pool s) = Some (xy_pool s, XWatch (WState rs), [])"
proof -
  have "\<not> pr_waited (xproc (xy_pool s) r)"
    using xends.reachable_holds [OF assms(1)] assms(2,3) by (auto simp: ends_inv_def)
  then show ?thesis by (simp add: IsAlive_def)
qed

subsection \<open>Runs\<close>

datatype xmove = XMove nat xchoice | XCall xtask | XEmit nat "Frame list" | XEnds nat bool

fun xmove_step :: "(byte list \<Rightarrow> byte list \<Rightarrow> bool) \<Rightarrow> xmove \<Rightarrow> xsystem \<Rightarrow> xsystem option" where
  "xmove_step behaves (XMove i ch) s = xsys_fire (\<lambda>ks. ks) ch i s"
| "xmove_step behaves (XCall t) s = Some (s\<lparr>xy_tasks := xy_tasks s @ [t]\<rparr>)"
| "xmove_step behaves (XEmit r fs) s =
     (if r < length (xp_heap (xy_pool s)) \<and> \<not> pr_exited (xproc (xy_pool s) r) \<and>
        behaves (pr_in (xproc (xy_pool s) r)) (pr_out (xproc (xy_pool s) r) @ bytes fs)
      then Some (s\<lparr>xy_pool := xupd r (on_proc (write_out (bytes fs))) (xy_pool s)\<rparr>) else None)"
| "xmove_step behaves (XEnds r signaled) s =
     (if r < length (xp_heap (xy_pool s))
      then Some (s\<lparr>xy_pool := xupd r (on_proc (end_process signaled)) (xy_pool s)\<rparr>) else None)"

fun xrun_moves :: "(byte list \<Rightarrow> byte list \<Rightarrow> bool) \<Rightarrow> xmove list \<Rightarrow> xsystem \<Rightarrow> xsystem option" where
  "xrun_moves behaves [] s = Some s"
| "xrun_moves behaves (m # ms) s = (case xmove_step behaves m s of None \<Rightarrow> None | Some s \<Rightarrow> xrun_moves behaves ms s)"

lemma xmove_xstep: "xmove_step behaves m s = Some s' \<Longrightarrow> (\<And>t. m = XCall t \<Longrightarrow> t \<in> A) \<Longrightarrow> xstep (\<lambda>ks. ks) behaves A s s'"
  by (cases m) (auto intro: xstep.intros split: if_splits)

lemma xrun_moves_reachable:
  assumes "xrun_moves behaves ms s = Some s'" "\<forall>t. XCall t \<in> set ms \<longrightarrow> t \<in> A" "reachable init (xstep (\<lambda>ks. ks) behaves A) s"
  shows "reachable init (xstep (\<lambda>ks. ks) behaves A) s'"
  using assms
proof (induction ms arbitrary: s)
  case (Cons m ms)
  then obtain s1 where "xmove_step behaves m s = Some s1" "xrun_moves behaves ms s1 = Some s'" by (auto split: option.splits)
  moreover have "xstep (\<lambda>ks. ks) behaves A s s1" using calculation(1) Cons.prems(2) by (intro xmove_xstep) auto
  ultimately show ?case
    using Cons.IH [of s1] Cons.prems(2) reachable.next_state [OF Cons.prems(3), of s1] by simp
qed simp

definition ext_cfg :: PoolConfig where
  "ext_cfg = \<lparr>po_MinWorkers = 1, po_MaxWorkers = 2, po_MaxJobs = 0, po_MaxMemory = '''', po_IdleTimeout = 0,
     po_AllocateTimeout = 1, po_RequestTimeout = 1\<rparr>"

definition ext_php :: PHPConfig where
  "ext_php = \<lparr>ph_Version = ''auto'', ph_Mode = ''worker'', ph_Binary = ''php'', ph_Worker = ''w.php'', ph_INI = []\<rparr>"

definition ext_start :: xsystem where
  "ext_start = \<lparr>xy_pool = XPool_New ext_cfg ext_php, xy_tasks = [XStart (SLoop 1)]\<rparr>"

definition ext_req :: "byte \<Rightarrow> Frame" where
  "ext_req b = \<lparr>fr_Type = TypeRequest, fr_Flags = 0, fr_StreamID = 0, fr_Headers = [], fr_Payload = [b]\<rparr>"

definition ext_answer :: "Frame \<Rightarrow> Frame" where
  "ext_answer q = \<lparr>fr_Type = TypeResponse, fr_Flags = 0, fr_StreamID = 0, fr_Headers = [], fr_Payload = take 1 (fr_Payload q)\<rparr>"

definition go :: "nat \<Rightarrow> nat \<Rightarrow> xmove list" where
  "go n i = replicate n (XMove i Ready)"

definition ext_boot :: "xmove list" where
  "ext_boot = go 2 0 @ [XEmit 0 [sdk_ready]] @ go 5 0"

lemma ext_init: "xinit ext_cfg ext_php ext_start"
  by (simp add: xinit_def ext_start_def ext_cfg_def)


lemma ext_reachable:
  assumes "xrun_moves behaves ms ext_start = Some s" "\<forall>t. XCall t \<in> set ms \<longrightarrow> t \<in> xcalls"
  shows "reachable (xinit ext_cfg ext_php) (xstep (\<lambda>ks. ks) behaves xcalls) s"
  using assms reachable.start [of "xinit ext_cfg ext_php", OF ext_init] by (rule xrun_moves_reachable)

lemma ext_calls: "XExec (ext_req b) EEnter \<in> xcalls"
  by (simp add: xcalls_def ext_req_def frame_fits_def)

text \<open>Up to the writing of a request by the goroutine that has the worker.\<close>

definition ext_writing :: "xmove list" where
  "ext_writing = ext_boot @ [XCall (XExec (ext_req 7) EEnter)] @ go 4 2 @ go 2 3"


text \<open>
  A request that times out and is answered too late, its worker being replaced, and a second request
  that is served by the replacement.
\<close>

definition ext_timeout :: "xmove list" where
  "ext_timeout = ext_boot @ [XCall (XExec (ext_req 7) EEnter)] @ go 4 2 @ go 3 3 @ [XMove 2 TimedOut, XMove 2 Ready] @
     go 4 4 @ [XEmit 0 [ext_answer (ext_req 7), sdk_ready]] @ go 5 3 @ [XMove 4 TimedOut] @ go 3 4 @ [XEmit 1 [sdk_ready]] @ go 3 4 @
     [XCall (XExec (ext_req 9) EEnter)] @ go 4 6 @ go 3 7 @ [XEmit 1 [ext_answer (ext_req 9), sdk_ready]] @ go 5 7 @ go 5 6"

theorem xresponse_is_own_witness:
  "\<exists>s f. xrun_moves (sdk_behaves ext_answer) ext_timeout ext_start = Some s \<and>
     XExec (ext_req 7) (EEnd RequestTimeout) \<in> set (xy_tasks s) \<and>
     XExec (ext_req 9) (EEnd (Resp f)) \<in> set (xy_tasks s) \<and> f = ext_answer (ext_req 9)"
proof -
  have "map_option (\<lambda>s. (xy_tasks s ! 2, xy_tasks s ! 6, length (xy_tasks s))) (xrun_moves (sdk_behaves ext_answer) ext_timeout ext_start) =
      Some (XExec (ext_req 7) (EEnd RequestTimeout), XExec (ext_req 9) (EEnd (Resp (ext_answer (ext_req 9)))), 8)"
    by code_simp
  then obtain s where s: "xrun_moves (sdk_behaves ext_answer) ext_timeout ext_start = Some s" "length (xy_tasks s) = 8"
    "xy_tasks s ! 2 = XExec (ext_req 7) (EEnd RequestTimeout)"
    "xy_tasks s ! 6 = XExec (ext_req 9) (EEnd (Resp (ext_answer (ext_req 9))))" by auto
  have fits: "\<forall>q. frame_fits (ext_answer q)" by (auto simp: frame_fits_def ext_answer_def min_def)
  have "reachable (xinit ext_cfg ext_php) (xstep (\<lambda>ks. ks) (sdk_behaves ext_answer) xcalls) s"
    by (rule ext_reachable [OF s(1)]) (auto simp: ext_timeout_def ext_boot_def go_def ext_calls)
  moreover have mem: "XExec (ext_req 7) (EEnd RequestTimeout) \<in> set (xy_tasks s)"
    "XExec (ext_req 9) (EEnd (Resp (ext_answer (ext_req 9)))) \<in> set (xy_tasks s)"
    using s nth_mem [of 2 "xy_tasks s"] nth_mem [of 6 "xy_tasks s"] by simp_all
  ultimately show ?thesis using xresponse_is_own [OF fits, of ext_cfg ext_php _ s "ext_req 9"] s(1) by blast
qed

text \<open>A worker whose process has exited is still in the channel, and the watchdog passes over it.\<close>

theorem health_check_blind_witness:
  "\<exists>s. xrun_moves (\<lambda>_ _. True) (ext_boot @ [XEnds 0 False]) ext_start = Some s \<and>
     pr_exited (xproc (xy_pool s) 0) \<and> ch_buf (xp_available (xy_pool s)) = [0] \<and>
     xwatchdog (\<lambda>ks. ks) Ready (WAlive 0 []) (xy_pool s) = Some (xy_pool s, XWatch (WState []), [])"
proof -
  let ?run = "xrun_moves (\<lambda>_ _. True) (ext_boot @ [XEnds 0 False]) ext_start"
  have "map_option (\<lambda>s. (length (xp_heap (xy_pool s)), pr_in_open (xproc (xy_pool s) 0), pr_exited (xproc (xy_pool s) 0),
      ch_buf (xp_available (xy_pool s)))) ?run = Some (1, True, True, [0])"
    by code_simp
  then obtain s where s: "?run = Some s" "length (xp_heap (xy_pool s)) = 1" "pr_in_open (xproc (xy_pool s) 0)"
    "pr_exited (xproc (xy_pool s) 0)" "ch_buf (xp_available (xy_pool s)) = [0]" by auto
  have "reachable (xinit ext_cfg ext_php) (xstep (\<lambda>ks. ks) (\<lambda>_ _. True) xcalls) s"
    by (rule ext_reachable [OF s(1)]) (auto simp: ext_boot_def go_def)
  from health_check_blind [OF this, of 0 Ready "[]"] s show ?thesis by auto
qed

subsection \<open>A reload that fails\<close>

definition reload_cfg :: PoolConfig where
  "reload_cfg = ext_cfg\<lparr>po_MinWorkers := 2, po_MaxWorkers := 4\<rparr>"

definition reload_start :: xsystem where
  "reload_start = \<lparr>xy_pool = XPool_New reload_cfg ext_php, xy_tasks = [XStart (SLoop 2)]\<rparr>"

definition failed_reload :: "xmove list" where
  "failed_reload = go 2 0 @ [XEmit 0 [sdk_ready]] @ go 5 0 @ [XEmit 1 [sdk_ready]] @ go 5 0 @ [XCall (XReload LSnap)] @
     go 3 2 @ [XEmit 2 [sdk_ready]] @ go 4 2 @ [XMove 2 StartFails] @ go 5 2 @ [XMove 2 TimedOut, XMove 2 Ready]"

text \<open>
  A reload that fails leaves dead workers behind. Here the second of two new processes cannot be
  started: \<open>Reload\<close> stops the first one and returns the error, but that worker, its process killed,
  stays in the list and in the channel, where the next requests find it.
\<close>
theorem failed_reload_keeps_dead_worker:
  "\<exists>s. reachable (xinit reload_cfg ext_php) (xstep (\<lambda>ks. ks) (sdk_behaves ext_answer) xcalls) s \<and>
     xy_tasks s ! 2 = XReload (LEnd (Some StartFailed)) \<and> pr_exited (xproc (xy_pool s) 2) \<and>
     2 \<in> set (xp_workers (xy_pool s)) \<and> 2 \<in> set (ch_buf (xp_available (xy_pool s)))"
proof -
  let ?run = "xrun_moves (sdk_behaves ext_answer) failed_reload reload_start"
  have "map_option (\<lambda>s. (xy_tasks s ! 2, pr_exited (xproc (xy_pool s) 2), xp_workers (xy_pool s), ch_buf (xp_available (xy_pool s)))) ?run =
      Some (XReload (LEnd (Some StartFailed)), True, [0, 1, 2], [0, 1, 2])"
    by code_simp
  then obtain s where s: "?run = Some s" "xy_tasks s ! 2 = XReload (LEnd (Some StartFailed))" "pr_exited (xproc (xy_pool s) 2)"
    "xp_workers (xy_pool s) = [0, 1, 2]" "ch_buf (xp_available (xy_pool s)) = [0, 1, 2]" by auto
  have "xinit reload_cfg ext_php reload_start" by (simp add: xinit_def reload_start_def reload_cfg_def)
  then have "reachable (xinit reload_cfg ext_php) (xstep (\<lambda>ks. ks) (sdk_behaves ext_answer) xcalls) s"
    by (intro xrun_moves_reachable [OF s(1)] reachable.start) (auto simp: failed_reload_def go_def xcalls_def)
  with s show ?thesis by auto
qed

end
