(* ===== verification/PhpLang.thy ===== *)
theory PhpLang
  imports Digits "HOL-Library.AList"
begin

text \<open>
  What the PHP side of the repository uses of its language (PHP 8.1 or later, 64-bit, strict types):
  byte strings with \<^verbatim>\<open>ord\<close>, \<^verbatim>\<open>chr\<close>, \<^verbatim>\<open>pack\<close> and \<^verbatim>\<open>unpack\<close>, values, and arrays, which are ordered
  and whose keys are integers or strings that do not read as integers.
\<close>

subsection \<open>Bytes\<close>

definition ord :: "char \<Rightarrow> int" where
  "ord c = int (of_char c)"

definition chr :: "int \<Rightarrow> char" where
  "chr i = char_of (nat (i mod 256))"

text \<open>\<^verbatim>\<open>pack\<close> of the formats \<open>n\<close>, \<open>N\<close> and \<open>J\<close>: the low 16, 32 and 64 bits, most significant byte first.\<close>

fun pack_be :: "nat \<Rightarrow> int \<Rightarrow> string" where
  "pack_be 0 i = []"
| "pack_be (Suc n) i = pack_be n (i div 256) @ [chr i]"

definition be :: "string \<Rightarrow> int" where
  "be s = foldl (\<lambda>x c. x * 256 + ord c) 0 s"

text \<open>\<^verbatim>\<open>unpack\<close> reads a prefix of its argument and fails on one that is too short.\<close>

definition unpack_be :: "nat \<Rightarrow> string \<Rightarrow> int option" where
  "unpack_be n s = (if length s < n then None else Some (be (take n s)))"

lemma ord_chr [simp]: "ord (chr i) = i mod 256"
  by (simp add: ord_def chr_def of_char_of zmod_int)

lemma chr_ord [simp]: "chr (ord c) = c"
proof -
  have "(of_char c :: nat) mod 256 = of_char c" by (metis char_of_char of_char_of)
  then show ?thesis by (simp add: chr_def ord_def flip: zmod_int [of _ 256, simplified])
qed

lemma ord_bounds: "0 \<le> ord c" "ord c < 256"
proof -
  have "ord c = ord c mod 256" by (metis chr_ord ord_chr)
  then show "0 \<le> ord c" "ord c < 256" by (metis pos_mod_bound pos_mod_sign zero_less_numeral)+
qed

lemma ord_inj [simp]: "ord c = ord d \<longleftrightarrow> c = d"
  by (metis chr_ord)

lemma length_pack_be [simp]: "length (pack_be n i) = n"
  by (induction n arbitrary: i) simp_all

lemma be_snoc [simp]: "be (s @ [c]) = be s * 256 + ord c"
  by (simp add: be_def)

lemma be_Nil [simp]: "be [] = 0"
  by (simp add: be_def)

lemma be_pack_be [simp]: "be (pack_be n i) = i mod 256 ^ n"
proof (induction n arbitrary: i)
  case (Suc n)
  show ?case using zmod_zmult2_eq [of "256 ^ n" i 256] by (simp add: Suc.IH mult.commute)
qed simp

lemma be_bounds: "0 \<le> be s \<and> be s < 256 ^ length s"
proof (induction s rule: rev_induct)
  case (snoc c s)
  then show ?case using ord_bounds [of c] by (auto simp: algebra_simps)
qed simp

lemma pack_be_be [simp]: "length s = n \<Longrightarrow> pack_be n (be s) = s"
proof (induction s arbitrary: n rule: rev_induct)
  case (snoc c s)
  have "(be s * 256 + ord c) div 256 = be s" using ord_bounds [of c] by simp
  moreover have "chr (be s * 256 + ord c) = c" by (metis chr_def chr_ord mod_mult_self3)
  ultimately show ?case using snoc by auto
qed simp

lemma unpack_pack_be [simp]: "unpack_be n (pack_be n i @ s) = Some (i mod 256 ^ n)"
  by (simp add: unpack_be_def)

subsection \<open>Values and arrays\<close>

datatype pkey = KInt int | KStr string

text \<open>A float is its bit pattern.\<close>

datatype phpval =
    PNull
  | PBool bool
  | PInt int
  | PFloat "64 word"
  | PStr string
  | PArr "(pkey \<times> phpval) list"
  | PObject nat

definition in_int64 :: "int \<Rightarrow> bool" where
  "in_int64 i \<longleftrightarrow> - (2 ^ 63) \<le> i \<and> i < 2 ^ 63"

text \<open>A string that is the decimal of an integer is that integer when it is used as a key.\<close>

definition int_key :: "string \<Rightarrow> int option" where
  "int_key s =
     (let neg = (s \<noteq> [] \<and> hd s = CHR ''-'');
          ds = (if neg then tl s else s)
      in if ds = [] \<or> \<not> list_all is_digit ds \<or> (hd ds = CHR ''0'' \<and> 1 < length s) \<or> 19 < length ds then None
         else let v = (if neg then - int (read_nat ds) else int (read_nat ds)) in if in_int64 v then Some v else None)"

definition str_key :: "string \<Rightarrow> pkey" where
  "str_key s = (case int_key s of Some i \<Rightarrow> KInt i | None \<Rightarrow> KStr s)"

fun key_str :: "pkey \<Rightarrow> string" where
  "key_str (KInt i) = show_int i"
| "key_str (KStr s) = s"

definition array_set :: "pkey \<Rightarrow> 'v \<Rightarrow> (pkey \<times> 'v) list \<Rightarrow> (pkey \<times> 'v) list" where
  "array_set k v a = AList.update k v a"

definition list_array :: "'v list \<Rightarrow> (pkey \<times> 'v) list" where
  "list_array vs = zip (map (\<lambda>i. KInt (int i)) [0 ..< length vs]) vs"

definition array_is_list :: "(pkey \<times> 'v) list \<Rightarrow> bool" where
  "array_is_list a \<longleftrightarrow> map fst a = map (\<lambda>i. KInt (int i)) [0 ..< length a]"

text \<open>What the engine guarantees of every value: integers of 64 bits, and arrays with distinct keys, none
  of them a string that reads as an integer.\<close>

fun key_ok :: "pkey \<Rightarrow> bool" where
  "key_ok (KInt i) = in_int64 i"
| "key_ok (KStr s) = (int_key s = None)"

fun php_ok :: "phpval \<Rightarrow> bool" where
  "php_ok (PInt i) = in_int64 i"
| "php_ok (PArr a) = (distinct (map fst a) \<and> (\<forall>(k, v) \<in> set a. key_ok k \<and> php_ok v))"
| "php_ok v = True"

lemma int_key_show_int:
  assumes "in_int64 i"
  shows "int_key (show_int i) = Some i"
proof -
  have len: "length (show_nat (nat \<bar>i\<bar>)) \<le> Suc 18"
    using assms by (intro length_show_nat) (auto simp: in_int64_def)
  show ?thesis
  proof (cases "i < 0")
    case True
    then have "hd (show_nat (nat (- i))) \<noteq> CHR ''0''" using hd_show_nat [of "nat (- i)"] by simp
    then show ?thesis using assms True len by (simp add: int_key_def show_int_def Let_def)
  next
    case False
    have h: "hd (show_nat (nat i)) \<noteq> CHR ''-''" using hd_show_nat_digit [of "nat i"] by force
    have "hd (show_nat (nat i)) = CHR ''0'' \<Longrightarrow> length (show_nat (nat i)) = 1" using hd_show_nat [of "nat i"] by simp
    then show ?thesis using assms False len h by (auto simp: int_key_def show_int_def Let_def)
  qed
qed

lemma int_key_SomeD:
  assumes "int_key s = Some i"
  shows "s = show_int i \<and> in_int64 i"
proof (cases "s \<noteq> [] \<and> hd s = CHR ''-''")
  case True
  then obtain ds where s: "s = CHR ''-'' # ds" by (cases s) auto
  have ds: "ds \<noteq> []" "list_all is_digit ds" "hd ds \<noteq> CHR ''0''" "i = - int (read_nat ds)" "in_int64 i"
    using assms by (auto simp: s int_key_def Let_def split: if_splits)
  moreover have "0 < read_nat ds" using read_nat_ge ds by blast
  moreover have "show_nat (read_nat ds) = ds" using show_read_nat ds by blast
  ultimately show ?thesis by (simp add: show_int_def s)
next
  case False
  then have "s \<noteq> []" "list_all is_digit s" "hd s \<noteq> CHR ''0'' \<or> length s = 1" "i = int (read_nat s)" "in_int64 i"
    using assms by (auto simp: int_key_def Let_def split: if_splits) (cases s; auto)+
  moreover have "show_nat (read_nat s) = s" using show_read_nat calculation by blast
  ultimately show ?thesis by (simp add: show_int_def)
qed

lemma key_str_str_key [simp]: "key_str (str_key s) = s"
  by (auto simp: str_key_def dest: int_key_SomeD split: option.splits)

lemma str_key_ok [simp]: "key_ok (str_key s)"
  by (auto simp: str_key_def dest: int_key_SomeD split: option.splits)

lemma str_key_key_str [simp]: "key_ok k \<Longrightarrow> str_key (key_str k) = k"
  by (cases k) (simp_all add: str_key_def int_key_show_int)

lemma key_str_inj: "key_ok k \<Longrightarrow> key_ok l \<Longrightarrow> key_str k = key_str l \<Longrightarrow> k = l"
  by (metis str_key_key_str)

lemma array_set_new: "k \<notin> fst ` set a \<Longrightarrow> array_set k v a = a @ [(k, v)]"
  unfolding array_set_def by (induction a) auto

lemma array_set_keys: "fst ` set (array_set k v a) = insert k (fst ` set a)"
  unfolding array_set_def by (simp add: dom_update)

lemma array_set_distinct: "distinct (map fst a) \<Longrightarrow> distinct (map fst (array_set k v a))"
  unfolding array_set_def by (rule distinct_update)

lemma array_set_elem: "x \<in> set (array_set k v a) \<Longrightarrow> x = (k, v) \<or> x \<in> set a"
  unfolding array_set_def by (induction a) (auto split: if_splits)

lemma map_of_array_set: "map_of (array_set k v a) = (map_of a)(k \<mapsto> v)"
  unfolding array_set_def by (rule update_conv')

lemma list_array_is_list: "array_is_list a \<Longrightarrow> list_array (map snd a) = a"
  unfolding array_is_list_def list_array_def length_map by (metis zip_map_fst_snd)

lemma list_array_keys: "map fst (list_array vs) = map (\<lambda>i. KInt (int i)) [0 ..< length vs]"
  by (simp add: list_array_def)

lemma list_array_elem: "(k, v) \<in> set (list_array vs) \<Longrightarrow> v \<in> set vs \<and> (\<exists>i < length vs. k = KInt (int i))"
  by (auto simp: list_array_def in_set_zip)

end
