(* ===== verification/PhpWire.thy ===== *)
theory PhpWire
  imports Wire PhpLang
begin

unbundle bit_operations_syntax

text \<open>
  The PHP side of the frame codec (\<^verbatim>\<open>php-sdk/src/Protocol/Wire.php\<close> and \<^verbatim>\<open>Frame.php\<close>) and that it
  speaks the same language as the Go side: it writes the reference layout of a frame and reads a
  stream, however the pipe cuts it into chunks, exactly as \<open>ReadFrame\<close> does.
\<close>

subsection \<open>Exceptions and frames\<close>

datatype php_throw =
    StreamClosed nat nat
  | InvalidMagic int int
  | UnsupportedVersion int
  | UnexpectedEnd
  | UnsupportedType int
  | InvalidArgument
  | TypeMismatch
  | NoHandler
  | Thrown string

record PhpFrame =
  pf_type :: int
  pf_flags :: int
  pf_streamId :: int
  pf_headers :: string
  pf_payload :: string

definition php_MAGIC :: string where
  "php_MAGIC = [CHR 0x4D, CHR 0x42]"

definition php_VERSION :: int where
  "php_VERSION = 1"

definition HEADER_SIZE :: nat where
  "HEADER_SIZE = 14"

subsection \<open>Streams\<close>

text \<open>
  An input stream is the list of the chunks in which its bytes arrive; \<^verbatim>\<open>fread\<close> returns at most one of
  them, and the empty string once the stream has ended.
\<close>

fun fread :: "nat \<Rightarrow> string list \<Rightarrow> string \<times> string list" where
  "fread n [] = ([], [])"
| "fread n (c # cs) = (take n c, if length c \<le> n then cs else drop n c # cs)"

function readExact_loop ::
  "nat \<Rightarrow> string \<Rightarrow> nat \<Rightarrow> string list \<Rightarrow> (php_throw + string) \<times> string list" where
  "readExact_loop len data remaining stream =
     (if remaining = 0 then (Inr data, stream)
      else case fread remaining stream of
        (chunk, stream') \<Rightarrow>
          if chunk = [] then (Inl (StreamClosed len (length data)), stream')
          else readExact_loop len (data @ chunk) (remaining - length chunk) stream')"
  by pat_completeness auto
termination
  by (relation "measure (\<lambda>(len, data, remaining, stream). remaining)") auto

declare readExact_loop.simps [simp del]

definition readExact :: "nat \<Rightarrow> string list \<Rightarrow> (php_throw + string) \<times> string list" where
  "readExact len stream = readExact_loop len [] len stream"

subsection \<open>Reading and writing a frame\<close>

definition php_readFrame :: "string list \<Rightarrow> (php_throw + PhpFrame) \<times> string list" where
  "php_readFrame stream =
     (case readExact HEADER_SIZE stream of
        (Inl e, stream) \<Rightarrow> (Inl e, stream)
      | (Inr header, stream) \<Rightarrow>
          if header ! 0 \<noteq> php_MAGIC ! 0 \<or> header ! 1 \<noteq> php_MAGIC ! 1
          then (Inl (InvalidMagic (ord (header ! 0)) (ord (header ! 1))), stream)
          else if ord (header ! 2) \<noteq> php_VERSION
          then (Inl (UnsupportedVersion (ord (header ! 2))), stream)
          else
            (let streamId = be (take 2 (drop 5 header));
                 hdrSize = push_bit 16 (ord (header ! 7)) OR push_bit 8 (ord (header ! 8)) OR ord (header ! 9);
                 payloadSize = be (take 4 (drop 10 header))
             in case (if hdrSize > 0 then readExact (nat hdrSize) stream else (Inr [], stream)) of
                  (Inl e, stream) \<Rightarrow> (Inl e, stream)
                | (Inr headers, stream) \<Rightarrow>
                    (case (if payloadSize > 0 then readExact (nat payloadSize) stream else (Inr [], stream)) of
                       (Inl e, stream) \<Rightarrow> (Inl e, stream)
                     | (Inr payload, stream) \<Rightarrow>
                         (Inr \<lparr>pf_type = ord (header ! 3), pf_flags = ord (header ! 4), pf_streamId = streamId,
                               pf_headers = headers, pf_payload = payload\<rparr>, stream))))"

text \<open>The calls of \<^verbatim>\<open>fwrite\<close>, in order.\<close>

definition php_header :: "PhpFrame \<Rightarrow> string" where
  "php_header f =
     (let hdrSize = int (length (pf_headers f)); payloadSize = int (length (pf_payload f))
      in php_MAGIC @ [chr php_VERSION] @ [chr (pf_type f)] @ [chr (pf_flags f)] @ pack_be 2 (pf_streamId f)
         @ [chr (drop_bit 16 hdrSize AND 0xFF)] @ [chr (drop_bit 8 hdrSize AND 0xFF)] @ [chr (hdrSize AND 0xFF)]
         @ pack_be 4 payloadSize)"

definition php_writeFrame :: "PhpFrame \<Rightarrow> string list" where
  "php_writeFrame f =
     [php_header f]
     @ (if 0 < length (pf_headers f) then [pf_headers f] else [])
     @ (if 0 < length (pf_payload f) then [pf_payload f] else [])"

subsection \<open>The frame as Go sees it\<close>

definition string_of_bytes :: "byte list \<Rightarrow> string" where
  "string_of_bytes bs = map (\<lambda>b. chr (uint b)) bs"

definition go_frame :: "PhpFrame \<Rightarrow> Frame" where
  "go_frame f = \<lparr>fr_Type = word_of_int (pf_type f), fr_Flags = word_of_int (pf_flags f),
     fr_StreamID = word_of_int (pf_streamId f), fr_Headers = bytes_of_string (pf_headers f),
     fr_Payload = bytes_of_string (pf_payload f)\<rparr>"

definition php_frame :: "Frame \<Rightarrow> PhpFrame" where
  "php_frame f = \<lparr>pf_type = uint (fr_Type f), pf_flags = uint (fr_Flags f), pf_streamId = uint (fr_StreamID f),
     pf_headers = string_of_bytes (fr_Headers f), pf_payload = string_of_bytes (fr_Payload f)\<rparr>"

lemma byte_of_chr: "(word_of_nat (of_char (chr i)) :: byte) = word_of_int i"
proof -
  have "int (of_char (chr i)) = i mod 256" using ord_chr [of i] by (simp add: ord_def)
  then have "(word_of_int (int (of_char (chr i))) :: byte) = word_of_int (i mod 256)" by simp
  then show ?thesis by (simp add: word_of_int_eq_iff take_bit_eq_mod)
qed

lemma bytes_of_chr [simp]: "bytes_of_string (chr i # s) = word_of_int i # bytes_of_string s"
  by (simp add: bytes_of_string_def byte_of_chr)

lemma bytes_of_string_append [simp]: "bytes_of_string (s @ t) = bytes_of_string s @ bytes_of_string t"
  by (simp add: bytes_of_string_def)

lemma bytes_of_string_Nil [simp]: "bytes_of_string [] = []"
  by (simp add: bytes_of_string_def)

lemma bytes_of_string_take: "bytes_of_string (take n s) = take n (bytes_of_string s)"
  by (simp add: bytes_of_string_def take_map)

lemma bytes_of_string_drop: "bytes_of_string (drop n s) = drop n (bytes_of_string s)"
  by (simp add: bytes_of_string_def drop_map)

lemma bytes_of_string_nth: "i < length s \<Longrightarrow> bytes_of_string s ! i = word_of_int (ord (s ! i))"
  by (simp add: bytes_of_string_def ord_def)

lemma bytes_string_inverse [simp]: "bytes_of_string (string_of_bytes bs) = bs"
  by (induction bs) (simp_all add: string_of_bytes_def bytes_of_string_def byte_of_chr)

lemma string_bytes_inverse [simp]: "string_of_bytes (bytes_of_string s) = s"
  by (metis bytes_string_inverse bytes_of_string_inj)

lemma byte_eq_iff: "(word_of_int (ord a) :: byte) = word_of_int (ord b) \<longleftrightarrow> a = b"
  using byte_of_chr [of "ord a"] byte_of_chr [of "ord b"] injD [OF char_byte_inj, of a b] by auto

lemma byte_of_div:
  assumes "8 + n \<le> LENGTH('a::len)"
  shows "(word_of_int (i div 2 ^ n) :: byte) = ucast (drop_bit n (word_of_int i :: 'a word))"
  using assms by (intro bit_word_eqI) (auto simp: bit_simps simp flip: drop_bit_eq_div)

lemma byte_of_int: "8 \<le> LENGTH('a::len) \<Longrightarrow> (word_of_int i :: byte) = ucast (word_of_int i :: 'a word)"
  using byte_of_div [of 0 i, where 'a = 'a] by simp

lemma pack_be_unfold:
  "pack_be 2 i = [chr (i div 2 ^ 8), chr i]"
  "pack_be 3 i = [chr (i div 2 ^ 16), chr (i div 2 ^ 8), chr i]"
  "pack_be 4 i = [chr (i div 2 ^ 24), chr (i div 2 ^ 16), chr (i div 2 ^ 8), chr i]"
  by (simp_all add: eval_nat_numeral flip: zdiv_zmult2_eq)

lemma bytes_of_pack:
  "bytes_of_string (pack_be 2 i) = PutUint16 (word_of_int i)"
  "bytes_of_string (pack_be 3 i) = PutUint24 (word_of_int i)"
  "bytes_of_string (pack_be 4 i) = PutUint32 (word_of_int i)"
  unfolding pack_be_unfold PutUint16_def PutUint24_def PutUint32_def bytes_of_string_def list.map byte_of_chr
  by (auto simp only: list.inject intro!: byte_of_div byte_of_int) simp_all

subsection \<open>Reading\<close>

text \<open>The loop of \<open>readExact\<close> does not depend on how the bytes arrive.\<close>

lemma fread_concat:
  assumes "[] \<notin> set cs" "0 < n" "cs \<noteq> []"
  shows "\<exists>c cs'. fread n cs = (c, cs') \<and> c \<noteq> [] \<and> length c \<le> n \<and> concat cs = c @ concat cs' \<and> [] \<notin> set cs'"
  using assms by (cases cs) auto

lemma readExact_loop_concat:
  assumes "[] \<notin> set cs"
  shows "\<exists>cs'. [] \<notin> set cs' \<and> readExact_loop len data n cs =
    (if n \<le> length (concat cs) then (Inr (data @ take n (concat cs)), cs') else (Inl (StreamClosed len (length data + length (concat cs))), cs')) \<and>
    concat cs' = drop n (concat cs)"
  using assms
proof (induction n arbitrary: data cs rule: less_induct)
  case (less n)
  show ?case
  proof (cases "n = 0 \<or> cs = []")
    case True
    then show ?thesis using less.prems by (auto simp: readExact_loop.simps [of len data n])
  next
    case False
    then obtain c cs1 where f: "fread n cs = (c, cs1)" "c \<noteq> []" "length c \<le> n" "concat cs = c @ concat cs1" "[] \<notin> set cs1"
      using fread_concat [of cs n] less.prems by auto
    have "n - length c < n" using f(2) False by simp
    from less.IH [OF this f(5), of "data @ c"] f show ?thesis
      using False by (subst readExact_loop.simps) (auto simp: le_diff_conv add.commute)
  qed
qed

lemma readExact_cases [consumes 1, case_names full short]:
  assumes "[] \<notin> set cs"
  obtains (full) cs' where "readExact n cs = (Inr (take n (concat cs)), cs')" "n \<le> length (concat cs)"
      "concat cs' = drop n (concat cs)" "[] \<notin> set cs'"
  | (short) "readExact n cs = (Inl (StreamClosed n (length (concat cs))), [])" "length (concat cs) < n"
proof -
  obtain cs' where r: "readExact n cs = (if n \<le> length (concat cs) then (Inr (take n (concat cs)), cs')
      else (Inl (StreamClosed n (length (concat cs))), cs'))" "concat cs' = drop n (concat cs)" "[] \<notin> set cs'"
    using readExact_loop_concat [OF assms, of n "[]" n] unfolding readExact_def by auto
  have "cs' = []" if "\<not> n \<le> length (concat cs)" using r(2,3) that by (cases cs') auto
  then show ?thesis using r full [of cs'] short by (cases "n \<le> length (concat cs)") auto
qed

lemma or_eq_plus:
  fixes a b :: int
  assumes "0 \<le> b" "b < 2 ^ n"
  shows "push_bit n a OR b = a * 2 ^ n + b"
proof -
  have "take_bit n b = b" using assms by (simp add: take_bit_int_eq_self)
  then have "\<not> bit b m" if "n \<le> m" for m using that by (metis bit_take_bit_iff not_le)
  then have "push_bit n a + b = push_bit n a OR b" by (intro disjunctive_add) (auto simp: bit_simps)
  then show ?thesis by (simp add: push_bit_eq_mult)
qed

lemma hdrSize_be:
  "push_bit 16 (ord a) OR push_bit 8 (ord b) OR ord c = be [a, b, c]"
proof -
  have "push_bit 8 (ord b) OR ord c = ord b * 2 ^ 8 + ord c"
    using ord_bounds [of c] by (intro or_eq_plus) auto
  moreover have "0 \<le> ord b * 2 ^ 8 + ord c" "ord b * 2 ^ 8 + ord c < 2 ^ 16"
    using ord_bounds [of b] ord_bounds [of c] by auto
  ultimately show ?thesis by (simp add: or.assoc or_eq_plus be_def algebra_simps)
qed

text \<open>The size fields of a header, as Go decodes them.\<close>

lemma be_fields:
  "length s = 2 \<Longrightarrow> Uint16 (bytes_of_string s) = word_of_int (be s)"
  "length s = 3 \<Longrightarrow> unat (Uint24 (bytes_of_string s)) = nat (be s)"
  "length s = 4 \<Longrightarrow> unat (Uint32 (bytes_of_string s)) = nat (be s)"
proof -
  show "Uint16 (bytes_of_string s) = word_of_int (be s)" if "length s = 2"
    using that bytes_of_pack(1) [of "be s"] u16.get_put [of "word_of_int (be s)"] by simp
  show "unat (Uint24 (bytes_of_string s)) = nat (be s)" if "length s = 3"
  proof -
    have b: "0 \<le> be s" "be s < 2 ^ 24" using be_bounds [of s] that by auto
    then have u: "unat (word_of_int (be s) :: int64) = nat (be s)" by (simp add: unat_eq_nat_uint uint_word_of_int)
    then have "unat (word_of_int (be s) :: int64) < 2 ^ 24" using b by simp
    from u24.get_put [OF this] u show ?thesis using that bytes_of_pack(2) [of "be s"] by simp
  qed
  show "unat (Uint32 (bytes_of_string s)) = nat (be s)" if "length s = 4"
    using that be_bounds [of s] bytes_of_pack(3) [of "be s"] u32.get_put [of "word_of_int (be s)"]
    by (simp add: unat_eq_nat_uint uint_word_of_int)
qed

lemma php_frame_go_frame:
  "0 \<le> pf_type f \<Longrightarrow> pf_type f < 2 ^ 8 \<Longrightarrow> 0 \<le> pf_flags f \<Longrightarrow> pf_flags f < 2 ^ 8 \<Longrightarrow>
   0 \<le> pf_streamId f \<Longrightarrow> pf_streamId f < 2 ^ 16 \<Longrightarrow> php_frame (go_frame f) = f"
  by (simp add: php_frame_def go_frame_def uint_word_of_int)

lemma go_frame_php_frame [simp]: "go_frame (php_frame f) = f"
  by (simp add: php_frame_def go_frame_def)

text \<open>Which exception of the SDK stands for which error of the Go reader.\<close>

fun same_failure :: "php_throw \<Rightarrow> read_error \<Rightarrow> bool" where
  "same_failure (StreamClosed n got) (ErrReadHeader e) \<longleftrightarrow> n = 14 \<and> (e = EOF \<longleftrightarrow> got = 0)"
| "same_failure (StreamClosed n got) (ErrReadData m e) \<longleftrightarrow> n \<le> m"
| "same_failure (InvalidMagic a b) (ErrMagic x y) \<longleftrightarrow> a = uint x \<and> b = uint y"
| "same_failure (UnsupportedVersion v) (ErrVersion w) \<longleftrightarrow> v = uint w"
| "same_failure _ _ \<longleftrightarrow> False"

lemma Magic_bytes: "bytes_of_string php_MAGIC = Magic" "Version = word_of_int php_VERSION"
  by (simp_all add: php_MAGIC_def Magic_def bytes_of_string_def Version_def php_VERSION_def of_char_Char)

lemma uint_byte_of_ord [simp]: "uint (word_of_int (ord c) :: byte) = ord c"
  using ord_bounds [of c] by (simp add: uint_word_of_int)

text \<open>The part of the reader after a good header.\<close>

definition php_read_body :: "string \<Rightarrow> string list \<Rightarrow> (php_throw + PhpFrame) \<times> string list" where
  "php_read_body header stream =
     (let hdrSize = be (take 3 (drop 7 header)); payloadSize = be (take 4 (drop 10 header))
      in case readExact (nat hdrSize) stream of
           (Inl e, stream) \<Rightarrow> (Inl e, stream)
         | (Inr headers, stream) \<Rightarrow>
             (case readExact (nat payloadSize) stream of
                (Inl e, stream) \<Rightarrow> (Inl e, stream)
              | (Inr payload, stream) \<Rightarrow>
                  (Inr \<lparr>pf_type = ord (header ! 3), pf_flags = ord (header ! 4), pf_streamId = be (take 2 (drop 5 header)),
                        pf_headers = headers, pf_payload = payload\<rparr>, stream)))"

lemma readExact_0: "readExact 0 cs = (Inr [], cs)"
  by (simp add: readExact_def readExact_loop.simps)

lemma php_readFrame_eq:
  assumes "readExact 14 cs = (Inr header, cs')" "length header = 14"
  shows "php_readFrame cs =
    (if header_ok (bytes_of_string header) then php_read_body header cs'
     else if take 2 header \<noteq> php_MAGIC then (Inl (InvalidMagic (ord (header ! 0)) (ord (header ! 1))), cs')
     else (Inl (UnsupportedVersion (ord (header ! 2))), cs'))"
proof -
  have nn: "0 \<le> be s" for s using be_bounds [of s] by simp
  have h3: "take 3 (drop 7 header) = [header ! 7, header ! 8, header ! 9]"
    using assms(2) by (intro nth_equalityI) (auto simp: less_Suc_eq numeral_eq_Suc)
  have re: "(if i > 0 then readExact (nat i) s else (Inr [], s)) = readExact (nat i) s" for i s
    by (simp add: readExact_0)
  have version: "(word_of_int (ord c) :: byte) = word_of_int php_VERSION \<longleftrightarrow> ord c = php_VERSION" for c
    by (metis uint_byte_of_ord uint_word_of_int_eq php_VERSION_def uint_1 word_of_int_1)
  have m: "take 2 header = [header ! 0, header ! 1]" using assms(2) by (simp add: take_2)
  have "header_ok (bytes_of_string header) \<longleftrightarrow> take 2 header = php_MAGIC \<and> ord (header ! 2) = php_VERSION"
    unfolding header_ok_def m using assms(2)
    by (auto simp: bytes_of_string_nth Magic_bytes(2) php_MAGIC_def byte_eq_iff version simp flip: Magic_bytes(1))
  then show ?thesis
    using assms unfolding php_readFrame_def HEADER_SIZE_def php_read_body_def Let_def hdrSize_be h3 re m
    by (auto simp: php_MAGIC_def)
qed

lemma php_read_body_agrees:
  assumes "header_ok (bytes_of_string header)" "[] \<notin> set cs"
  shows "case php_read_body header cs of
    (Inr f, cs') \<Rightarrow> php_frame (go_frame f) = f \<and> [] \<notin> set cs' \<and>
      ReadFrame (bytes_of_string (header @ concat cs)) = (Inr (go_frame f), bytes_of_string (concat cs'))
  | (Inl e, cs') \<Rightarrow> [] \<notin> set cs' \<and> (\<exists>e'. same_failure e e' \<and>
      ReadFrame (bytes_of_string (header @ concat cs)) = (Inl e', bytes_of_string (concat cs')))"
proof -
  have len: "length header = 14" using assms(1) by (simp add: header_ok_def)
  define h p where "h = nat (be (take 3 (drop 7 header)))" and "p = nat (be (take 4 (drop 10 header)))"
  have sizes: "hdr_size (bytes_of_string header) = h" "payload_size (bytes_of_string header) = p"
    using len unfolding hdr_size_def payload_size_def h_def p_def
    by (simp_all add: be_fields flip: bytes_of_string_take bytes_of_string_drop)
  have R: "ReadFrame (bytes_of_string (header @ concat cs)) =
    (if h + p = 0 then (Inr (header_frame (bytes_of_string header) []), bytes_of_string (concat cs))
     else case ReadFull (h + p) (bytes_of_string (concat cs)) of
        (Inl e, r') \<Rightarrow> (Inl (ErrReadData (h + p) e), r')
      | (Inr data, r') \<Rightarrow> (Inr (header_frame (bytes_of_string header) data), r'))"
    using ReadFrame_header [OF assms(1), of "bytes_of_string (concat cs)", unfolded sizes] by simp
  show ?thesis
    using assms(2)
  proof (cases rule: readExact_cases [of cs h])
    case short
    then show ?thesis using R by (simp add: php_read_body_def Let_def ReadFull_def flip: h_def p_def)
  next
    case (full cs1)
    note f1 = this
    show ?thesis
      using f1(4)
    proof (cases rule: readExact_cases [of cs1 p])
      case short
      have "length (concat cs) < h + p" using short(2) f1(2,3) by simp
      then show ?thesis using f1 short R by (simp add: php_read_body_def Let_def ReadFull_def flip: h_def p_def)
    next
      case (full cs2)
      define f where "f = \<lparr>pf_type = ord (header ! 3), pf_flags = ord (header ! 4),
        pf_streamId = be (take 2 (drop 5 header)), pf_headers = take h (concat cs), pf_payload = take p (drop h (concat cs))\<rparr>"
      have body: "php_read_body header cs = (Inr f, cs2)"
        using f1 full by (simp add: php_read_body_def Let_def f_def flip: h_def p_def)
      have le: "h + p \<le> length (concat cs)" and rest: "concat cs2 = drop (h + p) (concat cs)"
        using f1(2,3) full by (auto simp: add.commute)
      have ok: "php_frame (go_frame f) = f"
        using ord_bounds be_bounds [of "take 2 (drop 5 header)"] len
        by (intro php_frame_go_frame) (simp_all add: f_def)
      have "go_frame f = header_frame (bytes_of_string header) (bytes_of_string (take (h + p) (concat cs)))"
        using len le
        by (simp add: f_def go_frame_def header_frame_def sizes bytes_of_string_nth be_fields min_def
            flip: bytes_of_string_take bytes_of_string_drop) (simp add: drop_take)
      then show ?thesis
        using body ok full(4) R le
        by (auto simp: ReadFull_def rest bytes_of_string_take bytes_of_string_drop)
    qed
  qed
qed

lemma php_readFrame_agrees:
  assumes "[] \<notin> set cs"
  shows "case php_readFrame cs of
    (Inr f, cs') \<Rightarrow> php_frame (go_frame f) = f \<and> [] \<notin> set cs' \<and>
      ReadFrame (bytes_of_string (concat cs)) = (Inr (go_frame f), bytes_of_string (concat cs'))
  | (Inl e, cs') \<Rightarrow> [] \<notin> set cs' \<and> (\<exists>e'. same_failure e e' \<and>
      ReadFrame (bytes_of_string (concat cs)) = (Inl e', bytes_of_string (concat cs')))"
  using assms
proof (cases rule: readExact_cases [of cs 14])
  case short
  have "php_readFrame cs = (Inl (StreamClosed 14 (length (concat cs))), [])"
    using short(1) by (simp add: php_readFrame_def HEADER_SIZE_def)
  moreover have "bytes_of_string (concat cs) = [] \<longleftrightarrow> length (concat cs) = 0"
    by (metis length_0_conv length_bytes_of_string)
  ultimately show ?thesis using short(2) ReadFrame_short [of "bytes_of_string (concat cs)"]
    by (simp del: length_concat)
next
  case (full cs')
  define header where "header = take 14 (concat cs)"
  have l: "length header = 14" "concat cs = header @ concat cs'" using full(2,3) by (auto simp: header_def)
  note R = php_readFrame_eq [OF full(1) [folded header_def] l(1)]
  show ?thesis
  proof (cases "header_ok (bytes_of_string header)")
    case True
    then show ?thesis using php_read_body_agrees [OF True full(4)] by (simp only: R l(2) if_True)
  next
    case False
    have hd: "take 14 (bytes_of_string (concat cs)) = bytes_of_string header"
      by (simp add: header_def bytes_of_string_take)
    have m: "take 2 (bytes_of_string (concat cs)) = Magic \<longleftrightarrow> take 2 header = php_MAGIC"
      using l by (simp flip: bytes_of_string_take Magic_bytes(1))
    have "ReadFrame (bytes_of_string (concat cs)) =
      (Inl (if take 2 header \<noteq> php_MAGIC then ErrMagic (word_of_int (ord (header ! 0))) (word_of_int (ord (header ! 1)))
            else ErrVersion (word_of_int (ord (header ! 2)))), bytes_of_string (concat cs'))"
      using ReadFrame_bad_header [of "bytes_of_string (concat cs)"] full(2) False l
      unfolding hd m by (simp add: bytes_of_string_nth nth_append)
    then show ?thesis using R False full(4) by simp
  qed
qed

lemma and_255: "i AND 255 = i mod 256" for i :: int
  using take_bit_eq_mask [of 8 i] by (simp add: take_bit_eq_mod mask_eq_exp_minus_1)

lemma php_header_bytes: "bytes_of_string (php_header f) = frame_header (go_frame f)"
proof -
  have "[chr (drop_bit 16 n AND 0xFF), chr (drop_bit 8 n AND 0xFF), chr (n AND 0xFF)] = pack_be 3 n" for n :: int
    by (simp add: pack_be_unfold chr_def drop_bit_eq_div and_255)
  then have "php_header f = php_MAGIC @ [chr php_VERSION] @ [chr (pf_type f)] @ [chr (pf_flags f)] @ pack_be 2 (pf_streamId f)
      @ pack_be 3 (int (length (pf_headers f))) @ pack_be 4 (int (length (pf_payload f)))"
    by (simp add: php_header_def Let_def)
  then show ?thesis
    by (simp add: frame_header_def go_frame_def bytes_of_pack Magic_bytes)
qed

lemma php_writeFrame_bytes: "bytes_of_string (concat (php_writeFrame f)) = frame_bytes (go_frame f)"
  by (simp add: php_writeFrame_def php_header_bytes frame_bytes_def) (simp add: go_frame_def)

subsection \<open>Properties\<close>

text \<open>
  C10: The two sides of the pipe speak the same wire format. The bytes the SDK writes for a frame are, in
  order, the reference layout that \<open>WriteFrame\<close> emits, and reading a stream with the SDK, whatever the
  chunks in which the pipe delivers it, gives the frame that \<open>ReadFrame\<close> gives and leaves the same
  bytes, or throws the exception that corresponds to the error of \<open>ReadFrame\<close>.
\<close>
theorem php_wire_speaks_go:
  assumes "[] \<notin> set chunks"
  shows "bytes_of_string (concat (php_writeFrame f)) = frame_bytes (go_frame f) \<and>
    (case php_readFrame chunks of
       (Inr g, rest) \<Rightarrow> ReadFrame (bytes_of_string (concat chunks)) = (Inr (go_frame g), bytes_of_string (concat rest))
     | (Inl e, rest) \<Rightarrow> \<exists>e'. same_failure e e' \<and>
         ReadFrame (bytes_of_string (concat chunks)) = (Inl e', bytes_of_string (concat rest)))"
  using php_writeFrame_bytes [of f] php_readFrame_agrees [OF assms] by (auto split: prod.splits sum.splits)

text \<open>A pong that arrives in four chunks, the last of which holds the first byte of the next frame.\<close>

definition pong_chunks :: "string list" where
  "pong_chunks = [''MB'', [CHR 0x01, CHR 0x07, CHR 0x00, CHR 0x00],
     [CHR 0x00, CHR 0x00, CHR 0x00, CHR 0x00, CHR 0x00, CHR 0x00, CHR 0x00, CHR 0x04, CHR 0x70], ''ongM'']"

theorem php_wire_speaks_go_witness:
  "\<exists>g. php_readFrame pong_chunks = (Inr g, [''M'']) \<and> pf_payload g = ''pong'' \<and>
     ReadFrame (bytes_of_string (concat pong_chunks)) = (Inr (go_frame g), bytes_of_string ''M'') \<and>
     bytes_of_string (concat (php_writeFrame g)) = frame_bytes (go_frame g)"
proof -
  define g where "g = \<lparr>pf_type = 7, pf_flags = 0, pf_streamId = 0, pf_headers = '''', pf_payload = ''pong''\<rparr>"
  have r: "php_readFrame pong_chunks = (Inr g, [''M''])" unfolding g_def by code_simp
  have "[] \<notin> set pong_chunks" by (simp add: pong_chunks_def)
  from php_wire_speaks_go [OF this, of g] r show ?thesis by (auto simp: g_def)
qed

end
