(* ===== verification/PhpMsgpack.thy ===== *)
theory PhpMsgpack
  imports PhpWire
begin

unbundle bit_operations_syntax

text \<open>
  The SDK's own msgpack codec (\<^verbatim>\<open>php-sdk/src/Protocol/Msgpack.php\<close>). A decoder takes the string from
  its current offset on and returns the rest; an offset at or beyond the end is the empty rest. What a
  failing \<^verbatim>\<open>unpack\<close> or an offset beyond the end does is written out: a warning and a null, which the
  declared return type then rejects, or an empty string.
\<close>

subsection \<open>Encoding\<close>

definition encodeInt :: "int \<Rightarrow> string" where
  "encodeInt value =
     (if value \<ge> 0 \<and> value \<le> 0x7f then [chr value]
      else if value < 0 \<and> value \<ge> -32 then [chr (value AND 0xff)]
      else if value \<ge> 0 \<and> value \<le> 0xff then [CHR 0xcc] @ [chr value]
      else if value \<ge> 0 \<and> value \<le> 0xffff then [CHR 0xcd] @ pack_be 2 value
      else if value \<ge> 0 \<and> value \<le> 0xffffffff then [CHR 0xce] @ pack_be 4 value
      else if value < 0 \<and> value \<ge> -128 then [CHR 0xd0] @ [chr value]
      else if value < 0 \<and> value \<ge> -32768 then [CHR 0xd1] @ pack_be 2 (value AND 0xffff)
      else if value < 0 \<and> value \<ge> -2147483648 then [CHR 0xd2] @ pack_be 4 (value AND 0xffffffff)
      else [CHR 0xd3] @ pack_be 8 value)"

definition encodeString :: "string \<Rightarrow> string" where
  "encodeString value =
     (let len = int (length value)
      in if len \<le> 31 then [chr (0xa0 OR len)] @ value
         else if len \<le> 0xff then [CHR 0xd9] @ [chr len] @ value
         else if len \<le> 0xffff then [CHR 0xda] @ pack_be 2 len @ value
         else [CHR 0xdb] @ pack_be 4 len @ value)"

definition array_head :: "int \<Rightarrow> string" where
  "array_head count =
     (if count \<le> 15 then [chr (0x90 OR count)]
      else if count \<le> 0xffff then [CHR 0xdc] @ pack_be 2 count
      else [CHR 0xdd] @ pack_be 4 count)"

definition map_head :: "int \<Rightarrow> string" where
  "map_head count =
     (if count \<le> 15 then [chr (0x80 OR count)]
      else if count \<le> 0xffff then [CHR 0xde] @ pack_be 2 count
      else [CHR 0xdf] @ pack_be 4 count)"

text \<open>The items of an array are encoded one after the other; the first exception ends it.\<close>

fun seq_append :: "string \<Rightarrow> (php_throw + string) list \<Rightarrow> php_throw + string" where
  "seq_append result [] = Inr result"
| "seq_append result (Inl e # rs) = Inl e"
| "seq_append result (Inr s # rs) = seq_append (result @ s) rs"

fun encode :: "phpval \<Rightarrow> php_throw + string" where
  "encode PNull = Inr [CHR 0xc0]"
| "encode (PBool b) = Inr [if b then CHR 0xc3 else CHR 0xc2]"
| "encode (PInt i) = Inr (encodeInt i)"
| "encode (PFloat w) = Inr ([CHR 0xcb] @ pack_be 8 (uint w))"
| "encode (PStr s) = Inr (encodeString s)"
| "encode (PArr a) =
     (if array_is_list a
      then seq_append (array_head (int (length a))) (map (\<lambda>(k, v). encode v) a)
      else seq_append (map_head (int (length a)))
        (concat (map (\<lambda>(k, v). [Inr (encodeString (key_str k)), encode v]) a)))"
| "encode (PObject n) = Inl InvalidArgument"

subsection \<open>Decoding\<close>

text \<open>The conversion of a single to a double precision float, on bit patterns.\<close>

definition float_of_single :: "int \<Rightarrow> 64 word" where
  "float_of_single bits =
     (let sign = bits div 2 ^ 31; e = (bits div 2 ^ 23) mod 256; m = bits mod 2 ^ 23;
          k = floor_log2 (nat m)
      in word_of_int (sign * 2 ^ 63 +
        (if e = 255 then 2047 * 2 ^ 52 + (if m = 0 then 0 else (m OR 2 ^ 22) * 2 ^ 29)
         else if e = 0 then (if m = 0 then 0 else (int k + 874) * 2 ^ 52 + (m - 2 ^ k) * 2 ^ (52 - k))
         else (e + 896) * 2 ^ 52 + m * 2 ^ 29)))"

type_synonym 'v reader = "string \<Rightarrow> (php_throw + 'v) \<times> string"

text \<open>The fixed-width readers: \<open>None\<close> of \<^verbatim>\<open>unpack\<close> is a null that the return type rejects.\<close>

definition read_uint :: "nat \<Rightarrow> int reader" where
  "read_uint n s = (case unpack_be n s of Some v \<Rightarrow> Inr v | None \<Rightarrow> Inl TypeMismatch, drop n s)"

definition to_signed :: "nat \<Rightarrow> int \<Rightarrow> int" where
  "to_signed w v = (if v \<ge> 2 ^ (w - 1) then v - 2 ^ w else v)"

definition readFloat32 :: "phpval reader" where
  "readFloat32 s = (case read_uint 4 s of (r, s) \<Rightarrow> (map_sum id (\<lambda>v. PFloat (float_of_single v)) r, s))"

definition readFloat64 :: "phpval reader" where
  "readFloat64 s = (case read_uint 8 s of (r, s) \<Rightarrow> (map_sum id (\<lambda>v. PFloat (word_of_int v)) r, s))"

text \<open>\<^verbatim>\<open>$data[$offset]\<close> beyond the end is the empty string, whose \<^verbatim>\<open>ord\<close> is 0.\<close>

definition ord_at :: "string \<Rightarrow> int" where
  "ord_at s = (case s of [] \<Rightarrow> 0 | c # _ \<Rightarrow> ord c)"

definition readUint8 :: "phpval reader" where
  "readUint8 s = (Inr (PInt (ord_at s)), drop 1 s)"

definition readUint16 :: "phpval reader" where
  "readUint16 s = (case read_uint 2 s of (r, s) \<Rightarrow> (map_sum id PInt r, s))"

definition readUint32 :: "phpval reader" where
  "readUint32 s = (case read_uint 4 s of (r, s) \<Rightarrow> (map_sum id PInt r, s))"

text \<open>An integer of the format \<open>J\<close> is signed, PHP having no other 64-bit integer.\<close>

definition readInt64 :: "phpval reader" where
  "readInt64 s = (case read_uint 8 s of (r, s) \<Rightarrow> (map_sum id (\<lambda>v. PInt (to_signed 64 v)) r, s))"

definition readInt8 :: "phpval reader" where
  "readInt8 s = (case read_uint 1 s of (r, s) \<Rightarrow> (map_sum id (\<lambda>v. PInt (to_signed 8 v)) r, s))"

definition readInt16 :: "phpval reader" where
  "readInt16 s = (case read_uint 2 s of (r, s) \<Rightarrow> (map_sum id (\<lambda>v. PInt (to_signed 16 v)) r, s))"

definition readInt32 :: "phpval reader" where
  "readInt32 s = (case read_uint 4 s of (r, s) \<Rightarrow> (map_sum id (\<lambda>v. PInt (to_signed 32 v)) r, s))"

text \<open>
  Strings: \<^verbatim>\<open>substr\<close> returns what there is. A length that could not be read is null, with which
  \<^verbatim>\<open>substr\<close> returns the rest, which is empty here.
\<close>

definition read_bytes :: "int \<Rightarrow> phpval reader" where
  "read_bytes len s = (Inr (PStr (take (nat len) s)), drop (nat len) s)"

definition readStr8 :: "phpval reader" where
  "readStr8 s = read_bytes (ord_at s) (drop 1 s)"

definition read_str :: "nat \<Rightarrow> phpval reader" where
  "read_str n s =
     (case unpack_be n s of
        Some len \<Rightarrow> read_bytes len (drop n s)
      | None \<Rightarrow> (Inr (PStr (drop n s)), drop n s))"

text \<open>The key of a map item as a string; the text of a float key is the language's.\<close>

fun to_string :: "(64 word \<Rightarrow> string) \<Rightarrow> phpval \<Rightarrow> string" where
  "to_string fstr PNull = ''''"
| "to_string fstr (PBool b) = (if b then ''1'' else '''')"
| "to_string fstr (PInt i) = show_int i"
| "to_string fstr (PFloat w) = fstr w"
| "to_string fstr (PStr s) = s"
| "to_string fstr (PArr a) = ''Array''"
| "to_string fstr (PObject n) = ''''"

type_synonym decoder = "string \<Rightarrow> ((php_throw + phpval) \<times> string) option"

primrec decodeArrayItems :: "decoder \<Rightarrow> nat \<Rightarrow> phpval list \<Rightarrow> decoder" where
  "decodeArrayItems dec 0 result s = Some (Inr (PArr (list_array result)), s)"
| "decodeArrayItems dec (Suc n) result s =
     (case dec s of
        None \<Rightarrow> None
      | Some (Inl e, s) \<Rightarrow> Some (Inl e, s)
      | Some (Inr v, s) \<Rightarrow> decodeArrayItems dec n (result @ [v]) s)"

primrec decodeMapItems :: "(64 word \<Rightarrow> string) \<Rightarrow> decoder \<Rightarrow> nat \<Rightarrow> (pkey \<times> phpval) list \<Rightarrow> decoder" where
  "decodeMapItems fstr dec 0 result s = Some (Inr (PArr result), s)"
| "decodeMapItems fstr dec (Suc n) result s =
     (case dec s of
        None \<Rightarrow> None
      | Some (Inl e, s) \<Rightarrow> Some (Inl e, s)
      | Some (Inr key, s) \<Rightarrow>
          (case dec s of
             None \<Rightarrow> None
           | Some (Inl e, s) \<Rightarrow> Some (Inl e, s)
           | Some (Inr v, s) \<Rightarrow>
               decodeMapItems fstr dec n (array_set (str_key (to_string fstr key)) v result) s))"

definition read_counted :: "nat \<Rightarrow> (nat \<Rightarrow> decoder) \<Rightarrow> decoder" where
  "read_counted n items s =
     (case read_uint n s of
        (Inl e, s) \<Rightarrow> Some (Inl e, s)
      | (Inr count, s) \<Rightarrow> items (nat count) s)"

text \<open>The recursion is bounded by the nesting of arrays; \<open>None\<close> is the bound running out.\<close>

primrec decodeValue :: "(64 word \<Rightarrow> string) \<Rightarrow> nat \<Rightarrow> decoder" where
  "decodeValue fstr 0 data = None"
| "decodeValue fstr (Suc n) data =
     (case data of
        [] \<Rightarrow> Some (Inl UnexpectedEnd, [])
      | c # s \<Rightarrow>
          (let byte = ord c
           in if byte \<le> 0x7f then Some (Inr (PInt byte), s)
              else if byte AND 0xf0 = 0x80
              then decodeMapItems fstr (decodeValue fstr n) (nat (byte AND 0x0f)) [] s
              else if byte AND 0xf0 = 0x90
              then decodeArrayItems (decodeValue fstr n) (nat (byte AND 0x0f)) [] s
              else if byte AND 0xe0 = 0xa0 then Some (read_bytes (byte AND 0x1f) s)
              else if byte \<ge> 0xe0 then Some (Inr (PInt (byte - 256)), s)
              else if byte = 0xc0 then Some (Inr PNull, s)
              else if byte = 0xc2 then Some (Inr (PBool False), s)
              else if byte = 0xc3 then Some (Inr (PBool True), s)
              else if byte = 0xca then Some (readFloat32 s)
              else if byte = 0xcb then Some (readFloat64 s)
              else if byte = 0xcc then Some (readUint8 s)
              else if byte = 0xcd then Some (readUint16 s)
              else if byte = 0xce then Some (readUint32 s)
              else if byte = 0xcf then Some (readInt64 s)
              else if byte = 0xd0 then Some (readInt8 s)
              else if byte = 0xd1 then Some (readInt16 s)
              else if byte = 0xd2 then Some (readInt32 s)
              else if byte = 0xd3 then Some (readInt64 s)
              else if byte = 0xd9 then Some (readStr8 s)
              else if byte = 0xda then Some (read_str 2 s)
              else if byte = 0xdb then Some (read_str 4 s)
              else if byte = 0xdc then read_counted 2 (\<lambda>count. decodeArrayItems (decodeValue fstr n) count []) s
              else if byte = 0xdd then read_counted 4 (\<lambda>count. decodeArrayItems (decodeValue fstr n) count []) s
              else if byte = 0xde then read_counted 2 (\<lambda>count. decodeMapItems fstr (decodeValue fstr n) count []) s
              else if byte = 0xdf then read_counted 4 (\<lambda>count. decodeMapItems fstr (decodeValue fstr n) count []) s
              else Some (Inl (UnsupportedType byte), s)))"

definition decode :: "(64 word \<Rightarrow> string) \<Rightarrow> string \<Rightarrow> php_throw + phpval" where
  "decode fstr data = fst (the (decodeValue fstr (Suc (length data)) data))"

subsection \<open>The decoder consumes input and returns well-formed values\<close>

declare decodeValue.simps(2) [simp del]

lemmas reader_defs = read_uint_def readFloat32_def readFloat64_def readUint8_def readUint16_def readUint32_def
  readInt64_def readInt8_def readInt16_def readInt32_def read_bytes_def readStr8_def read_str_def

text \<open>The scalars: what the byte of a scalar value leads to.\<close>

fun decodes :: "(phpval \<Rightarrow> bool) \<Rightarrow> string \<Rightarrow> (php_throw + phpval) \<times> string \<Rightarrow> bool" where
  "decodes P s (Inr v, s') \<longleftrightarrow> P v \<and> length s' \<le> length s"
| "decodes P s (Inl e, s') \<longleftrightarrow> True"

lemma unpack_be_bounds: "unpack_be n s = Some v \<Longrightarrow> n \<le> length s \<and> 0 \<le> v \<and> v < 256 ^ n"
  using be_bounds [of "take n s"] by (auto simp: unpack_be_def min_def split: if_splits)



lemma reader_decodes:
  "decodes php_ok s (readFloat32 s)" "decodes php_ok s (readFloat64 s)"
  "decodes php_ok s (readUint8 s)" "decodes php_ok s (readUint16 s)" "decodes php_ok s (readUint32 s)"
  "decodes php_ok s (readInt8 s)" "decodes php_ok s (readInt16 s)" "decodes php_ok s (readInt32 s)"
  "decodes php_ok s (readInt64 s)" "decodes php_ok s (read_bytes len s)" "decodes php_ok s (readStr8 s)"
  "decodes php_ok s (read_str n s)"
  using ord_bounds [of "hd s"]
  by (auto simp: reader_defs ord_at_def in_int64_def to_signed_def hd_def split: option.splits list.splits
      dest!: unpack_be_bounds)

text \<open>The items of arrays and maps, over a decoder of their elements.\<close>

definition good_decoder :: "decoder \<Rightarrow> bool" where
  "good_decoder dec \<longleftrightarrow> (\<forall>s v s'. dec s = Some (Inr v, s') \<longrightarrow> php_ok v \<and> length s' < length s)"

lemma decodeArrayItems_good:
  assumes "good_decoder dec" "decodeArrayItems dec n result s = Some (Inr v, s')" "\<forall>x \<in> set result. php_ok x"
  shows "(\<exists>vs. v = PArr (list_array vs) \<and> length vs = length result + n \<and> (\<forall>x \<in> set vs. php_ok x)) \<and> length s' \<le> length s"
  using assms(2,3)
proof (induction n arbitrary: result s)
  case (Suc n)
  then obtain x s1 where x: "dec s = Some (Inr x, s1)" "decodeArrayItems dec n (result @ [x]) s1 = Some (Inr v, s')"
    by (auto split: option.splits sum.splits)
  then have "php_ok x" "length s1 < length s" using assms(1) by (auto simp: good_decoder_def)
  then show ?case using Suc.IH [OF x(2)] Suc.prems(2) by auto
qed auto

lemma list_array_ok: "length vs < 2 ^ 63 \<Longrightarrow> \<forall>x \<in> set vs. php_ok x \<Longrightarrow> php_ok (PArr (list_array vs))"
  by (auto simp: list_array_keys distinct_map inj_on_def in_int64_def dest!: list_array_elem)

lemma decodeMapItems_good:
  assumes "good_decoder dec" "decodeMapItems fstr dec n result s = Some (Inr v, s')" "php_ok (PArr result)"
  shows "php_ok v \<and> length s' \<le> length s"
  using assms(2,3)
proof (induction n arbitrary: result s)
  case (Suc n)
  then obtain x s1 y s2 where x: "dec s = Some (Inr x, s1)" "dec s1 = Some (Inr y, s2)"
    "decodeMapItems fstr dec n (array_set (str_key (to_string fstr x)) y result) s2 = Some (Inr v, s')"
    by (auto split: option.splits sum.splits)
  then have "php_ok y" "length s2 < length s1" "length s1 < length s" using assms(1) unfolding good_decoder_def by blast+
  moreover have "php_ok (PArr (array_set (str_key (to_string fstr x)) y result))"
    using Suc.prems(2) calculation(1) array_set_distinct by (auto dest!: array_set_elem)
  ultimately show ?case using Suc.IH [OF x(3)] by auto
qed auto

lemma read_counted_InrD: "read_counted n items s = Some (Inr v, s') \<Longrightarrow>
   \<exists>count. count < 256 ^ n \<and> n \<le> length s \<and> items count (drop n s) = Some (Inr v, s')"
  by (auto simp: read_counted_def read_uint_def split: option.splits dest!: unpack_be_bounds)
     (metis nat_less_iff of_nat_numeral of_nat_power)

lemma and_15: "0 \<le> i AND (15 :: int)" "i AND (15 :: int) < 16"
  using take_bit_eq_mask [of 4 i] by (simp_all add: take_bit_eq_mod mask_eq_exp_minus_1)

lemma if_eqE: "(if b then x else y) = z \<Longrightarrow> (b \<Longrightarrow> x = z \<Longrightarrow> R) \<Longrightarrow> (\<not> b \<Longrightarrow> y = z \<Longrightarrow> R) \<Longrightarrow> R"
  by (simp split: if_splits)

lemma decodes_InrD: "decodes P t r \<Longrightarrow> r = (Inr v, s') \<Longrightarrow> P v \<and> length s' \<le> length t"
  by auto

lemma decodeValue_good: "good_decoder (decodeValue fstr n)"
proof (induction n)
  case (Suc n)
  show ?case
    unfolding good_decoder_def
  proof (intro allI impI)
    fix s v s'
    assume a: "decodeValue fstr (Suc n) s = Some (Inr v, s')"
    then obtain c t where s: "s = c # t" by (cases s) (auto simp: decodeValue.simps)
    have items: "php_ok v \<and> length s' \<le> length t"
      if "decodeArrayItems (decodeValue fstr n) k [] u = Some (Inr v, s')" "k < 2 ^ 63" "length u \<le> length t" for k u
    proof -
      from decodeArrayItems_good [OF Suc.IH that(1)]
      obtain vs where "v = PArr (list_array vs)" "length vs = k" "\<forall>x \<in> set vs. php_ok x" "length s' \<le> length u" by auto
      then show ?thesis using list_array_ok [of vs] that(2,3) by simp
    qed
    have maps: "php_ok v \<and> length s' \<le> length t"
      if "decodeMapItems fstr (decodeValue fstr n) k [] u = Some (Inr v, s')" "length u \<le> length t" for k u
      using decodeMapItems_good [OF Suc.IH that(1)] that(2) by simp
    have citems: "php_ok v \<and> length s' \<le> length t"
      if c: "read_counted w (\<lambda>k. decodeArrayItems (decodeValue fstr n) k []) t = Some (Inr v, s')" and w: "w \<le> 4" for w
    proof -
      obtain k where k: "k < 256 ^ w" "decodeArrayItems (decodeValue fstr n) k [] (drop w t) = Some (Inr v, s')"
        using read_counted_InrD [OF c] by blast
      have "(256 :: nat) ^ w \<le> 256 ^ 4" using w by (intro power_increasing) auto
      then show ?thesis using items [OF k(2)] k(1) by simp
    qed
    have cmaps: "php_ok v \<and> length s' \<le> length t"
      if "read_counted w (\<lambda>k. decodeMapItems fstr (decodeValue fstr n) k []) t = Some (Inr v, s')" for w
      using read_counted_InrD [OF that] maps by fastforce
    have "nat (ord c AND 15) < 16" using and_15 [of "ord c"] by linarith
    then have "nat (ord c AND 15) < 2 ^ 63" by simp
    note fix_items = items [OF _ this order_refl]
    note scalars = reader_decodes [THEN decodes_InrD]
    have "php_ok v \<and> length s' \<le> length t"
      using a ord_bounds [of c] unfolding s decodeValue.simps list.case Let_def
      by (elim if_eqE) (auto simp: in_int64_def dest: scalars fix_items maps citems cmaps)
    then show "php_ok v \<and> length s' < length s" by (simp add: s)
  qed
qed (simp add: good_decoder_def)

subsection \<open>The bound is enough\<close>

lemma decodeArrayItems_total:
  assumes "good_decoder dec" "\<And>u. length u \<le> length s \<Longrightarrow> dec u \<noteq> None"
  shows "decodeArrayItems dec n result s \<noteq> None"
  using assms(2)
proof (induction n arbitrary: result s)
  case (Suc n)
  obtain r s1 where r: "dec s = Some (r, s1)" using Suc.prems [of s] by fastforce
  show ?case
  proof (cases r)
    case (Inr v)
    then have "length s1 < length s" using r assms(1) by (auto simp: good_decoder_def)
    then show ?thesis using r Inr Suc.IH [of s1] Suc.prems by simp
  qed (simp add: r)
qed simp

lemma decodeMapItems_total:
  assumes "good_decoder dec" "\<And>u. length u \<le> length s \<Longrightarrow> dec u \<noteq> None"
  shows "decodeMapItems fstr dec n result s \<noteq> None"
  using assms(2)
proof (induction n arbitrary: result s)
  case (Suc n)
  obtain r s1 where r: "dec s = Some (r, s1)" using Suc.prems [of s] by fastforce
  show ?case
  proof (cases r)
    case (Inr key)
    then have l1: "length s1 < length s" using r assms(1) by (auto simp: good_decoder_def)
    then obtain q s2 where q: "dec s1 = Some (q, s2)" using Suc.prems [of s1] by fastforce
    show ?thesis
    proof (cases q)
      case (Inr v)
      then have "length s2 < length s1" using q assms(1) by (auto simp: good_decoder_def)
      then show ?thesis using r q Inr \<open>r = Inr key\<close> l1 Suc.IH [of s2] Suc.prems by simp
    qed (simp add: r q Inr)
  qed (simp add: r)
qed simp

lemma read_counted_total: "(\<And>k. items k (drop n s) \<noteq> None) \<Longrightarrow> read_counted n items s \<noteq> None"
  by (auto simp: read_counted_def read_uint_def split: option.splits)

lemma decodeValue_total: "length s < n \<Longrightarrow> decodeValue fstr n s \<noteq> None"
proof (induction n arbitrary: s)
  case (Suc n)
  show ?case
  proof (cases s)
    case (Cons c t)
    have "decodeArrayItems (decodeValue fstr n) k r u \<noteq> None" "decodeMapItems fstr (decodeValue fstr n) k r' u \<noteq> None"
      if "length u \<le> length t" for k r r' u
      using Suc.IH Suc.prems Cons that
      by (intro decodeArrayItems_total decodeMapItems_total decodeValue_good; simp)+
    note items = this
    have "read_counted w (\<lambda>k. decodeArrayItems (decodeValue fstr n) k []) t \<noteq> None"
      "read_counted w (\<lambda>k. decodeMapItems fstr (decodeValue fstr n) k []) t \<noteq> None" for w
      by (intro read_counted_total items; simp)+
    then show ?thesis using items
      unfolding Cons decodeValue.simps list.case Let_def by (simp del: not_None_eq)
  qed (simp add: decodeValue.simps)
qed simp

subsection \<open>Decoding inverts encoding\<close>

lemma byte_masks:
  assumes "0 \<le> b" "b < 256"
  shows "b AND 240 = b div 16 * 16" "b AND 224 = b div 32 * 32" "b AND 15 = b mod 16" "b AND 31 = b mod (32 :: int)"
proof -
  have "\<forall>b \<in> set [0..255]. b AND 240 = b div 16 * 16 \<and> b AND 224 = b div 32 * 32 \<and> b AND 15 = b mod 16 \<and> b AND 31 = b mod (32 :: int)"
    by code_simp
  moreover have "b \<in> set [0..255]" using assms by simp
  ultimately show "b AND 240 = b div 16 * 16" "b AND 224 = b div 32 * 32" "b AND 15 = b mod 16" "b AND 31 = b mod 32"
    by blast+
qed

lemma head_or:
  fixes i :: int
  shows "0 \<le> i \<Longrightarrow> i < 16 \<Longrightarrow> 128 OR i = 128 + i" "0 \<le> i \<Longrightarrow> i < 16 \<Longrightarrow> 144 OR i = 144 + i"
    "0 \<le> i \<Longrightarrow> i < 32 \<Longrightarrow> 160 OR i = 160 + i"
  using or_eq_plus [of i 4 8] or_eq_plus [of i 4 9] or_eq_plus [of i 5 5] by (simp_all add: push_bit_eq_mult)

lemma int_masks: "i AND 65535 = i mod 65536" "i AND 4294967295 = i mod (4294967296 :: int)"
  using take_bit_eq_mask [of 16 i] take_bit_eq_mask [of 32 i] by (simp_all add: take_bit_eq_mod mask_eq_exp_minus_1)

lemma ord_CHR_tags [simp]:
  "ord CHR 0xc0 = 0xc0" "ord CHR 0xc2 = 0xc2" "ord CHR 0xc3 = 0xc3" "ord CHR 0xcb = 0xcb" "ord CHR 0xcc = 0xcc"
  "ord CHR 0xcd = 0xcd" "ord CHR 0xce = 0xce" "ord CHR 0xd0 = 0xd0" "ord CHR 0xd1 = 0xd1" "ord CHR 0xd2 = 0xd2"
  "ord CHR 0xd3 = 0xd3" "ord CHR 0xd9 = 0xd9" "ord CHR 0xda = 0xda" "ord CHR 0xdb = 0xdb" "ord CHR 0xdc = 0xdc"
  "ord CHR 0xdd = 0xdd" "ord CHR 0xde = 0xde" "ord CHR 0xdf = 0xdf"
  by (simp_all add: ord_def)

lemma read_uint_pack [simp]: "read_uint n (pack_be n i @ s) = (Inr (i mod 256 ^ n), s)"
  by (simp add: read_uint_def)

lemma read_uint_chr [simp]: "read_uint (Suc 0) (chr i # s) = (Inr (i mod 256), s)"
  using read_uint_pack [of 1 i s] by simp

lemma mod_negative: "- m \<le> i \<Longrightarrow> i < 0 \<Longrightarrow> i mod m = i + (m :: int)"
  using mod_pos_pos_trivial [of "i + m" m] by simp

lemma to_signed_mod:
  assumes "0 < w" "- (2 ^ (w - 1)) \<le> i" "i < 2 ^ (w - 1)"
  shows "to_signed w (i mod 2 ^ w) = i"
proof -
  have p: "(2 :: int) ^ w = 2 * 2 ^ (w - 1)" using assms(1) by (cases w) auto
  show ?thesis
  proof (cases "i < 0")
    case True
    then have "i mod 2 ^ w = i + 2 ^ w" using assms p by (intro mod_negative) auto
    then show ?thesis using assms p True by (simp add: to_signed_def)
  next
    case False
    then have "i mod 2 ^ w = i" using assms p by (intro mod_pos_pos_trivial) auto
    then show ?thesis using assms by (simp add: to_signed_def)
  qed
qed

lemma to_signed_small: "i < 2 ^ (w - 1) \<Longrightarrow> to_signed w i = i"
  by (simp add: to_signed_def)

lemmas to_signed_mods = to_signed_small [of _ 64, simplified] to_signed_mod [of 8, simplified] to_signed_mod [of 16, simplified]
  to_signed_mod [of 32, simplified] to_signed_mod [of 64, simplified]

lemma decode_tags:
  "decodeValue fstr (Suc n) (CHR 0xc0 # s) = Some (Inr PNull, s)"
  "decodeValue fstr (Suc n) (CHR 0xc2 # s) = Some (Inr (PBool False), s)"
  "decodeValue fstr (Suc n) (CHR 0xc3 # s) = Some (Inr (PBool True), s)"
  "decodeValue fstr (Suc n) (CHR 0xcb # s) = Some (readFloat64 s)"
  "decodeValue fstr (Suc n) (CHR 0xcc # s) = Some (readUint8 s)"
  "decodeValue fstr (Suc n) (CHR 0xcd # s) = Some (readUint16 s)"
  "decodeValue fstr (Suc n) (CHR 0xce # s) = Some (readUint32 s)"
  "decodeValue fstr (Suc n) (CHR 0xd0 # s) = Some (readInt8 s)"
  "decodeValue fstr (Suc n) (CHR 0xd1 # s) = Some (readInt16 s)"
  "decodeValue fstr (Suc n) (CHR 0xd2 # s) = Some (readInt32 s)"
  "decodeValue fstr (Suc n) (CHR 0xd3 # s) = Some (readInt64 s)"
  "decodeValue fstr (Suc n) (CHR 0xd9 # s) = Some (readStr8 s)"
  "decodeValue fstr (Suc n) (CHR 0xda # s) = Some (read_str 2 s)"
  "decodeValue fstr (Suc n) (CHR 0xdb # s) = Some (read_str 4 s)"
  "decodeValue fstr (Suc n) (CHR 0xdc # s) = read_counted 2 (\<lambda>k. decodeArrayItems (decodeValue fstr n) k []) s"
  "decodeValue fstr (Suc n) (CHR 0xdd # s) = read_counted 4 (\<lambda>k. decodeArrayItems (decodeValue fstr n) k []) s"
  "decodeValue fstr (Suc n) (CHR 0xde # s) = read_counted 2 (\<lambda>k. decodeMapItems fstr (decodeValue fstr n) k []) s"
  "decodeValue fstr (Suc n) (CHR 0xdf # s) = read_counted 4 (\<lambda>k. decodeMapItems fstr (decodeValue fstr n) k []) s"
  unfolding decodeValue.simps list.case Let_def ord_CHR_tags by simp_all

lemma decode_ranges:
  "ord c \<le> 127 \<Longrightarrow> decodeValue fstr (Suc n) (c # s) = Some (Inr (PInt (ord c)), s)"
  "128 \<le> ord c \<Longrightarrow> ord c < 144 \<Longrightarrow>
     decodeValue fstr (Suc n) (c # s) = decodeMapItems fstr (decodeValue fstr n) (nat (ord c - 128)) [] s"
  "144 \<le> ord c \<Longrightarrow> ord c < 160 \<Longrightarrow>
     decodeValue fstr (Suc n) (c # s) = decodeArrayItems (decodeValue fstr n) (nat (ord c - 144)) [] s"
  "160 \<le> ord c \<Longrightarrow> ord c < 192 \<Longrightarrow> decodeValue fstr (Suc n) (c # s) = Some (read_bytes (ord c - 160) s)"
  "224 \<le> ord c \<Longrightarrow> decodeValue fstr (Suc n) (c # s) = Some (Inr (PInt (ord c - 256)), s)"
proof -
  define b where "b = ord c"
  have b: "0 \<le> b" "b < 256" using ord_bounds [of c] by (simp_all add: b_def)
  note D = decodeValue.simps(2) [of fstr n "c # s", unfolded list.case Let_def, folded b_def, unfolded byte_masks [OF b]]
  show "ord c \<le> 127 \<Longrightarrow> decodeValue fstr (Suc n) (c # s) = Some (Inr (PInt (ord c)), s)"
    unfolding b_def [symmetric] D by simp
  show "128 \<le> ord c \<Longrightarrow> ord c < 144 \<Longrightarrow>
     decodeValue fstr (Suc n) (c # s) = decodeMapItems fstr (decodeValue fstr n) (nat (ord c - 128)) [] s"
  proof (fold b_def)
    assume "128 \<le> b" "b < 144"
    then have "b div 16 * 16 = 128" "b mod 16 = b - 128" by presburger+
    with \<open>128 \<le> b\<close> show "decodeValue fstr (Suc n) (c # s) = decodeMapItems fstr (decodeValue fstr n) (nat (b - 128)) [] s"
      unfolding D by simp
  qed
  show "144 \<le> ord c \<Longrightarrow> ord c < 160 \<Longrightarrow>
     decodeValue fstr (Suc n) (c # s) = decodeArrayItems (decodeValue fstr n) (nat (ord c - 144)) [] s"
  proof (fold b_def)
    assume "144 \<le> b" "b < 160"
    then have "b div 16 * 16 = 144" "b mod 16 = b - 144" by presburger+
    with \<open>144 \<le> b\<close> show "decodeValue fstr (Suc n) (c # s) = decodeArrayItems (decodeValue fstr n) (nat (b - 144)) [] s"
      unfolding D by simp
  qed
  show "160 \<le> ord c \<Longrightarrow> ord c < 192 \<Longrightarrow> decodeValue fstr (Suc n) (c # s) = Some (read_bytes (ord c - 160) s)"
  proof (fold b_def)
    assume "160 \<le> b" "b < 192"
    then have "b div 16 * 16 \<noteq> 128" "b div 16 * 16 \<noteq> 144" "b div 32 * 32 = 160" "b mod 32 = b - 160" by presburger+
    with \<open>160 \<le> b\<close> show "decodeValue fstr (Suc n) (c # s) = Some (read_bytes (b - 160) s)" unfolding D by simp
  qed
  show "224 \<le> ord c \<Longrightarrow> decodeValue fstr (Suc n) (c # s) = Some (Inr (PInt (ord c - 256)), s)"
  proof (fold b_def)
    assume "224 \<le> b"
    then have "b div 16 * 16 \<noteq> 128" "b div 16 * 16 \<noteq> 144" "b div 32 * 32 \<noteq> 160" by presburger+
    with \<open>224 \<le> b\<close> show "decodeValue fstr (Suc n) (c # s) = Some (Inr (PInt (b - 256)), s)" unfolding D by simp
  qed
qed

lemma ord_heads:
  "0 \<le> i \<Longrightarrow> i < 16 \<Longrightarrow> ord (chr (128 OR i)) = 128 + i" "0 \<le> i \<Longrightarrow> i < 16 \<Longrightarrow> ord (chr (144 OR i)) = 144 + i"
  "0 \<le> i \<Longrightarrow> i < 32 \<Longrightarrow> ord (chr (160 OR i)) = 160 + i" "i < 0 \<Longrightarrow> -32 \<le> i \<Longrightarrow> ord (chr (i AND 255)) = i + 256"
  unfolding ord_chr and_255 mod_mod_trivial by (simp_all add: head_or mod_negative)

lemma decode_fix:
  "0 \<le> i \<Longrightarrow> i \<le> 127 \<Longrightarrow> decodeValue fstr (Suc n) (chr i # s) = Some (Inr (PInt i), s)"
  "i < 0 \<Longrightarrow> -32 \<le> i \<Longrightarrow> decodeValue fstr (Suc n) (chr (i AND 255) # s) = Some (Inr (PInt i), s)"
  "0 \<le> i \<Longrightarrow> i < 16 \<Longrightarrow> decodeValue fstr (Suc n) (chr (128 OR i) # s) = decodeMapItems fstr (decodeValue fstr n) (nat i) [] s"
  "0 \<le> i \<Longrightarrow> i < 16 \<Longrightarrow> decodeValue fstr (Suc n) (chr (144 OR i) # s) = decodeArrayItems (decodeValue fstr n) (nat i) [] s"
  "0 \<le> i \<Longrightarrow> i < 32 \<Longrightarrow> decodeValue fstr (Suc n) (chr (160 OR i) # s) = Some (read_bytes i s)"
  using decode_ranges(1) [of "chr i"] decode_ranges(2) [of "chr (128 OR i)"] decode_ranges(3) [of "chr (144 OR i)"]
    decode_ranges(4) [of "chr (160 OR i)"] decode_ranges(5) [of "chr (i AND 255)"]
  by (simp_all only: ord_heads) simp_all

lemma decode_int:
  assumes "in_int64 i"
  shows "decodeValue fstr (Suc n) (encodeInt i @ s) = Some (Inr (PInt i), s)"
proof -
  consider "0 \<le> i" "i \<le> 127" | "i < 0" "-32 \<le> i" | "127 < i" "i \<le> 0xff" | "0xff < i" "i \<le> 0xffff"
    | "0xffff < i" "i \<le> 0xffffffff" | "i < -32" "-128 \<le> i" | "i < -128" "-32768 \<le> i"
    | "i < -32768" "-2147483648 \<le> i" | "i < -2147483648" | "0xffffffff < i" by linarith
  then show ?thesis
    using assms unfolding in_int64_def
    by cases (simp_all add: encodeInt_def decode_fix decode_tags int_masks readUint8_def ord_at_def
        readUint16_def readUint32_def readInt8_def readInt16_def readInt32_def readInt64_def to_signed_mods)
qed

lemma decode_string:
  assumes "length t < 2 ^ 32"
  shows "decodeValue fstr (Suc n) (encodeString t @ s) = Some (Inr (PStr t), s)"
  using assms unfolding encodeString_def Let_def
  by (auto simp: decode_fix decode_tags read_bytes_def readStr8_def ord_at_def read_str_def)

lemma seq_append_InrD:
  "seq_append result rs = Inr e \<Longrightarrow> \<exists>es. rs = map Inr es \<and> e = result @ concat es"
proof (induction result rs rule: seq_append.induct)
  case (3 result s rs)
  then obtain es where "rs = map Inr es \<and> e = (result @ s) @ concat es" by auto
  then show ?case by (intro exI [of _ "s # es"]) simp
qed auto

lemma decodeArrayItems_map:
  "list_all2 (\<lambda>e v. \<forall>s. dec (e @ s) = Some (Inr v, s)) es vs \<Longrightarrow>
   decodeArrayItems dec (length vs) acc (concat es @ s) = Some (Inr (PArr (list_array (acc @ vs))), s)"
  by (induction es vs arbitrary: acc rule: list_all2_induct) simp_all

lemma decodeMapItems_map:
  assumes "list_all2 (\<lambda>e (k, v). \<exists>ek ev. e = ek @ ev \<and> key_ok k \<and>
      (\<forall>s. dec (ek @ s) = Some (Inr (PStr (key_str k)), s)) \<and> (\<forall>s. dec (ev @ s) = Some (Inr v, s))) es a"
    and "distinct (map fst (acc @ a))"
  shows "decodeMapItems fstr dec (length a) acc (concat es @ s) = Some (Inr (PArr (acc @ a)), s)"
  using assms
proof (induction es a arbitrary: acc rule: list_all2_induct)
  case (Cons e es kv a)
  obtain k v where kv: "kv = (k, v)" by (cases kv)
  then have "k \<notin> fst ` set acc" using Cons.prems by auto
  then show ?case using Cons kv array_set_new [of k acc v] by auto
qed simp

text \<open>The lengths that the formats of the encoder can hold.\<close>

fun php_fits :: "phpval \<Rightarrow> bool" where
  "php_fits (PStr s) = (length s < 2 ^ 32)"
| "php_fits (PArr a) = (length a < 2 ^ 32 \<and> (\<forall>(k, v) \<in> set a. length (key_str k) < 2 ^ 32 \<and> php_fits v))"
| "php_fits v = True"

lemma read_counted_pack:
  "read_counted n items (pack_be n i @ s) = items (nat (i mod 256 ^ n)) s"
  by (simp add: read_counted_def)

lemma decode_heads:
  assumes "0 \<le> i" "i < 2 ^ 32"
  shows "decodeValue fstr (Suc n) (array_head i @ s) = decodeArrayItems (decodeValue fstr n) (nat i) [] s"
    and "decodeValue fstr (Suc n) (map_head i @ s) = decodeMapItems fstr (decodeValue fstr n) (nat i) [] s"
  using assms by (auto simp: array_head_def map_head_def decode_fix decode_tags read_counted_pack)

lemma encode_nonempty: "encode v = Inr e \<Longrightarrow> e \<noteq> []"
  by (cases v) (auto simp: encodeInt_def encodeString_def Let_def array_head_def map_head_def
      split: if_splits dest!: seq_append_InrD)

lemma length_concat_mem: "x \<in> set xs \<Longrightarrow> length x \<le> length (concat xs)"
  by (induction xs) auto

lemma encoded_items:
  "map (\<lambda>(k, v). g v) a = map Inr es \<Longrightarrow> list_all2 (\<lambda>e (k, v). g v = Inr e) es a"
  by (auto simp: list_all2_conv_all_nth list_eq_iff_nth_eq split_beta)

lemma encoded_pairs:
  "concat (map (\<lambda>(k, v). [Inr (f k), g v]) a) = map Inr es \<Longrightarrow>
   \<exists>ps. concat es = concat ps \<and> list_all2 (\<lambda>p (k, v). \<exists>e. p = f k @ e \<and> g v = Inr e) ps a"
proof (induction a arbitrary: es)
  case (Cons kv a)
  obtain k v where kv: "kv = (k, v)" by (cases kv)
  with Cons.prems obtain e es' where e: "es = f k # e # es'" "g v = Inr e"
    "concat (map (\<lambda>(k, v). [Inr (f k), g v]) a) = map Inr es'"
    by (auto simp: map_eq_Cons_conv Cons_eq_map_conv)
  from Cons.IH [OF e(3)] obtain ps where "concat es' = concat ps"
    "list_all2 (\<lambda>p (k, v). \<exists>e. p = f k @ e \<and> g v = Inr e) ps a" by blast
  then show ?case using e kv by (intro exI [of _ "(f k @ e) # ps"]) auto
qed auto

lemma head_pos: "1 \<le> length (array_head i)" "1 \<le> length (map_head i)"
  by (simp_all add: array_head_def map_head_def)

lemma decodeValue_encode:
  assumes "encode v = Inr e" "php_ok v" "php_fits v" "length e \<le> n"
  shows "decodeValue fstr n (e @ s) = Some (Inr v, s)"
  using assms
proof (induction v arbitrary: e n s rule: encode.induct)
  case (6 a)
  obtain m where n: "n = Suc m" using encode_nonempty [OF "6.prems"(1)] "6.prems"(4) by (cases n) auto
  have len: "0 \<le> int (length a)" "int (length a) < 2 ^ 32" using "6.prems"(3) by auto
  have elem: "decodeValue fstr m (ev @ s) = Some (Inr v, s)"
    if "(k, v) \<in> set a" "encode v = Inr ev" "length ev \<le> m" for k v ev s
  proof -
    have "php_ok v" "php_fits v" using that(1) "6.prems"(2,3) by auto
    then show ?thesis
      using "6.IH"(1) [OF _ that(1) refl that(2)] "6.IH"(2) [OF _ that(1) refl that(2)] that(3) by (cases "array_is_list a") auto
  qed
  show ?case
  proof (cases "array_is_list a")
    case True
    then obtain es where es: "map (\<lambda>(k, v). encode v) a = map Inr es" "e = array_head (int (length a)) @ concat es"
      using "6.prems"(1) by (auto dest!: seq_append_InrD)
    have m: "length x \<le> m" if "x \<in> set es" for x
      using length_concat_mem [OF that] "6.prems"(4) head_pos(1) [of "int (length a)"] by (simp add: es(2) n)
    have "list_all2 (\<lambda>e kv. \<forall>s. decodeValue fstr m (e @ s) = Some (Inr (snd kv), s)) es a"
      by (rule list.rel_mono_strong [OF encoded_items [OF es(1)]]) (auto intro: elem m)
    then have "list_all2 (\<lambda>e v. \<forall>s. decodeValue fstr m (e @ s) = Some (Inr v, s)) es (map snd a)"
      by (simp add: list.rel_map)
    from decodeArrayItems_map [OF this, of "[]" s] show ?thesis
      using decode_heads(1) [OF len, of fstr m "concat es @ s"] list_array_is_list [OF True] by (simp add: es(2) n)
  next
    case False
    then obtain es where es: "concat (map (\<lambda>(k, v). [Inr (encodeString (key_str k)), encode v]) a) = map Inr es"
      "e = map_head (int (length a)) @ concat es"
      using "6.prems"(1) by (auto dest!: seq_append_InrD)
    from encoded_pairs [OF es(1)] obtain ps where ps: "concat es = concat ps"
      "list_all2 (\<lambda>p (k, v). \<exists>e. p = encodeString (key_str k) @ e \<and> encode v = Inr e) ps a" by blast
    have m: "length x \<le> m" if "x \<in> set ps" for x
      using length_concat_mem [OF that] "6.prems"(4) head_pos(2) [of "int (length a)"] by (simp add: es(2) n ps(1))
    have key: "decodeValue fstr m (encodeString (key_str k) @ s) = Some (Inr (PStr (key_str k)), s)"
      if kv: "(k, v) \<in> set a" and x: "encodeString (key_str k) @ x \<in> set ps" for k v x s
    proof -
      have "0 < length (encodeString (key_str k))" by (simp add: encodeString_def Let_def)
      then obtain m' where "m = Suc m'" using m [OF x] by (cases m) auto
      moreover have "length (key_str k) < 2 ^ 32" using kv "6.prems"(3) by auto
      ultimately show ?thesis using decode_string by simp
    qed
    have "list_all2 (\<lambda>p (k, v). \<exists>ek ev. p = ek @ ev \<and> key_ok k \<and>
        (\<forall>s. decodeValue fstr m (ek @ s) = Some (Inr (PStr (key_str k)), s)) \<and>
        (\<forall>s. decodeValue fstr m (ev @ s) = Some (Inr v, s))) ps a"
    proof (rule list.rel_mono_strong [OF ps(2)], clarify)
      fix k v ev
      assume kv: "(k, v) \<in> set a" "encodeString (key_str k) @ ev \<in> set ps" "encode v = Inr ev"
      have "key_ok k" "length ev \<le> m" using kv(1) "6.prems"(2) m [OF kv(2)] by auto
      then show "\<exists>ek ev'. encodeString (key_str k) @ ev = ek @ ev' \<and> key_ok k \<and>
          (\<forall>s. decodeValue fstr m (ek @ s) = Some (Inr (PStr (key_str k)), s)) \<and>
          (\<forall>s. decodeValue fstr m (ev' @ s) = Some (Inr v, s))"
        using key [OF kv(1,2)] elem [OF kv(1,3)] by blast
    qed
    moreover have "distinct (map fst ([] @ a))" using "6.prems"(2) by simp
    ultimately show ?thesis
      using decodeMapItems_map [of "decodeValue fstr m" ps a "[]" fstr s] decode_heads(2) [OF len, of fstr m "concat ps @ s"]
      by (simp add: es(2) n ps(1))
  qed
next
  case (3 i)
  then obtain m where "n = Suc m" by (cases n) (auto simp: encodeInt_def split: if_splits)
  then show ?case using 3 by (auto simp: decode_int)
next
  case (4 w)
  then obtain m where "n = Suc m" by (cases n) auto
  moreover have "uint w mod 2 ^ 64 = uint w" using uint_lt2p [of w] by (intro mod_pos_pos_trivial) auto
  ultimately show ?case using 4 by (auto simp: decode_tags readFloat64_def)
next
  case (5 t)
  then obtain m where "n = Suc m" by (cases n) (auto simp: encodeString_def Let_def split: if_splits)
  then show ?case using 5 by (auto simp: decode_string)
qed (auto simp: Suc_le_length_iff decode_tags readFloat64_def Suc_le_eq gr0_conv_Suc)

lemma decode_of_encode: "encode v = Inr e \<Longrightarrow> php_ok v \<Longrightarrow> php_fits v \<Longrightarrow> decode fstr e = Inr v"
  using decodeValue_encode [of v e "Suc (length e)" fstr "[]"] by (simp add: decode_def)

subsection \<open>Properties\<close>


definition sample_value :: phpval where
  "sample_value = PArr [(KStr ''status'', PInt 404), (KInt (- 7), PArr [(KInt 0, PNull), (KInt 1, PInt (- 40000))]),
     (KStr ''007'', PBool True)]"


text \<open>
  C12: The decoder is total and type safe. On any string it ends, with an exception or with a value of the
  language: integers of 64 bits and arrays with distinct keys, none of them a string that reads as an
  integer; and it never leaves more input than there was.
\<close>
theorem decoder_type_safe:
  "case decodeValue fstr (Suc (length data)) data of
     None \<Rightarrow> False
   | Some (Inr v, rest) \<Rightarrow> php_ok v \<and> length rest < length data
   | Some (Inl e, rest) \<Rightarrow> decode fstr data = Inl e"
  using decodeValue_total [of data "Suc (length data)" fstr] decodeValue_good [of fstr "Suc (length data)"]
  by (auto simp: good_decoder_def decode_def split: option.splits sum.splits simp del: decodeValue.simps)

end
