(* ===== verification/PhpSdk.thy ===== *)
theory PhpSdk
  imports PhpMsgpack ExtWorker
begin

text \<open>
  The PHP SDK around the codecs (\<^verbatim>\<open>php-sdk/src\<close>): \<^verbatim>\<open>Frame::decodeHeaders\<close>, \<^verbatim>\<open>Request\<close>, \<^verbatim>\<open>Response\<close> and
  \<^verbatim>\<open>Worker\<close>, over the superglobals and the bytes written to the standard output. The functions of the
  language that the SDK calls and that have no bearing on the protocol (\<^verbatim>\<open>parse_str\<close>, \<^verbatim>\<open>json_encode\<close>,
  the text of an exception, of a float and of the working directory) are fields of \<open>php_env\<close>; the
  memory in use after each frame is a parameter of the loop.
\<close>

subsection \<open>Constants\<close>

definition php_TYPE_REQUEST :: int where "php_TYPE_REQUEST = 0x01"
definition php_TYPE_RESPONSE :: int where "php_TYPE_RESPONSE = 0x02"
definition php_TYPE_STREAM_DATA :: int where "php_TYPE_STREAM_DATA = 0x03"
definition php_TYPE_STREAM_CLOSE :: int where "php_TYPE_STREAM_CLOSE = 0x04"
definition php_TYPE_WORKER_READY :: int where "php_TYPE_WORKER_READY = 0x05"
definition php_TYPE_WORKER_STOP :: int where "php_TYPE_WORKER_STOP = 0x06"
definition php_TYPE_PING :: int where "php_TYPE_PING = 0x07"

lemmas php_type_defs = php_TYPE_REQUEST_def php_TYPE_RESPONSE_def php_TYPE_STREAM_DATA_def
  php_TYPE_STREAM_CLOSE_def php_TYPE_WORKER_READY_def php_TYPE_WORKER_STOP_def php_TYPE_PING_def

subsection \<open>Strings\<close>

type_synonym php_array = "(pkey \<times> phpval) list"

record php_env =
  parse_str :: "string \<Rightarrow> php_array"
  json_encode :: "phpval \<Rightarrow> php_throw + string"
  describe :: "php_throw \<Rightarrow> string"
  float_text :: "64 word \<Rightarrow> string"
  cwd :: phpval

definition strtolower :: "string \<Rightarrow> string" where
  "strtolower s = map lower_char s"

definition strtoupper :: "string \<Rightarrow> string" where
  "strtoupper s = map upper_char s"

text \<open>A string is false when it is empty or the digit zero.\<close>

definition truthy :: "string \<Rightarrow> bool" where
  "truthy s \<longleftrightarrow> s \<noteq> [] \<and> s \<noteq> ''0''"

definition trim_char :: "char \<Rightarrow> bool" where
  "trim_char c \<longleftrightarrow> c \<in> {CHR '' '', CHR 0x09, CHR 0x0A, CHR 0x0D, CHR 0x00, CHR 0x0B}"

definition trim :: "string \<Rightarrow> string" where
  "trim s = rev (dropWhile trim_char (rev (dropWhile trim_char s)))"

definition hex_value :: "char \<Rightarrow> nat option" where
  "hex_value c =
     (let n = of_char c :: nat
      in if 48 \<le> n \<and> n \<le> 57 then Some (n - 48)
         else if 97 \<le> n \<and> n \<le> 102 then Some (n - 87)
         else if 65 \<le> n \<and> n \<le> 70 then Some (n - 55)
         else None)"

fun urldecode :: "string \<Rightarrow> string" where
  "urldecode (a # b # c # s) =
     (if a = CHR ''+'' then CHR '' '' # urldecode (b # c # s)
      else if a = CHR ''%'' then
        (case (hex_value b, hex_value c) of
           (Some x, Some y) \<Rightarrow> char_of (16 * x + y) # urldecode s
         | _ \<Rightarrow> a # urldecode (b # c # s))
      else a # urldecode (b # c # s))"
| "urldecode (a # s) = (if a = CHR ''+'' then CHR '' '' else a) # urldecode s"
| "urldecode [] = []"

text \<open>\<^verbatim>\<open>array_merge\<close> keeps string keys and numbers the others anew.\<close>

fun merge_from :: "int \<Rightarrow> php_array \<Rightarrow> php_array \<Rightarrow> php_array" where
  "merge_from n acc [] = acc"
| "merge_from n acc ((KInt i, v) # a) = merge_from (n + 1) (array_set (KInt n) v acc) a"
| "merge_from n acc ((KStr s, v) # a) = merge_from n (array_set (KStr s) v acc) a"

definition array_merge :: "php_array \<Rightarrow> php_array \<Rightarrow> php_array" where
  "array_merge a b = merge_from 0 [] (a @ b)"

subsection \<open>Frame::decodeHeaders and Request\<close>

definition decodeHeaders :: "php_env \<Rightarrow> PhpFrame \<Rightarrow> php_throw + php_array" where
  "decodeHeaders env f =
     (if \<not> truthy (pf_headers f) then Inr []
      else case decode (float_text env) (pf_headers f) of
        Inl e \<Rightarrow> Inl e
      | Inr (PArr a) \<Rightarrow> Inr a
      | Inr _ \<Rightarrow> Inl TypeMismatch)"

record PhpRequest =
  pq_method :: string
  pq_uri :: string
  pq_queryString :: string
  pq_headers :: php_array
  pq_body :: string
  pq_remoteAddr :: string
  pq_serverName :: string
  pq_serverPort :: string
  pq_protocol :: string

text \<open>A header field with its default, which the constructor takes only as a string.\<close>

definition str_field :: "php_array \<Rightarrow> string \<Rightarrow> string \<Rightarrow> php_throw + string" where
  "str_field a key dflt =
     (case map_of a (KStr key) of
        None \<Rightarrow> Inr dflt
      | Some PNull \<Rightarrow> Inr dflt
      | Some (PStr s) \<Rightarrow> Inr s
      | Some _ \<Rightarrow> Inl TypeMismatch)"

definition arr_field :: "php_array \<Rightarrow> string \<Rightarrow> php_throw + php_array" where
  "arr_field a key =
     (case map_of a (KStr key) of
        None \<Rightarrow> Inr []
      | Some PNull \<Rightarrow> Inr []
      | Some (PArr hs) \<Rightarrow> Inr hs
      | Some _ \<Rightarrow> Inl TypeMismatch)"

definition fromFrame :: "php_array \<Rightarrow> string \<Rightarrow> php_throw + PhpRequest" where
  "fromFrame a payload =
     (case (str_field a ''method'' ''GET'', str_field a ''uri'' ''/'', str_field a ''query_string'' '''',
            arr_field a ''headers'', str_field a ''remote_addr'' '''', str_field a ''server_name'' '''',
            str_field a ''server_port'' ''8080'', str_field a ''protocol'' ''HTTP/1.1'') of
        (Inr method, Inr uri, Inr queryString, Inr headers, Inr remoteAddr, Inr serverName, Inr serverPort, Inr protocol) \<Rightarrow>
          Inr \<lparr>pq_method = method, pq_uri = uri, pq_queryString = queryString, pq_headers = headers, pq_body = payload,
               pq_remoteAddr = remoteAddr, pq_serverName = serverName, pq_serverPort = serverPort, pq_protocol = protocol\<rparr>
      | _ \<Rightarrow> Inl TypeMismatch)"

text \<open>The loop of \<^verbatim>\<open>Request::header\<close>; an integer key is not a string and \<^verbatim>\<open>strtolower\<close> refuses it.\<close>

fun find_header :: "string \<Rightarrow> string \<Rightarrow> php_array \<Rightarrow> php_throw + string" where
  "find_header name dflt [] = Inr dflt"
| "find_header name dflt ((KInt i, v) # hs) = Inl TypeMismatch"
| "find_header name dflt ((KStr key, v) # hs) =
     (if strtolower key = name then (case v of PStr s \<Rightarrow> Inr s | _ \<Rightarrow> Inl TypeMismatch)
      else find_header name dflt hs)"

definition req_header :: "PhpRequest \<Rightarrow> string \<Rightarrow> php_throw + string" where
  "req_header r name = find_header (strtolower name) '''' (pq_headers r)"

definition req_query :: "php_env \<Rightarrow> PhpRequest \<Rightarrow> php_array" where
  "req_query env r = parse_str env (pq_queryString r)"

fun server_headers :: "php_array \<Rightarrow> php_array \<Rightarrow> php_throw + php_array" where
  "server_headers server [] = Inr server"
| "server_headers server ((KInt i, v) # hs) = Inl TypeMismatch"
| "server_headers server ((KStr key, v) # hs) =
     server_headers (array_set (str_key (''HTTP_'' @ strtoupper (map (\<lambda>c. if c = CHR ''-'' then CHR ''_'' else c) key))) v server) hs"

definition server_base :: "php_env \<Rightarrow> PhpRequest \<Rightarrow> php_array" where
  "server_base env r =
     [(KStr ''REQUEST_METHOD'', PStr (pq_method r)),
      (KStr ''REQUEST_URI'', PStr (pq_uri r @ (if truthy (pq_queryString r) then ''?'' @ pq_queryString r else ''''))),
      (KStr ''QUERY_STRING'', PStr (pq_queryString r)),
      (KStr ''SERVER_NAME'', PStr (pq_serverName r)),
      (KStr ''SERVER_PORT'', PStr (pq_serverPort r)),
      (KStr ''SERVER_PROTOCOL'', PStr (pq_protocol r)),
      (KStr ''REMOTE_ADDR'', PStr (pq_remoteAddr r)),
      (KStr ''SCRIPT_NAME'', PStr (pq_uri r)),
      (KStr ''DOCUMENT_ROOT'', cwd env)]"

text \<open>Copying a header to a variable of its own when it is there.\<close>

definition server_copy :: "PhpRequest \<Rightarrow> string \<Rightarrow> string \<Rightarrow> php_array \<Rightarrow> php_throw + php_array" where
  "server_copy r name var server =
     (case req_header r name of
        Inl e \<Rightarrow> Inl e
      | Inr v \<Rightarrow> Inr (if truthy v then array_set (KStr var) (PStr v) server else server))"

definition toServerVars :: "php_env \<Rightarrow> PhpRequest \<Rightarrow> php_throw + php_array" where
  "toServerVars env r =
     (case server_headers (server_base env r) (pq_headers r) of
        Inl e \<Rightarrow> Inl e
      | Inr server \<Rightarrow>
          (case server_copy r ''content-type'' ''CONTENT_TYPE'' server of
             Inl e \<Rightarrow> Inl e
           | Inr server \<Rightarrow> server_copy r ''content-length'' ''CONTENT_LENGTH'' server))"

subsection \<open>Response\<close>

record PhpResponse =
  ps_status :: int
  ps_headers :: php_array
  ps_body :: string

definition new_Response :: PhpResponse where
  "new_Response = \<lparr>ps_status = 200, ps_headers = [(KStr ''Content-Type'', PStr ''text/html; charset=UTF-8'')], ps_body = ''''\<rparr>"

definition rsp_status :: "int \<Rightarrow> PhpResponse \<Rightarrow> PhpResponse" where
  "rsp_status code r = r\<lparr>ps_status := code\<rparr>"

definition rsp_header :: "string \<Rightarrow> string \<Rightarrow> PhpResponse \<Rightarrow> PhpResponse" where
  "rsp_header name value r = r\<lparr>ps_headers := array_set (str_key name) (PStr value) (ps_headers r)\<rparr>"

definition rsp_body :: "string \<Rightarrow> PhpResponse \<Rightarrow> PhpResponse" where
  "rsp_body content r = r\<lparr>ps_body := content\<rparr>"

text \<open>The status and the type are set before the encoding may throw.\<close>

definition rsp_json :: "php_env \<Rightarrow> phpval \<Rightarrow> int \<Rightarrow> PhpResponse \<Rightarrow> (php_throw + unit) \<times> PhpResponse" where
  "rsp_json env data code r =
     (let r = rsp_header ''Content-Type'' ''application/json'' (rsp_status code r)
      in case json_encode env data of
           Inl e \<Rightarrow> (Inl e, r)
         | Inr s \<Rightarrow> (Inr (), rsp_body s r))"

definition rsp_html :: "string \<Rightarrow> int \<Rightarrow> PhpResponse \<Rightarrow> PhpResponse" where
  "rsp_html content code r = rsp_body content (rsp_header ''Content-Type'' ''text/html; charset=UTF-8'' (rsp_status code r))"

definition rsp_redirect :: "string \<Rightarrow> int \<Rightarrow> PhpResponse \<Rightarrow> PhpResponse" where
  "rsp_redirect url code r = rsp_header ''Location'' url (rsp_status code r)"

definition response_frame :: "PhpResponse \<Rightarrow> php_throw + PhpFrame" where
  "response_frame r =
     (case encode (PArr [(KStr ''status'', PInt (ps_status r)), (KStr ''headers'', PArr (ps_headers r))]) of
        Inl e \<Rightarrow> Inl e
      | Inr headerData \<Rightarrow>
          Inr \<lparr>pf_type = php_TYPE_RESPONSE, pf_flags = 0, pf_streamId = 0, pf_headers = headerData, pf_payload = ps_body r\<rparr>)"

text \<open>What a call of \<^verbatim>\<open>send\<close> writes, or throws.\<close>

definition rsp_send :: "PhpResponse \<Rightarrow> (php_throw + unit) \<times> string" where
  "rsp_send r =
     (case response_frame r of
        Inl e \<Rightarrow> (Inl e, '''')
      | Inr f \<Rightarrow> (Inr (), concat (php_writeFrame f)))"

subsection \<open>Worker\<close>

record php_globals =
  g_SERVER :: php_array
  g_GET :: php_array
  g_POST :: php_array
  g_REQUEST :: php_array
  g_COOKIE :: php_array
  g_FILES :: php_array

text \<open>
  The registered handler: it gets the superglobals, the request and a new response, and ends with or
  without an exception, the response as it left it, what it wrote to the standard output itself, and
  the superglobals.
\<close>

type_synonym php_handler =
  "php_globals \<Rightarrow> PhpRequest \<Rightarrow> PhpResponse \<Rightarrow> (php_throw + unit) \<times> PhpResponse \<times> string \<times> php_globals"

definition set_cookie :: "string \<Rightarrow> php_array \<Rightarrow> php_array" where
  "set_cookie cookie a =
     (case split_at CHR ''='' (trim cookie) of
        name # p # ps \<Rightarrow> array_set (str_key (trim name)) (PStr (urldecode (trim (join_with CHR ''='' (p # ps))))) a
      | _ \<Rightarrow> a)"

definition parse_cookies :: "string \<Rightarrow> php_array" where
  "parse_cookies cookieHeader =
     (if cookieHeader = '''' then [] else fold set_cookie (split_at CHR '';'' cookieHeader) [])"

text \<open>The superglobals, up to the first exception.\<close>

definition populate :: "php_env \<Rightarrow> PhpRequest \<Rightarrow> php_globals \<Rightarrow> (php_throw + unit) \<times> php_globals" where
  "populate env r g =
     (case toServerVars env r of
        Inl e \<Rightarrow> (Inl e, g)
      | Inr server \<Rightarrow>
          (let g = g\<lparr>g_SERVER := server, g_GET := req_query env r, g_POST := [], g_REQUEST := [], g_COOKIE := [], g_FILES := []\<rparr>;
               ctype = (if pq_method r = ''POST'' then req_header r ''content-type'' else Inr '''')
           in case ctype of
                Inl e \<Rightarrow> (Inl e, g)
              | Inr ct \<Rightarrow>
                  (let g = (if pq_method r = ''POST'' \<and> Contains ct ''application/x-www-form-urlencoded''
                            then g\<lparr>g_POST := parse_str env (pq_body r)\<rparr> else g);
                       g = g\<lparr>g_REQUEST := array_merge (g_GET g) (g_POST g)\<rparr>
                   in case req_header r ''cookie'' of
                        Inl e \<Rightarrow> (Inl e, g)
                      | Inr cookieHeader \<Rightarrow> (Inr (), g\<lparr>g_COOKIE := parse_cookies cookieHeader\<rparr>))))"

definition error_response :: "php_env \<Rightarrow> php_throw \<Rightarrow> PhpResponse" where
  "error_response env e =
     rsp_body (''Internal Server Error: '' @ describe env e) (rsp_header ''Content-Type'' ''text/plain'' (rsp_status 500 new_Response))"

text \<open>The body of the \<^verbatim>\<open>try\<close> block: how it ended, and what it wrote.\<close>

definition try_request :: "php_env \<Rightarrow> php_handler \<Rightarrow> PhpFrame \<Rightarrow> php_globals \<Rightarrow> (php_throw + unit) \<times> string \<times> php_globals" where
  "try_request env handler f g =
     (case decodeHeaders env f of
        Inl e \<Rightarrow> (Inl e, '''', g)
      | Inr headerData \<Rightarrow>
          (case fromFrame headerData (pf_payload f) of
             Inl e \<Rightarrow> (Inl e, '''', g)
           | Inr request \<Rightarrow>
               (case populate env request g of
                  (Inl e, g) \<Rightarrow> (Inl e, '''', g)
                | (Inr _, g) \<Rightarrow>
                    (case handler g request new_Response of
                       (Inl e, response, out, g) \<Rightarrow> (Inl e, out, g)
                     | (Inr _, response, out, g) \<Rightarrow>
                         (case rsp_send response of (res, sent) \<Rightarrow> (res, out @ sent, g))))))"

text \<open>An exception of the handler is answered by a page; one of its own \<^verbatim>\<open>send\<close> would end the worker.\<close>

definition handleRequest :: "php_env \<Rightarrow> php_handler \<Rightarrow> PhpFrame \<Rightarrow> php_globals \<Rightarrow> (php_throw + unit) \<times> string \<times> php_globals" where
  "handleRequest env handler f g =
     (case try_request env handler f g of
        (Inr _, out, g) \<Rightarrow> (Inr (), out, g)
      | (Inl e, out, g) \<Rightarrow> (case rsp_send (error_response env e) of (res, sent) \<Rightarrow> (res, out @ sent, g)))"

definition sendReady :: string where
  "sendReady = concat (php_writeFrame \<lparr>pf_type = php_TYPE_WORKER_READY, pf_flags = 0, pf_streamId = 0, pf_headers = '''', pf_payload = ''''\<rparr>)"

definition sendPong :: string where
  "sendPong = concat (php_writeFrame \<lparr>pf_type = php_TYPE_PING, pf_flags = 0, pf_streamId = 0, pf_headers = '''', pf_payload = ''pong''\<rparr>)"

lemma readExact_loop_consumes:
  "readExact_loop len data n cs = (Inr d, cs') \<Longrightarrow> length (concat cs) = n + length (concat cs')"
proof (induction len data n cs rule: readExact_loop.induct)
  case (1 len data n cs)
  show ?case
  proof (cases "n = 0")
    case False
    obtain c cs1 where f: "fread n cs = (c, cs1)" by (cases "fread n cs")
    have l: "length (concat cs) = length c + length (concat cs1)" "length c \<le> n"
      using f by (cases cs; auto split: if_splits)+
    from "1.prems" f False have "c \<noteq> []" "readExact_loop len (data @ c) (n - length c) cs1 = (Inr d, cs')"
      by (auto simp: readExact_loop.simps [of len data] split: if_splits)
    with "1.IH" [OF False f [symmetric]] l show ?thesis by auto
  qed (use "1.prems" in \<open>simp add: readExact_loop.simps\<close>)
qed

lemma php_readFrame_consumes:
  assumes "php_readFrame cs = (Inr f, cs')"
  shows "length (concat cs') < length (concat cs)"
proof -
  have c: "length (concat b) \<le> length (concat a)" if "readExact n a = (Inr d, b)" for n a d b
    using readExact_loop_consumes that unfolding readExact_def by fastforce
  obtain h b where h: "readExact 14 cs = (Inr h, b)"
    using assms by (auto simp: php_readFrame_def HEADER_SIZE_def split: prod.splits sum.splits)
  then have "length (concat b) < length (concat cs)"
    using readExact_loop_consumes unfolding readExact_def by fastforce
  moreover have "length (concat cs') \<le> length (concat b)"
    using assms h
    by (auto simp: php_readFrame_def HEADER_SIZE_def Let_def split: prod.splits sum.splits if_splits dest!: c)
  ultimately show ?thesis by simp
qed

record PhpWorker =
  pw_requestCount :: int
  pw_maxRequests :: int
  pw_maxMemory :: int
  pw_globals :: php_globals

text \<open>
  The loop of \<^verbatim>\<open>Worker::run\<close> on an input that is closed after the given chunks: what it writes. The
  memory in use after the \<open>i\<close>-th frame is \<open>mem i\<close>.
\<close>

function worker_loop :: "php_env \<Rightarrow> php_handler \<Rightarrow> (nat \<Rightarrow> int) \<Rightarrow> nat \<Rightarrow> PhpWorker \<Rightarrow> string list \<Rightarrow> string" where
  "worker_loop env handler mem i w stdin =
     (case php_readFrame stdin of
        (Inl e, stdin') \<Rightarrow> ''''
      | (Inr f, stdin') \<Rightarrow>
          if pf_type f = php_TYPE_WORKER_STOP then ''''
          else if pf_type f = php_TYPE_PING then sendPong @ worker_loop env handler mem (Suc i) w stdin'
          else
            (let (res, out, g) = (if pf_type f = php_TYPE_REQUEST then handleRequest env handler f (pw_globals w)
                                  else (Inr (), '''', pw_globals w));
                 w = w\<lparr>pw_globals := g,
                       pw_requestCount := pw_requestCount w + (if pf_type f = php_TYPE_REQUEST then 1 else 0)\<rparr>
             in case res of
                  Inl e \<Rightarrow> out
                | Inr _ \<Rightarrow>
                    if pw_maxRequests w > 0 \<and> pw_requestCount w \<ge> pw_maxRequests w then out
                    else if mem i > pw_maxMemory w then out
                    else out @ sendReady @ worker_loop env handler mem (Suc i) w stdin'))"
  by pat_completeness auto
termination
  by (relation "measure (\<lambda>(env, handler, mem, i, w, stdin). length (concat stdin))") (auto dest: php_readFrame_consumes [OF sym] simp del: length_concat)

declare worker_loop.simps [simp del]

definition worker_run :: "php_env \<Rightarrow> php_handler option \<Rightarrow> (nat \<Rightarrow> int) \<Rightarrow> PhpWorker \<Rightarrow> string list \<Rightarrow> php_throw + string" where
  "worker_run env handler mem w stdin =
     (case handler of
        None \<Rightarrow> Inl NoHandler
      | Some h \<Rightarrow> Inr (sendReady @ worker_loop env h mem 0 w stdin))"

subsection \<open>One answer to every request\<close>

definition no_globals :: php_globals where
  "no_globals = \<lparr>g_SERVER = [], g_GET = [], g_POST = [], g_REQUEST = [], g_COOKIE = [], g_FILES = []\<rparr>"

definition error_frame :: "php_env \<Rightarrow> php_throw \<Rightarrow> PhpFrame" where
  "error_frame env e = projr (response_frame (error_response env e))"

text \<open>The frame that answers a request when the handler writes nothing itself.\<close>

definition sdk_reply :: "php_env \<Rightarrow> php_handler \<Rightarrow> PhpFrame \<Rightarrow> PhpFrame" where
  "sdk_reply env handler f =
     (case decodeHeaders env f of
        Inl e \<Rightarrow> error_frame env e
      | Inr headerData \<Rightarrow>
          (case fromFrame headerData (pf_payload f) of
             Inl e \<Rightarrow> error_frame env e
           | Inr request \<Rightarrow>
               (case populate env request no_globals of
                  (Inl e, g) \<Rightarrow> error_frame env e
                | (Inr _, g) \<Rightarrow>
                    (case handler g request new_Response of
                       (Inl e, response, _) \<Rightarrow> error_frame env e
                     | (Inr _, response, _) \<Rightarrow>
                         (case response_frame response of Inl e \<Rightarrow> error_frame env e | Inr fr \<Rightarrow> fr)))))"

lemma populate_fresh: "fst (populate env r g) = fst (populate env r g')"
  "fst (populate env r g) = Inr () \<Longrightarrow> populate env r g = populate env r g'"
  by (auto simp: populate_def Let_def split: sum.splits)

lemma error_response_frame: "\<exists>fr. response_frame (error_response env e) = Inr fr"
  by (auto simp: response_frame_def error_response_def rsp_body_def rsp_header_def rsp_status_def new_Response_def
      array_set_def str_key_def int_key_def array_is_list_def is_digit_def Let_def)

lemma rsp_send_error: "rsp_send (error_response env e) = (Inr (), concat (php_writeFrame (error_frame env e)))"
  using error_response_frame [of env e] by (auto simp: rsp_send_def error_frame_def)

definition writes_nothing :: "php_handler \<Rightarrow> bool" where
  "writes_nothing h \<longleftrightarrow> (\<forall>g r p. fst (snd (snd (h g r p))) = '''')"

lemma handleRequest_reply:
  assumes "writes_nothing h"
  shows "fst (handleRequest env h f g) = Inr () \<and> fst (snd (handleRequest env h f g)) = concat (php_writeFrame (sdk_reply env h f))"
proof (cases "decodeHeaders env f")
  case (Inl e)
  then show ?thesis by (simp add: handleRequest_def try_request_def sdk_reply_def rsp_send_error)
next
  case (Inr a)
  note 1 = this
  show ?thesis
  proof (cases "fromFrame a (pf_payload f)")
    case (Inl e)
    then show ?thesis using 1 by (simp add: handleRequest_def try_request_def sdk_reply_def rsp_send_error)
  next
    case (Inr r)
    note 2 = this
    show ?thesis
    proof (cases "fst (populate env r g)")
      case (Inl e)
      then have "fst (populate env r no_globals) = Inl e" using populate_fresh(1) by metis
      then show ?thesis using 1 2 Inl
        by (auto simp: handleRequest_def try_request_def sdk_reply_def rsp_send_error split: prod.splits)
    next
      case (Inr u)
      then have p: "populate env r g = populate env r no_globals" by (intro populate_fresh(2)) simp
      obtain g1 where g1: "populate env r no_globals = (Inr (), g1)" using Inr p by (cases "populate env r no_globals") auto
      obtain res resp out g2 where h: "h g1 r new_Response = (res, resp, out, g2)" by (cases "h g1 r new_Response")
      then have "out = ''''" using assms by (metis writes_nothing_def fst_conv snd_conv)
      then show ?thesis using 1 2 p g1 h
        by (auto simp: handleRequest_def try_request_def sdk_reply_def rsp_send_error rsp_send_def [of resp] split: sum.splits prod.splits)
    qed
  qed
qed

lemma frames_fuel_enough: "length b \<le> n \<Longrightarrow> frames_fuel n b = frames_fuel (length b) b"
proof (induction n arbitrary: b rule: less_induct)
  case (less n)
  show ?case
  proof (cases b)
    case (Cons x xs)
    then obtain m k where n: "n = Suc m" "length b = Suc k" using less.prems by (cases n) auto
    show ?thesis
    proof (cases "ReadFrame b")
      case (Pair r rest)
      show ?thesis
      proof (cases r)
        case (Inr f)
        then have "length rest + 14 \<le> length b"
          using ReadFrame_InrD [of b f rest] Pair length_frame_bytes_pos [of f] by auto
        then have "length rest \<le> m" "length rest \<le> k" "m < n" "k < n" using n less.prems by auto
        then have "frames_fuel m rest = frames_fuel k rest" using less.IH [of m rest] less.IH [of k rest] by simp
        then show ?thesis using Pair Inr n by simp
      qed (use Pair n in simp)
    qed
  qed (cases n; simp add: ReadFrame_short)
qed

lemma frames_of_rec:
  "frames_of b = (case ReadFrame b of (Inr f, rest) \<Rightarrow> f # frames_of rest | (Inl e, rest) \<Rightarrow> [])"
proof (cases "ReadFrame b")
  case (Pair r rest)
  show ?thesis
  proof (cases r)
    case (Inr f)
    then have "length rest + 14 \<le> length b"
      using ReadFrame_InrD [of b f rest] Pair length_frame_bytes_pos [of f] by auto
    then obtain k where k: "length b = Suc k" "length rest \<le> k" by (cases "length b") auto
    then show ?thesis using Pair Inr frames_fuel_enough [OF k(2)] by (simp add: frames_of_def)
  qed (use Pair in \<open>cases "length b"; simp add: frames_of_def\<close>)
qed

subsection \<open>The worker behaves as the loop the pool relies on\<close>

definition go_answer :: "php_env \<Rightarrow> php_handler \<Rightarrow> Frame \<Rightarrow> Frame" where
  "go_answer env h f = go_frame (sdk_reply env h (php_frame f))"

lemma sendReady_bytes: "bytes_of_string sendReady = frame_bytes sdk_ready"
  unfolding sendReady_def php_writeFrame_bytes by (simp add: go_frame_def sdk_ready_def php_type_defs frame_type_defs)

lemma sendPong_bytes: "bytes_of_string sendPong = frame_bytes sdk_pong"
  unfolding sendPong_def php_writeFrame_bytes by (simp add: go_frame_def sdk_pong_def php_type_defs frame_type_defs)

lemma php_type_iff:
  assumes "php_frame (go_frame f) = f"
  shows "pf_type f = php_TYPE_WORKER_STOP \<longleftrightarrow> fr_Type (go_frame f) = TypeWorkerStop"
    "pf_type f = php_TYPE_PING \<longleftrightarrow> fr_Type (go_frame f) = TypePing"
    "pf_type f = php_TYPE_REQUEST \<longleftrightarrow> fr_Type (go_frame f) = TypeRequest"
proof -
  have t: "pf_type f = uint (fr_Type (go_frame f))" using arg_cong [OF assms, of pf_type] by (simp add: php_frame_def)
  have "uint w = 6 \<longleftrightarrow> w = 6" "uint w = 7 \<longleftrightarrow> w = 7" "uint w = 1 \<longleftrightarrow> w = 1" for w :: byte
    using word_uint_eq_iff [of w 6] word_uint_eq_iff [of w 7] word_uint_eq_iff [of w 1] by simp_all
  then show "pf_type f = php_TYPE_WORKER_STOP \<longleftrightarrow> fr_Type (go_frame f) = TypeWorkerStop"
    "pf_type f = php_TYPE_PING \<longleftrightarrow> fr_Type (go_frame f) = TypePing"
    "pf_type f = php_TYPE_REQUEST \<longleftrightarrow> fr_Type (go_frame f) = TypeRequest"
    unfolding t php_type_defs frame_type_defs by simp_all
qed

text \<open>One round of the loop, over the frames of its input: nothing is left, or the next frame is handled.\<close>

definition at_limit :: "(nat \<Rightarrow> int) \<Rightarrow> nat \<Rightarrow> PhpWorker \<Rightarrow> bool" where
  "at_limit mem i w \<longleftrightarrow> pw_maxRequests w > 0 \<and> pw_requestCount w \<ge> pw_maxRequests w \<or> mem i > pw_maxMemory w"

lemma worker_round [consumes 2, case_names closed frame]:
  assumes "writes_nothing h" "[] \<notin> set cs"
  obtains (closed) "worker_loop env h mem i w cs = ''''" "frames_of (bytes_of_string (concat cs)) = []"
  | (frame) f cs' w' where
      "frames_of (bytes_of_string (concat cs)) = f # frames_of (bytes_of_string (concat cs'))"
      "length (concat cs') < length (concat cs)" "[] \<notin> set cs'"
      "pw_maxRequests w' = pw_maxRequests w" "pw_maxMemory w' = pw_maxMemory w"
      "bytes_of_string (worker_loop env h mem i w cs) =
        (if fr_Type f = TypeWorkerStop then []
         else if fr_Type f = TypePing then frame_bytes sdk_pong @ bytes_of_string (worker_loop env h mem (Suc i) w cs')
         else (if fr_Type f = TypeRequest then frame_bytes (go_answer env h f) else [])
           @ (if at_limit mem i w' then []
              else frame_bytes sdk_ready @ bytes_of_string (worker_loop env h mem (Suc i) w' cs')))"
proof (cases "php_readFrame cs")
  case (Pair r cs')
  note agree = php_readFrame_agrees [OF assms(2), unfolded Pair prod.case]
  show thesis
  proof (cases r)
    case (Inl e)
    then obtain e' where "ReadFrame (bytes_of_string (concat cs)) = (Inl e', bytes_of_string (concat cs'))" using agree by auto
    then have "frames_of (bytes_of_string (concat cs)) = []" by (subst frames_of_rec) simp
    then show thesis using Pair Inl by (intro closed) (simp_all add: worker_loop.simps [of env h mem i w cs])
  next
    case (Inr f)
    have ok: "php_frame (go_frame f) = f" "[] \<notin> set cs'"
      and R: "ReadFrame (bytes_of_string (concat cs)) = (Inr (go_frame f), bytes_of_string (concat cs'))"
      using agree Inr by simp_all
    obtain g where H: "handleRequest env h f (pw_globals w) = (Inr (), concat (php_writeFrame (sdk_reply env h f)), g)"
      using handleRequest_reply [OF assms(1), of env f "pw_globals w"]
      by (cases "handleRequest env h f (pw_globals w)") auto
    have A: "bytes_of_string (concat (php_writeFrame (sdk_reply env h f))) = frame_bytes (go_answer env h (go_frame f))"
      by (simp add: php_writeFrame_bytes go_answer_def ok)
    define w' where "w' = w\<lparr>pw_globals := if pf_type f = php_TYPE_REQUEST then g else pw_globals w,
      pw_requestCount := pw_requestCount w + (if pf_type f = php_TYPE_REQUEST then 1 else 0)\<rparr>"
    show thesis
    proof (rule frame [of "go_frame f" cs' w'])
      show "frames_of (bytes_of_string (concat cs)) = go_frame f # frames_of (bytes_of_string (concat cs'))"
        by (subst frames_of_rec) (simp add: R)
      show "length (concat cs') < length (concat cs)" using php_readFrame_consumes Pair Inr by blast
      show "bytes_of_string (worker_loop env h mem i w cs) =
        (if fr_Type (go_frame f) = TypeWorkerStop then []
         else if fr_Type (go_frame f) = TypePing then frame_bytes sdk_pong @ bytes_of_string (worker_loop env h mem (Suc i) w cs')
         else (if fr_Type (go_frame f) = TypeRequest then frame_bytes (go_answer env h (go_frame f)) else [])
           @ (if at_limit mem i w' then []
              else frame_bytes sdk_ready @ bytes_of_string (worker_loop env h mem (Suc i) w' cs')))"
        using php_type_iff [OF ok(1)]
        by (subst worker_loop.simps)
          (auto simp: Pair Inr H A w'_def at_limit_def Let_def sendPong_bytes sendReady_bytes)
    qed (simp_all add: ok w'_def)
  qed
qed

lemma worker_loop_prefix:
  assumes "writes_nothing h" "[] \<notin> set cs"
  shows "prefix (bytes_of_string (worker_loop env h mem i w cs)) (bytes (sdk_loop (go_answer env h) (frames_of (bytes_of_string (concat cs)))))"
  using assms(2)
proof (induction "length (concat cs)" arbitrary: i w cs rule: less_induct)
  case less
  from assms(1) less.prems show ?case
  proof (cases rule: worker_round [of h cs env mem i w])
    case (frame f cs' w')
    note IH = less.hyps [OF frame(2,3)]
    show ?thesis using IH [of "Suc i" w] IH [of "Suc i" w'] unfolding frame(1,6) by (auto intro!: prefixI)
  qed simp
qed

text \<open>Without limits the worker answers everything: it writes all that the loop writes.\<close>

lemma worker_loop_exact:
  assumes "writes_nothing h" "pw_maxRequests w \<le> 0" "\<forall>i. mem i \<le> pw_maxMemory w" "[] \<notin> set cs"
  shows "bytes_of_string (worker_loop env h mem i w cs) = bytes (sdk_loop (go_answer env h) (frames_of (bytes_of_string (concat cs))))"
  using assms(2-)
proof (induction "length (concat cs)" arbitrary: i w cs rule: less_induct)
  case less
  from assms(1) less.prems(3) show ?case
  proof (cases rule: worker_round [of h cs env mem i w])
    case (frame f cs' w')
    have "\<not> at_limit mem i w'" using less.prems frame(4,5) by (auto simp: at_limit_def not_less)
    then show ?thesis
      using less.hyps [OF frame(2), of w "Suc i"] less.hyps [OF frame(2), of w' "Suc i"] less.prems frame(3-5)
      unfolding frame(1,6) by auto
  qed simp
qed

lemma worker_run_behaves:
  assumes "writes_nothing h" "[] \<notin> set stdin" "worker_run env (Some h) mem w stdin = Inr out"
  shows "sdk_behaves (go_answer env h) (bytes_of_string (concat stdin)) (bytes_of_string (take n out))"
proof -
  have "prefix (bytes_of_string out) (bytes (sdk_run (go_answer env h) (frames_of (bytes_of_string (concat stdin)))))"
    using worker_loop_prefix [OF assms(1,2)] assms(3) by (auto simp: worker_run_def sendReady_bytes sdk_run_def)
  then show ?thesis
    unfolding sdk_behaves_def bytes_of_string_take by (metis append_take_drop_id prefixI prefix_order.trans)
qed

lemma worker_run_all:
  assumes "writes_nothing h" "[] \<notin> set stdin" "pw_maxRequests w \<le> 0" "\<forall>i. mem i \<le> pw_maxMemory w"
    and "worker_run env (Some h) mem w stdin = Inr out"
  shows "bytes_of_string out = bytes (sdk_run (go_answer env h) (frames_of (bytes_of_string (concat stdin))))"
  using worker_loop_exact [OF assms(1,3,4,2)] assms(5) by (auto simp: worker_run_def sendReady_bytes sdk_run_def)

subsection \<open>Properties\<close>


text \<open>A handler that answers with the body of the request.\<close>

definition echo_handler :: php_handler where
  "echo_handler g r p = (Inr (), rsp_body (pq_body r) p, '''', g)"

definition plain_env :: php_env where
  "plain_env = \<lparr>parse_str = (\<lambda>_. []), json_encode = (\<lambda>_. Inl TypeMismatch), describe = (\<lambda>_. ''''), float_text = (\<lambda>_. ''''),
     cwd = PStr ''/''\<rparr>"

definition sdk_request :: string where
  "sdk_request = concat (php_writeFrame \<lparr>pf_type = 1, pf_flags = 0, pf_streamId = 0, pf_headers = '''', pf_payload = ''hi''\<rparr>)"

definition fresh_worker :: PhpWorker where
  "fresh_worker = \<lparr>pw_requestCount = 0, pw_maxRequests = 0, pw_maxMemory = 100, pw_globals = no_globals\<rparr>"


lemma server_headers_int: "(KInt i, v) \<in> set hs \<Longrightarrow> server_headers server hs = Inl TypeMismatch"
  by (induction server hs rule: server_headers.induct) auto

text \<open>
  C37: A request with a header whose name is a decimal number never reaches the application. PHP turns
  such a name into an integer key when the headers are decoded, the string functions refuse it under
  strict types, and the worker answers every such request with its error page, before any superglobal
  is set.
\<close>
theorem numeric_header_refused:
  assumes "decodeHeaders env f = Inr a" "fromFrame a (pf_payload f) = Inr r" "(KInt i, v) \<in> set (pq_headers r)"
  shows "handleRequest env h f g = (Inr (), concat (php_writeFrame (error_frame env TypeMismatch)), g)"
proof -
  have "toServerVars env r = Inl TypeMismatch" using server_headers_int [OF assms(3)] by (simp add: toServerVars_def)
  then show ?thesis using assms(1,2) by (simp add: handleRequest_def try_request_def populate_def rsp_send_error)
qed

text \<open>The frame of a request that has the header \<^verbatim>\<open>42: x\<close>.\<close>

definition numeric_request :: PhpFrame where
  "numeric_request = \<lparr>pf_type = 1, pf_flags = 0, pf_streamId = 0,
     pf_headers = projr (encode (PArr [(KStr ''headers'', PArr [(str_key ''42'', PStr ''x'')])])), pf_payload = ''''\<rparr>"

theorem numeric_header_refused_witness:
  "fst (snd (handleRequest plain_env echo_handler numeric_request no_globals)) =
     concat (php_writeFrame (error_frame plain_env TypeMismatch))"
proof -
  define hv where "hv = PArr [(KStr ''headers'', PArr [(KInt 42, PStr ''x'')])]"
  have k: "str_key ''42'' = KInt 42"
    by (simp add: str_key_def int_key_def is_digit_def read_nat_def digit_val_def in_int64_def Let_def)
  obtain e where e: "encode hv = Inr e" by (auto simp: hv_def array_is_list_def)
  have "php_ok hv" by (simp add: hv_def int_key_def is_digit_def in_int64_def Let_def)
  moreover have "php_fits hv" by (simp add: hv_def show_int_def show_nat_rec)
  ultimately have "decode (float_text plain_env) e = Inr hv" by (rule decode_of_encode [OF e])
  moreover have "truthy e" using e by (auto simp: hv_def array_is_list_def map_head_def truthy_def)
  ultimately have a: "decodeHeaders plain_env numeric_request = Inr [(KStr ''headers'', PArr [(KInt 42, PStr ''x'')])]"
    using e by (simp add: decodeHeaders_def numeric_request_def k hv_def)
  define r where "r = \<lparr>pq_method = ''GET'', pq_uri = ''/'', pq_queryString = '''', pq_headers = [(KInt 42, PStr ''x'')],
     pq_body = '''', pq_remoteAddr = '''', pq_serverName = '''', pq_serverPort = ''8080'', pq_protocol = ''HTTP/1.1''\<rparr>"
  have "fromFrame [(KStr ''headers'', PArr [(KInt 42, PStr ''x'')])] (pf_payload numeric_request) = Inr r"
    unfolding r_def by code_simp
  from numeric_header_refused [OF a this, of 42 "PStr ''x''" echo_handler no_globals] show ?thesis by (simp add: r_def)
qed

end
