(* ===== verification/PhpBridge.thy ===== *)
theory PhpBridge
  imports PhpSdk
begin

text \<open>
  The framework bridges of the SDK (\<^verbatim>\<open>php-sdk/src/Bridge\<close>): \<^verbatim>\<open>BridgeWorker\<close>, and the part that the
  Laravel, Symfony and PSR-7 bridges share, the conversion of the framework's response. The framework
  itself is a parameter: what its kernel returns or throws, and what terminating it and cleaning up
  after it throws.
\<close>

subsection \<open>The bridges\<close>

record FrameworkResponse =
  fw_status :: int
  fw_headers :: "(string \<times> string list) list"
  fw_cookies :: "string list"
  fw_content :: string

fun implode_with :: "string \<Rightarrow> string list \<Rightarrow> string" where
  "implode_with sep [] = ''''"
| "implode_with sep [s] = s"
| "implode_with sep (s # ss) = s @ sep @ implode_with sep ss"

definition copy_headers :: "FrameworkResponse \<Rightarrow> PhpResponse \<Rightarrow> PhpResponse" where
  "copy_headers fw p = fold (\<lambda>(name, values). rsp_header name (implode_with '', '' values)) (fw_headers fw) (rsp_status (fw_status fw) p)"

definition copy_cookies :: "FrameworkResponse \<Rightarrow> PhpResponse \<Rightarrow> PhpResponse" where
  "copy_cookies fw p = fold (rsp_header ''Set-Cookie'') (fw_cookies fw) p"

type_synonym framework = "php_globals \<Rightarrow> PhpRequest \<Rightarrow> php_throw + FrameworkResponse"

text \<open>\<^verbatim>\<open>Laravel::handle\<close> and \<^verbatim>\<open>Symfony::handle\<close>, and \<^verbatim>\<open>PSR7::handle\<close>, which has no cookies and no kernel to terminate.\<close>

definition kernel_handle :: "framework \<Rightarrow> (php_throw + unit) \<Rightarrow> php_handler" where
  "kernel_handle fwk terminated g r p =
     (case fwk g r of
        Inl e \<Rightarrow> (Inl e, p, '''', g)
      | Inr fw \<Rightarrow>
          (let p = rsp_body (fw_content fw) (copy_cookies fw (copy_headers fw p))
           in case rsp_send p of
                (Inl e, sent) \<Rightarrow> (Inl e, p, sent, g)
              | (Inr _, sent) \<Rightarrow> (terminated, p, sent, g)))"

definition psr_handle :: "framework \<Rightarrow> php_handler" where
  "psr_handle fwk g r p =
     (case fwk g r of
        Inl e \<Rightarrow> (Inl e, p, '''', g)
      | Inr fw \<Rightarrow>
          (let p = rsp_body (fw_content fw) (copy_headers fw p)
           in case rsp_send p of (res, sent) \<Rightarrow> (res, p, sent, g)))"

definition psr_cleanup :: "php_globals \<Rightarrow> (php_throw + unit) \<times> php_globals" where
  "psr_cleanup g = (Inr (), g\<lparr>g_GET := [], g_POST := [], g_REQUEST := [], g_COOKIE := [], g_FILES := [], g_SERVER := []\<rparr>)"

text \<open>The handler that \<^verbatim>\<open>BridgeWorker::run\<close> registers: the clean-up runs whether or not the bridge throws.\<close>

definition bridge_handler :: "php_handler \<Rightarrow> (php_globals \<Rightarrow> (php_throw + unit) \<times> php_globals) \<Rightarrow> php_handler" where
  "bridge_handler handle cleanup g r p =
     (case handle g r p of
        (res, p, out, g) \<Rightarrow>
          (case cleanup g of
             (Inl e, g) \<Rightarrow> (Inl e, p, out, g)
           | (Inr _, g) \<Rightarrow> (res, p, out, g)))"

text \<open>
  \<^verbatim>\<open>BridgeWorker::run\<close>: bootstrap, the worker's loop, and terminate, whatever the loop ended with;
  how it ends and what it has written.
\<close>

definition bridge_run :: "php_env \<Rightarrow> (php_throw + unit) \<Rightarrow> php_handler \<Rightarrow> (php_globals \<Rightarrow> (php_throw + unit) \<times> php_globals) \<Rightarrow>
    (php_throw + unit) \<Rightarrow> (nat \<Rightarrow> int) \<Rightarrow> PhpWorker \<Rightarrow> string list \<Rightarrow> (php_throw + unit) \<times> string" where
  "bridge_run env bootstrap handle cleanup terminate mem w stdin =
     (case bootstrap of
        Inl e \<Rightarrow> (Inl e, '''')
      | Inr _ \<Rightarrow>
          (case worker_run env (Some (bridge_handler handle cleanup)) mem w stdin of
             Inl e \<Rightarrow> (case terminate of Inl e' \<Rightarrow> (Inl e', '''') | Inr _ \<Rightarrow> (Inl e, ''''))
           | Inr out \<Rightarrow> (terminate, out)))"

subsection \<open>Responses made through the interface can be sent\<close>

definition str_headers :: "PhpResponse \<Rightarrow> bool" where
  "str_headers p \<longleftrightarrow> (\<forall>(k, v) \<in> set (ps_headers p). \<exists>s. v = PStr s)"

lemma seq_append_total: "\<forall>r \<in> set rs. \<exists>s. r = Inr s \<Longrightarrow> \<exists>e. seq_append x rs = Inr e"
  by (induction x rs rule: seq_append.induct) auto

lemma str_headers_simps [simp]:
  "str_headers new_Response" "str_headers p \<Longrightarrow> str_headers (rsp_status c p)"
  "str_headers p \<Longrightarrow> str_headers (rsp_body b p)" "str_headers p \<Longrightarrow> str_headers (rsp_header n v p)"
  by (auto simp: str_headers_def new_Response_def rsp_status_def rsp_body_def rsp_header_def dest!: array_set_elem)

lemma str_headers_copy [simp]:
  "str_headers p \<Longrightarrow> str_headers (copy_headers fw p)" "str_headers p \<Longrightarrow> str_headers (copy_cookies fw p)"
proof -
  have "str_headers q \<Longrightarrow> str_headers (fold (rsp_header n) cs q)" for n q cs
    by (induction cs arbitrary: q) auto
  then show "str_headers p \<Longrightarrow> str_headers (copy_cookies fw p)" by (simp add: copy_cookies_def)
  have "str_headers q \<Longrightarrow> str_headers (fold (\<lambda>(name, values). rsp_header name (implode_with '', '' values)) hs q)" for q hs
    by (induction hs arbitrary: q) auto
  then show "str_headers p \<Longrightarrow> str_headers (copy_headers fw p)" by (simp add: copy_headers_def)
qed

lemma str_headers_frame:
  assumes "str_headers p"
  obtains fr where "response_frame p = Inr fr" "pf_type fr = php_TYPE_RESPONSE" "pf_payload fr = ps_body p"
proof -
  have "\<exists>s. encode v = Inr s" if "(k, v) \<in> set (ps_headers p)" for k v using assms that by (auto simp: str_headers_def)
  then have "\<exists>e. encode (PArr (ps_headers p)) = Inr e" unfolding encode.simps by (auto intro!: seq_append_total)
  then show thesis using that by (auto simp: response_frame_def array_is_list_def)
qed

text \<open>The response that the Laravel and the Symfony bridge make of the framework's.\<close>

definition bridge_response :: "FrameworkResponse \<Rightarrow> PhpResponse" where
  "bridge_response fw = rsp_body (fw_content fw) (copy_cookies fw (copy_headers fw new_Response))"

lemma bridge_output_twice:
  assumes "decodeHeaders env f = Inr a" "fromFrame a (pf_payload f) = Inr r" "populate env r g = (Inr (), g1)"
    and "fwk g1 r = Inr fw" "cleanup g1 = (Inr (), g2)"
  obtains fr where "response_frame (bridge_response fw) = Inr fr" "pf_type fr = php_TYPE_RESPONSE" "pf_payload fr = fw_content fw"
    "handleRequest env (bridge_handler (kernel_handle fwk (Inr ())) cleanup) f g =
      (Inr (), concat (php_writeFrame fr) @ concat (php_writeFrame fr), g2)"
proof -
  have "str_headers (bridge_response fw)" by (simp add: bridge_response_def)
  then obtain fr where fr: "response_frame (bridge_response fw) = Inr fr" "pf_type fr = php_TYPE_RESPONSE"
    "pf_payload fr = ps_body (bridge_response fw)"
    by (rule str_headers_frame)
  have h: "bridge_handler (kernel_handle fwk (Inr ())) cleanup g1 r new_Response =
      (Inr (), bridge_response fw, concat (php_writeFrame fr), g2)"
    using assms(4,5) fr(1) by (simp add: bridge_handler_def kernel_handle_def bridge_response_def [symmetric] rsp_send_def)
  have "handleRequest env (bridge_handler (kernel_handle fwk (Inr ())) cleanup) f g =
      (Inr (), concat (php_writeFrame fr) @ concat (php_writeFrame fr), g2)"
    using assms(1-3) h fr(1) by (simp add: handleRequest_def try_request_def rsp_send_def)
  moreover have "ps_body (bridge_response fw) = fw_content fw" by (simp add: bridge_response_def rsp_body_def)
  ultimately show thesis using fr that by simp
qed

subsection \<open>Properties\<close>

text \<open>
  A worker behind the Laravel or the Symfony bridge answers every request twice. The bridge sends the
  response itself, and the worker sends the same response again when the handler returns: whenever the
  framework handles the request and the clean-up succeeds, the output for the request is two copies of
  one response frame.
\<close>
theorem bridge_answers_twice:
  assumes "decodeHeaders env f = Inr a" "fromFrame a (pf_payload f) = Inr r" "populate env r g = (Inr (), g1)"
    and "fwk g1 r = Inr fw" "cleanup g1 = (Inr (), g2)"
  shows "\<exists>fr. pf_type fr = php_TYPE_RESPONSE \<and> pf_payload fr = fw_content fw \<and>
    handleRequest env (bridge_handler (kernel_handle fwk (Inr ())) cleanup) f g =
      (Inr (), concat (php_writeFrame fr) @ concat (php_writeFrame fr), g2)"
  using bridge_output_twice [where fwk = fwk and cleanup = cleanup, OF assms] by blast

definition hello_framework :: framework where
  "hello_framework g r = Inr \<lparr>fw_status = 200, fw_headers = [], fw_cookies = [''a=1'', ''b=2''], fw_content = ''hello''\<rparr>"

theorem bridge_answers_twice_witness:
  "\<exists>fr g. pf_payload fr = ''hello'' \<and>
     handleRequest plain_env (bridge_handler (kernel_handle hello_framework (Inr ())) psr_cleanup)
       \<lparr>pf_type = 1, pf_flags = 0, pf_streamId = 0, pf_headers = '''', pf_payload = ''''\<rparr> no_globals =
       (Inr (), concat (php_writeFrame fr) @ concat (php_writeFrame fr), g)"
proof -
  let ?f = "\<lparr>pf_type = 1, pf_flags = 0, pf_streamId = 0, pf_headers = '''', pf_payload = ''''\<rparr>"
  have a: "decodeHeaders plain_env ?f = Inr []" by (simp add: decodeHeaders_def truthy_def)
  obtain r where r: "fromFrame [] (pf_payload ?f) = Inr r" "pq_headers r = []" "pq_method r = ''GET''"
    by (simp add: fromFrame_def str_field_def arr_field_def)
  obtain g1 where g1: "populate plain_env r no_globals = (Inr (), g1)"
    using r by (simp add: populate_def toServerVars_def server_copy_def req_header_def Let_def)
  obtain g2 where g2: "psr_cleanup g1 = (Inr (), g2)" by (simp add: psr_cleanup_def)
  from bridge_answers_twice [where fwk = hello_framework and cleanup = psr_cleanup, OF a r(1) g1 hello_framework_def g2] show ?thesis by auto
qed

text \<open>
  Of the cookies that a framework sets only the last one is sent: they all go to one header of the
  response, which holds one value.
\<close>

lemma copy_cookies_last:
  assumes "fw_cookies fw = cs @ [c]"
  shows "map_of (ps_headers (copy_cookies fw p)) (str_key ''Set-Cookie'') = Some (PStr c)"
  by (simp add: copy_cookies_def assms rsp_header_def map_of_array_set)

end
