(* ===== verification/PhpPool.thy ===== *)
theory PhpPool
  imports ExtPoolProps PhpBridge
begin

text \<open>
  The external pool with its worker processes running the PHP SDK: the Go side of \<open>ExtPool\<close> and the PHP
  side of \<open>PhpSdk\<close> put together. The pool's own theorems assume of a process only that it behaves as
  \<open>sdk_run\<close>; here the processes are the SDK's workers themselves.
\<close>

subsection \<open>Processes that run the SDK\<close>

text \<open>What such a process may have written for an input: a part of what its worker writes, whatever the
  chunks, the memory in use and the limits.\<close>

definition php_process :: "php_env \<Rightarrow> php_handler \<Rightarrow> byte list \<Rightarrow> byte list \<Rightarrow> bool" where
  "php_process env h inp out \<longleftrightarrow>
     (\<exists>stdin mem w full n. [] \<notin> set stdin \<and> bytes_of_string (concat stdin) = inp \<and>
        worker_run env (Some h) mem w stdin = Inr full \<and> out = bytes_of_string (take n full))"

lemma php_process_iff:
  assumes "writes_nothing h"
  shows "php_process env h inp out \<longleftrightarrow> sdk_behaves (go_answer env h) inp out"
proof
  assume "php_process env h inp out"
  then show "sdk_behaves (go_answer env h) inp out"
    unfolding php_process_def using worker_run_behaves [OF assms] by blast
next
  assume b: "sdk_behaves (go_answer env h) inp out"
  define stdin where "stdin = (if inp = [] then [] else [string_of_bytes inp])"
  have s: "bytes_of_string (concat stdin) = inp" "[] \<notin> set stdin"
    by (simp add: stdin_def) (simp add: stdin_def string_of_bytes_def)
  obtain full where full: "worker_run env (Some h) (\<lambda>_. 5) fresh_worker stdin = Inr full" by (simp add: worker_run_def)
  then have "bytes_of_string full = bytes (sdk_run (go_answer env h) (frames_of inp))"
    using worker_run_all [OF assms s(2) _ _ full] s(1) by (simp add: fresh_worker_def)
  then have "out = bytes_of_string (take (length out) full)"
    using b by (auto simp: sdk_behaves_def prefix_def bytes_of_string_take)
  then show "php_process env h inp out" unfolding php_process_def using s full by blast
qed

lemma php_xstep:
  assumes "writes_nothing h"
  shows "xstep order (php_process env h) A = xstep order (sdk_behaves (go_answer env h)) A"
proof -
  have "php_process env h = sdk_behaves (go_answer env h)" by (intro ext) (rule php_process_iff [OF assms])
  then show ?thesis by simp
qed

lemma php_pool_response:
  assumes "writes_nothing h" "\<forall>q. frame_fits (go_answer env h q)"
    and "reachable (xinit cfg php) (xstep order (php_process env h) xcalls) s"
    and "XExec req (EEnd (Resp f)) \<in> set (xy_tasks s)"
  shows "f = go_answer env h req"
proof -
  have "task_ok (go_answer env h) (xy_pool s) (XExec req (EEnd (Resp f)))"
    using serve_reachable [OF assms(2,3) [unfolded php_xstep [OF assms(1)]]] assms(4) unfolding serve_inv_def by blast
  then show ?thesis by simp
qed

subsection \<open>Properties\<close>

text \<open>
  End to end through the external pool. When the pool's processes run the SDK with a handler that
  writes nothing itself, every response that \<open>Exec\<close> returns is the frame the SDK makes of the handler's
  response to that very request, or of its exception, in every interleaving of requests, timeouts,
  crashes, recycling, scaling, reloads and shutdowns, and whatever the limits of the workers.
\<close>
theorem php_pool_serves_application:
  assumes "writes_nothing h" "\<forall>q. frame_fits (go_answer env h q)"
    and "reachable (xinit cfg php) (xstep order (php_process env h) xcalls) s"
    and "XExec req (EEnd (Resp f)) \<in> set (xy_tasks s)"
  shows "f = go_frame (sdk_reply env h (php_frame req))"
  using php_pool_response [OF assms] by (simp add: go_answer_def)

text \<open>A handler that returns the first byte of the body, and the answer it gives to a bare request.\<close>

definition byte_handler :: php_handler where
  "byte_handler g r p = (Inr (), rsp_body (take 1 (pq_body r)) p, '''', g)"

definition byte_headers :: string where
  "byte_headers = projr (encode (PArr [(KStr ''status'', PInt 200),
     (KStr ''headers'', PArr [(KStr ''Content-Type'', PStr ''text/html; charset=UTF-8'')])]))"

definition byte_answer :: "Frame \<Rightarrow> Frame" where
  "byte_answer q = \<lparr>fr_Type = TypeResponse, fr_Flags = 0, fr_StreamID = 0, fr_Headers = bytes_of_string byte_headers,
     fr_Payload = take 1 (fr_Payload q)\<rparr>"

lemma byte_reply:
  assumes "fr_Headers q = []"
  shows "go_answer plain_env byte_handler q = byte_answer q"
proof -
  have "response_frame (rsp_body b new_Response) =
      Inr \<lparr>pf_type = 2, pf_flags = 0, pf_streamId = 0, pf_headers = byte_headers, pf_payload = b\<rparr>" for b
    by (simp add: response_frame_def rsp_body_def new_Response_def byte_headers_def array_is_list_def php_type_defs)
  then show ?thesis
    using assms
    by (simp add: go_answer_def sdk_reply_def php_frame_def decodeHeaders_def truthy_def fromFrame_def str_field_def
        arr_field_def string_of_bytes_def populate_def toServerVars_def server_copy_def req_header_def Let_def
        byte_handler_def go_frame_def byte_answer_def frame_type_defs bytes_of_string_take)
       (simp flip: string_of_bytes_def)
qed

lemma byte_frames_fit: "\<forall>q. frame_fits (go_answer plain_env byte_handler q)"
proof
  fix q
  have e: "error_frame plain_env e = error_frame plain_env TypeMismatch" for e
    by (simp add: error_frame_def error_response_def plain_env_def)
  have "length (pf_headers (error_frame plain_env TypeMismatch)) \<le> 100 \<and> length (pf_payload (error_frame plain_env TypeMismatch)) \<le> 100"
    by code_simp
  then have err: "frame_fits (go_frame (error_frame plain_env e))" for e
    unfolding e [of e] by (simp add: frame_fits_def go_frame_def)
  have "response_frame (rsp_body b new_Response) =
      Inr \<lparr>pf_type = 2, pf_flags = 0, pf_streamId = 0, pf_headers = byte_headers, pf_payload = b\<rparr>" for b
    by (simp add: response_frame_def rsp_body_def new_Response_def byte_headers_def array_is_list_def php_type_defs)
  moreover have "length byte_headers \<le> 100" by code_simp
  ultimately have ok: "response_frame (rsp_body (take 1 b) new_Response) = Inr fr \<Longrightarrow> frame_fits (go_frame fr)" for b fr
    by (auto simp: frame_fits_def go_frame_def)
  show "frame_fits (go_answer plain_env byte_handler q)"
    unfolding go_answer_def sdk_reply_def
    by (auto simp: err byte_handler_def dest: ok [unfolded One_nat_def] split: sum.splits prod.splits)
qed

text \<open>A pool that serves one request.\<close>

definition byte_process :: "byte list \<Rightarrow> byte list \<Rightarrow> bool" where
  "byte_process inp out \<longleftrightarrow> list_all (\<lambda>f. fr_Headers f = []) (frames_of inp) \<and> sdk_behaves byte_answer inp out"

definition php_served :: "xmove list" where
  "php_served = ext_boot @ [XCall (XExec (ext_req 7) EEnter)] @ go 4 2 @ go 3 3 @
     [XEmit 0 [byte_answer (ext_req 7), sdk_ready]] @ go 5 3 @ go 5 2"

lemma sdk_loop_cong: "\<forall>f \<in> set fs. answer f = answer' f \<Longrightarrow> sdk_loop answer fs = sdk_loop answer' fs"
  by (induction fs) auto

lemma byte_process_php: "byte_process inp out \<Longrightarrow> php_process plain_env byte_handler inp out"
proof -
  assume b: "byte_process inp out"
  have "sdk_loop byte_answer (frames_of inp) = sdk_loop (go_answer plain_env byte_handler) (frames_of inp)"
    using b byte_reply by (intro sdk_loop_cong) (auto simp: byte_process_def list_all_iff)
  then have "sdk_behaves (go_answer plain_env byte_handler) inp out"
    using b by (simp add: byte_process_def sdk_behaves_def sdk_run_def)
  then show ?thesis by (subst php_process_iff) (auto simp: writes_nothing_def byte_handler_def)
qed

theorem php_pool_serves_application_witness:
  "\<exists>s f. xrun_moves byte_process php_served ext_start = Some s \<and> XExec (ext_req 7) (EEnd (Resp f)) \<in> set (xy_tasks s) \<and>
     f = go_frame (sdk_reply plain_env byte_handler (php_frame (ext_req 7)))"
proof -
  have "map_option (\<lambda>s. (xy_tasks s ! 2, length (xy_tasks s))) (xrun_moves byte_process php_served ext_start) =
      Some (XExec (ext_req 7) (EEnd (Resp (byte_answer (ext_req 7)))), 4)"
    by code_simp
  then obtain s where s: "xrun_moves byte_process php_served ext_start = Some s" "length (xy_tasks s) = 4"
    "xy_tasks s ! 2 = XExec (ext_req 7) (EEnd (Resp (byte_answer (ext_req 7))))" by auto
  have "reachable (xinit ext_cfg ext_php) (xstep (\<lambda>ks. ks) byte_process xcalls) s"
    by (rule ext_reachable [OF s(1)]) (auto simp: php_served_def ext_boot_def go_def ext_calls)
  then have "reachable (xinit ext_cfg ext_php) (xstep (\<lambda>ks. ks) (php_process plain_env byte_handler) xcalls) s"
    by (rule reachable_mono [rotated]) (auto elim!: xstep.cases intro: xstep.intros byte_process_php)
  moreover have "writes_nothing byte_handler" by (simp add: writes_nothing_def byte_handler_def)
  moreover have mem: "XExec (ext_req 7) (EEnd (Resp (byte_answer (ext_req 7)))) \<in> set (xy_tasks s)"
    using s nth_mem [of 2 "xy_tasks s"] by simp
  ultimately show ?thesis using php_pool_serves_application [OF _ byte_frames_fit] s(1) by blast
qed

text \<open>
  C38: Behind a bridge the worker is thrown away after every request. When the process has written its
  output for the request, \<open>Exec\<close> reads the first of the two responses and then waits for the ready
  frame; what it reads is the second response, so it returns the answer and starts the replacement of
  a healthy worker.
\<close>
theorem bridge_worker_replaced:
  assumes "decodeHeaders env f = Inr a" "fromFrame a (pf_payload f) = Inr r" "populate env r g = (Inr (), g1)"
    and "fwk g1 r = Inr fw" "cleanup g1 = (Inr (), g2)"
    and "handleRequest env (bridge_handler (kernel_handle fwk (Inr ())) cleanup) f g = (Inr (), out, g')"
    and "frame_fits (go_frame (projr (response_frame (bridge_response fw))))"
    and "recv_frame q = Some (Inr resp, xproc p w)" "unread q = bytes_of_string (out @ sendReady)" "\<not> pr_waited q"
    and "pr_pos q \<le> length (pr_out q)"
  shows "fr_Payload resp = bytes_of_string (fw_content fw) \<and>
    (\<exists>p'. XPool_Exec ch req (EReady w resp) p = Some (p', XExec req (ELeave (Resp resp)), [XRepl (QStop w KState)]))"
proof -
  obtain fr where fr: "response_frame (bridge_response fw) = Inr fr" "pf_type fr = php_TYPE_RESPONSE" "pf_payload fr = fw_content fw"
    "out = concat (php_writeFrame fr) @ concat (php_writeFrame fr)"
    using bridge_output_twice [where fwk = fwk and cleanup = cleanup, OF assms(1-5)] assms(6) by (metis Pair_inject)
  define gf where "gf = go_frame fr"
  have fits: "frame_fits gf" using assms(7) fr(1) by (simp add: gf_def)
  have u: "unread q = frame_bytes gf @ frame_bytes gf @ frame_bytes sdk_ready"
    using assms(9) by (simp add: fr(4) php_writeFrame_bytes sendReady_bytes gf_def)
  have x: "frame_fits resp" "xproc p w = q\<lparr>pr_pos := pr_pos q + length (frame_bytes resp)\<rparr>"
    "pr_out q = take (pr_pos q) (pr_out q) @ frame_bytes resp @ drop (pr_pos (xproc p w)) (pr_out q)"
    using recv_frame_InrD [OF assms(8,11)] by blast+
  have "frame_bytes resp @ drop (pr_pos (xproc p w)) (pr_out q) = unread q"
    using x(3) assms(11) unfolding unread_def by (metis append_eq_conv_conj length_take min.absorb2)
  then have e: "resp = gf" "drop (pr_pos (xproc p w)) (pr_out q) = frame_bytes gf @ frame_bytes sdk_ready"
    using frame_bytes_inj [OF x(1) fits] u by metis+
  then have "unread (xproc p w) = frame_bytes gf @ frame_bytes sdk_ready"
    using x(2) by (simp add: unread_def)
  moreover have "fr_Type gf = TypeResponse" by (simp add: gf_def go_frame_def fr(2) php_type_defs frame_type_defs)
  moreover have "\<not> pr_waited (xproc p w)" using x(2) assms(10) by simp
  ultimately have "\<exists>q'. recv_frame (xproc p w) = Some (Inr gf, q') \<and> fr_Type gf \<noteq> TypeWorkerReady"
    using ReadFrame_fits [OF fits] by (simp add: recv_frame_def frame_type_defs)
  then show ?thesis using e(1) by (auto simp: Let_def gf_def go_frame_def fr(3))
qed

text \<open>A worker behind a bridge that answers a request with two cookies.\<close>

definition bare_frame :: PhpFrame where
  "bare_frame = \<lparr>pf_type = 1, pf_flags = 0, pf_streamId = 0, pf_headers = '''', pf_payload = ''''\<rparr>"

theorem bridge_worker_replaced_witness:
  "\<exists>p resp p'. fr_Payload resp = bytes_of_string ''hello'' \<and>
     XPool_Exec Ready (ext_req 7) (EReady 0 resp) p = Some (p', XExec (ext_req 7) (ELeave (Resp resp)), [XRepl (QStop 0 KState)])"
proof -
  define fw where "fw = \<lparr>fw_status = 200, fw_headers = [], fw_cookies = [''a=1'', ''b=2''], fw_content = ''hello''\<rparr>"
  have a: "decodeHeaders plain_env bare_frame = Inr []" by (simp add: decodeHeaders_def truthy_def bare_frame_def)
  obtain r where r: "fromFrame [] (pf_payload bare_frame) = Inr r" "pq_headers r = []" "pq_method r = ''GET''"
    by (simp add: fromFrame_def str_field_def arr_field_def)
  obtain g1 where g1: "populate plain_env r no_globals = (Inr (), g1)"
    using r by (simp add: populate_def toServerVars_def server_copy_def req_header_def Let_def)
  obtain g2 where g2: "psr_cleanup g1 = (Inr (), g2)" by (simp add: psr_cleanup_def)
  have k: "hello_framework g1 r = Inr fw" by (simp add: hello_framework_def fw_def)
  obtain fr where fr: "response_frame (bridge_response fw) = Inr fr"
    "handleRequest plain_env (bridge_handler (kernel_handle hello_framework (Inr ())) psr_cleanup) bare_frame no_globals =
      (Inr (), concat (php_writeFrame fr) @ concat (php_writeFrame fr), g2)"
    using bridge_output_twice [where fwk = hello_framework and cleanup = psr_cleanup, OF a r(1) g1 k g2] by metis
  have "length (pf_headers (projr (response_frame (bridge_response fw)))) \<le> 100 \<and>
      length (pf_payload (projr (response_frame (bridge_response fw)))) \<le> 100" unfolding fw_def by code_simp
  then have fits: "frame_fits (go_frame fr)" by (simp add: frame_fits_def go_frame_def fr(1))
  define q where "q = (start_process [])\<lparr>pr_out := bytes_of_string ((concat (php_writeFrame fr) @ concat (php_writeFrame fr)) @ sendReady)\<rparr>"
  have u: "unread q = bytes_of_string ((concat (php_writeFrame fr) @ concat (php_writeFrame fr)) @ sendReady)"
    by (simp add: q_def unread_def start_process_def)
  then have "ReadFrame (unread q) = (Inr (go_frame fr), frame_bytes (go_frame fr) @ frame_bytes sdk_ready)"
    using ReadFrame_fits [OF fits] by (simp add: php_writeFrame_bytes sendReady_bytes)
  then obtain q' where rv: "recv_frame q = Some (Inr (go_frame fr), q')"
    by (simp add: recv_frame_def q_def start_process_def)
  define p where "p = (XPool_New ext_cfg ext_php)\<lparr>xp_heap := [(new_XWorker 0 [])\<lparr>xw_proc := q'\<rparr>]\<rparr>"
  have "xproc p 0 = q'" by (simp add: p_def xproc_def xworker_def)
  with rv have "recv_frame q = Some (Inr (go_frame fr), xproc p 0)" by simp
  from bridge_worker_replaced [where fwk = hello_framework and cleanup = psr_cleanup, OF a r(1) g1 k g2 fr(2) _ this u, of Ready "ext_req 7"]
  show ?thesis using fits fr(1) by (auto simp: q_def start_process_def fw_def)
qed

end
