(* ===== verification/GoMsgpack.thy ===== *)
theory GoMsgpack
  imports PhpMsgpack Messages
begin

text \<open>
  The headers of the messages on the wire. The msgpack library of the Go side is not part of the
  repository; what it is relied on for is the MessagePack format of the header structures, with the
  names of their tags (\<^verbatim>\<open>internal/protocol/request.go\<close>, \<^verbatim>\<open>response.go\<close>, \<^verbatim>\<open>stream.go\<close>). The SDK's decoder
  reads this format.
\<close>

subsection \<open>The format of the headers\<close>

text \<open>A map from strings to encoded values, and the three structures.\<close>

definition msgpack_map :: "(string \<times> string) list \<Rightarrow> string" where
  "msgpack_map kes = map_head (int (length kes)) @ concat (map (\<lambda>(k, e). encodeString k @ e) kes)"

definition string_map :: "(string \<times> string) list \<Rightarrow> string" where
  "string_map kvs = msgpack_map (map (\<lambda>(k, v). (k, encodeString v)) kvs)"

definition request_bytes :: "(string \<times> string) list \<Rightarrow> RequestHeader \<Rightarrow> string" where
  "request_bytes hs q =
     msgpack_map
       [(''method'', encodeString (rq_Method q)), (''uri'', encodeString (rq_URI q)),
        (''query_string'', encodeString (rq_QueryString q)), (''headers'', string_map hs),
        (''remote_addr'', encodeString (rq_RemoteAddr q)), (''server_name'', encodeString (rq_ServerName q)),
        (''server_port'', encodeString (rq_ServerPort q)), (''protocol'', encodeString (rq_Protocol q))]"

definition response_bytes :: "int \<Rightarrow> (string \<times> string) list \<Rightarrow> string" where
  "response_bytes code hs = msgpack_map [(''status'', encodeInt code), (''headers'', string_map hs)]"

definition stream_bytes :: "StreamHeader \<Rightarrow> string" where
  "stream_bytes h =
     msgpack_map [(''conn_id'', encodeString (sh_ConnectionID h)), (''event'', encodeString (sh_Event h)), (''room'', encodeString (sh_Room h))]"

text \<open>What the library promises: a request is written as the map of its fields, the headers in some
  order; a response in that format is read into its structure; a stream header is always written.\<close>

definition writes_requests :: "(RequestHeader, 'e) marshaller \<Rightarrow> bool" where
  "writes_requests marshal \<longleftrightarrow>
     (\<forall>q b. marshal q = Inr b \<longrightarrow>
        (\<exists>hs. distinct (map fst hs) \<and> map_of hs = rq_Headers q \<and> b = bytes_of_string (request_bytes hs q)))"

definition reads_responses :: "(ResponseHeader, 'u) unmarshaller \<Rightarrow> bool" where
  "reads_responses unmarshal \<longleftrightarrow>
     (\<forall>code hs. in_int64 code \<and> distinct (map fst hs) \<and> length (response_bytes code hs) < 2 ^ 24 \<longrightarrow>
        unmarshal (bytes_of_string (response_bytes code hs)) = Inr \<lparr>rs_Status = code, rs_Headers = map_of hs\<rparr>)"

definition writes_streams :: "(StreamHeader, 'e) marshaller \<Rightarrow> bool" where
  "writes_streams marshal \<longleftrightarrow> (\<forall>h. marshal h = Inr (bytes_of_string (stream_bytes h)))"

lemma length_encodeString: "length t < length (encodeString t)"
  by (simp add: encodeString_def Let_def)

lemma msgpack_map_length:
  "length kes \<le> length (msgpack_map kes)"
  "(k, e) \<in> set kes \<Longrightarrow> length k \<le> length (msgpack_map kes) \<and> length e \<le> length (msgpack_map kes)"
proof -
  have "length kes \<le> length (concat (map (\<lambda>(k, e). encodeString k @ e) kes))"
  proof (induction kes)
    case (Cons p kes)
    then show ?case using length_encodeString [of "fst p"] by (cases p) simp
  qed simp
  then show "length kes \<le> length (msgpack_map kes)" by (simp add: msgpack_map_def)
  assume "(k, e) \<in> set kes"
  then have "length (encodeString k @ e) \<le> length (concat (map (\<lambda>(k, e). encodeString k @ e) kes))"
    by (intro length_concat_mem) force
  then show "length k \<le> length (msgpack_map kes) \<and> length e \<le> length (msgpack_map kes)"
    using length_encodeString [of k] by (simp add: msgpack_map_def)
qed

text \<open>The SDK's decoder on such a map.\<close>

lemma decode_msgpack_map:
  assumes "list_all2 (\<lambda>(k, e) (k', v). k' = str_key k \<and> (\<forall>s. decodeValue fstr n (e @ s) = Some (Inr v, s))) kes a"
    and "distinct (map fst kes)" "length (msgpack_map kes) < 2 ^ 32" "0 < n"
  shows "decodeValue fstr (Suc n) (msgpack_map kes @ s) = Some (Inr (PArr a), s)"
proof -
  obtain m where n: "n = Suc m" using assms(4) by (cases n) auto
  have len: "length a = length kes" using assms(1) by (simp add: list_all2_lengthD)
  have "list_all2 (\<lambda>p (k, v). \<exists>ek ev. p = ek @ ev \<and> key_ok k \<and>
      (\<forall>s. decodeValue fstr n (ek @ s) = Some (Inr (PStr (key_str k)), s)) \<and>
      (\<forall>s. decodeValue fstr n (ev @ s) = Some (Inr v, s))) (map (\<lambda>(k, e). encodeString k @ e) kes) a"
    unfolding list.rel_map
  proof (rule list.rel_mono_strong [OF assms(1)], clarify)
    fix k e v
    assume m: "(k, e) \<in> set kes" and v: "\<forall>s. decodeValue fstr n (e @ s) = Some (Inr v, s)"
    have "length k < 2 ^ 32" using msgpack_map_length(2) [OF m] assms(3) by simp
    then show "\<exists>ek ev. encodeString k @ e = ek @ ev \<and> key_ok (str_key k) \<and>
        (\<forall>s. decodeValue fstr n (ek @ s) = Some (Inr (PStr (key_str (str_key k))), s)) \<and>
        (\<forall>s. decodeValue fstr n (ev @ s) = Some (Inr v, s))"
      using v decode_string [of k fstr m] by (intro exI [of _ "encodeString k"] exI [of _ e]) (simp add: n)
  qed
  moreover have "map fst a = map str_key (map fst kes)"
    using assms(1) by (induction rule: list_all2_induct) auto
  then have "distinct (map fst ([] @ a))"
    using assms(2) distinct_map [of str_key "map fst kes"] by (auto intro!: inj_onI dest: arg_cong [of _ _ key_str])
  ultimately have "decodeMapItems fstr (decodeValue fstr n) (length a) [] (concat (map (\<lambda>(k, e). encodeString k @ e) kes) @ s) =
      Some (Inr (PArr ([] @ a)), s)" by (rule decodeMapItems_map)
  moreover have "int (length kes) < 2 ^ 32" using msgpack_map_length(1) [of kes] assms(3) by simp
  ultimately show ?thesis
    using decode_heads(2) [of "int (length kes)" fstr n] by (simp add: msgpack_map_def len)
qed

lemma decode_string_map:
  assumes "distinct (map fst hs)" "length (string_map hs) < 2 ^ 32"
  shows "decodeValue fstr (Suc (Suc n)) (string_map hs @ s) = Some (Inr (PArr (map (\<lambda>(k, v). (str_key k, PStr v)) hs)), s)"
  unfolding string_map_def
proof (rule decode_msgpack_map)
  have "length v < 2 ^ 32" if "(k, v) \<in> set hs" for k v
  proof -
    have "(k, encodeString v) \<in> set (map (\<lambda>(k, v). (k, encodeString v)) hs)" using that by force
    then have "length (encodeString v) < 2 ^ 32"
      using msgpack_map_length(2) [of k "encodeString v"] assms(2) unfolding string_map_def by fastforce
    then show ?thesis using length_encodeString [of v] by linarith
  qed
  then show "list_all2 (\<lambda>(k, e) (k', v). k' = str_key k \<and> (\<forall>s. decodeValue fstr (Suc n) (e @ s) = Some (Inr v, s)))
      (map (\<lambda>(k, v). (k, encodeString v)) hs) (map (\<lambda>(k, v). (str_key k, PStr v)) hs)"
    by (auto simp: list.rel_map intro!: list.rel_refl_strong decode_string)
  show "distinct (map fst (map (\<lambda>(k, v). (k, encodeString v)) hs))" using assms(1) by (simp add: comp_def split_beta)
  show "length (msgpack_map (map (\<lambda>(k, v). (k, encodeString v)) hs)) < 2 ^ 32" using assms(2) by (simp add: string_map_def)
qed simp

text \<open>The request as PHP decodes it.\<close>

definition request_array :: "(string \<times> string) list \<Rightarrow> RequestHeader \<Rightarrow> (pkey \<times> phpval) list" where
  "request_array hs q =
     [(KStr ''method'', PStr (rq_Method q)), (KStr ''uri'', PStr (rq_URI q)), (KStr ''query_string'', PStr (rq_QueryString q)),
      (KStr ''headers'', PArr (map (\<lambda>(k, v). (str_key k, PStr v)) hs)),
      (KStr ''remote_addr'', PStr (rq_RemoteAddr q)), (KStr ''server_name'', PStr (rq_ServerName q)),
      (KStr ''server_port'', PStr (rq_ServerPort q)), (KStr ''protocol'', PStr (rq_Protocol q))]"

lemma str_key_alpha: "s \<noteq> [] \<Longrightarrow> \<not> is_digit (hd s) \<Longrightarrow> hd s \<noteq> CHR ''-'' \<Longrightarrow> str_key s = KStr s"
  by (cases s) (auto simp: str_key_def int_key_def Let_def)

lemma decode_request:
  assumes "distinct (map fst hs)" "length (request_bytes hs q) < 2 ^ 24"
  shows "decode fstr (request_bytes hs q) = Inr (PArr (request_array hs q))"
proof -
  define kes where "kes = [(''method'', encodeString (rq_Method q)), (''uri'', encodeString (rq_URI q)),
        (''query_string'', encodeString (rq_QueryString q)), (''headers'', string_map hs),
        (''remote_addr'', encodeString (rq_RemoteAddr q)), (''server_name'', encodeString (rq_ServerName q)),
        (''server_port'', encodeString (rq_ServerPort q)), (''protocol'', encodeString (rq_Protocol q))]"
  have b: "request_bytes hs q = msgpack_map kes" by (simp add: request_bytes_def kes_def)
  have len: "length (msgpack_map kes) < 2 ^ 32" using assms(2) unfolding b by simp
  have fit: "length e < 2 ^ 32" if "(k, e) \<in> set kes" for k e using msgpack_map_length(2) [OF that] len by linarith
  have str: "length t < 2 ^ 32" if "(k, encodeString t) \<in> set kes" for k t
    using fit [OF that] length_encodeString [of t] by linarith
  obtain n where n: "length (msgpack_map kes) = Suc (Suc n)"
    using msgpack_map_length(1) [of kes] by (cases "length (msgpack_map kes)"; cases "length (msgpack_map kes) - 1") (auto simp: kes_def)
  have "(''method'', encodeString (rq_Method q)) \<in> set kes" "(''uri'', encodeString (rq_URI q)) \<in> set kes"
    "(''query_string'', encodeString (rq_QueryString q)) \<in> set kes" "(''remote_addr'', encodeString (rq_RemoteAddr q)) \<in> set kes"
    "(''server_name'', encodeString (rq_ServerName q)) \<in> set kes" "(''server_port'', encodeString (rq_ServerPort q)) \<in> set kes"
    "(''protocol'', encodeString (rq_Protocol q)) \<in> set kes" and h: "(''headers'', string_map hs) \<in> set kes"
    by (simp_all add: kes_def)
  note dec = this(1-7) [THEN str, THEN decode_string] decode_string_map [OF assms(1) fit [OF h]]
  have "list_all2 (\<lambda>(k, e) (k', v). k' = str_key k \<and> (\<forall>s. decodeValue fstr (Suc (Suc n)) (e @ s) = Some (Inr v, s))) kes (request_array hs q)"
    unfolding kes_def by (simp add: dec request_array_def str_key_alpha is_digit_def)
  moreover have "distinct (map fst kes)" by (simp add: kes_def)
  ultimately have "decodeValue fstr (Suc (Suc (Suc n))) (msgpack_map kes @ []) = Some (Inr (PArr (request_array hs q)), [])"
    using len by (intro decode_msgpack_map) auto
  then show ?thesis by (simp add: decode_def b n)
qed

lemma decode_response:
  assumes "in_int64 code" "distinct (map fst hs)" "length (response_bytes code hs) < 2 ^ 24"
  shows "decode fstr (response_bytes code hs) =
    Inr (PArr [(KStr ''status'', PInt code), (KStr ''headers'', PArr (map (\<lambda>(k, v). (str_key k, PStr v)) hs))])"
proof -
  define kes where "kes = [(''status'', encodeInt code), (''headers'', string_map hs)]"
  have b: "response_bytes code hs = msgpack_map kes" by (simp add: response_bytes_def kes_def)
  have len: "length (msgpack_map kes) < 2 ^ 32" using assms(3) unfolding b by simp
  have "length (string_map hs) < 2 ^ 32" using msgpack_map_length(2) [of "''headers''" "string_map hs" kes] len by (simp add: kes_def)
  note h = decode_string_map [OF assms(2) this]
  obtain n where n: "length (msgpack_map kes) = Suc (Suc n)"
    using msgpack_map_length(1) [of kes] by (cases "length (msgpack_map kes)"; cases "length (msgpack_map kes) - 1") (auto simp: kes_def)
  have "decodeValue fstr (Suc (Suc (Suc n))) (msgpack_map kes @ []) =
      Some (Inr (PArr [(KStr ''status'', PInt code), (KStr ''headers'', PArr (map (\<lambda>(k, v). (str_key k, PStr v)) hs))]), [])"
    using h decode_int [OF assms(1)] len
    by (intro decode_msgpack_map) (auto simp: kes_def str_key_alpha is_digit_def)
  then show ?thesis by (simp add: decode_def b n)
qed

lemma decode_stream:
  assumes "length (stream_bytes h) < 2 ^ 24"
  shows "decode fstr (stream_bytes h) =
    Inr (PArr [(KStr ''conn_id'', PStr (sh_ConnectionID h)), (KStr ''event'', PStr (sh_Event h)), (KStr ''room'', PStr (sh_Room h))])"
proof -
  define kes where "kes = [(''conn_id'', encodeString (sh_ConnectionID h)), (''event'', encodeString (sh_Event h)), (''room'', encodeString (sh_Room h))]"
  have b: "stream_bytes h = msgpack_map kes" by (simp add: stream_bytes_def kes_def)
  have len: "length (msgpack_map kes) < 2 ^ 32" using assms unfolding b by simp
  have str: "length t < 2 ^ 32" if "(k, encodeString t) \<in> set kes" for k t
    using msgpack_map_length(2) [OF that] length_encodeString [of t] len by linarith
  have "(''conn_id'', encodeString (sh_ConnectionID h)) \<in> set kes" "(''event'', encodeString (sh_Event h)) \<in> set kes"
    "(''room'', encodeString (sh_Room h)) \<in> set kes" by (simp_all add: kes_def)
  note dec = this [THEN str, THEN decode_string]
  obtain n where n: "length (msgpack_map kes) = Suc n"
    using msgpack_map_length(1) [of kes] by (cases "length (msgpack_map kes)") (auto simp: kes_def)
  have "decodeValue fstr (Suc (Suc n)) (msgpack_map kes @ []) =
      Some (Inr (PArr [(KStr ''conn_id'', PStr (sh_ConnectionID h)), (KStr ''event'', PStr (sh_Event h)), (KStr ''room'', PStr (sh_Room h))]), [])"
    using len unfolding kes_def by (intro decode_msgpack_map) (simp_all add: dec str_key_alpha is_digit_def)
  then show ?thesis by (simp add: decode_def b n)
qed

end
