(* ===== verification/PhpExchange.thy ===== *)
theory PhpExchange
  imports PhpPool GoMsgpack
begin

text \<open>
  A request and its response through the whole external path: \<^verbatim>\<open>EncodeRequest\<close> on the Go side, the
  pool, the PHP worker with its handler, and \<^verbatim>\<open>DecodeResponse\<close>.
\<close>

subsection \<open>The request in PHP\<close>

text \<open>The same request on both sides.\<close>

definition same_request :: "RequestHeader \<Rightarrow> byte list \<Rightarrow> PhpRequest \<Rightarrow> bool" where
  "same_request q body r \<longleftrightarrow>
     pq_method r = rq_Method q \<and> pq_uri r = rq_URI q \<and> pq_queryString r = rq_QueryString q \<and>
     pq_remoteAddr r = rq_RemoteAddr q \<and> pq_serverName r = rq_ServerName q \<and> pq_serverPort r = rq_ServerPort q \<and>
     pq_protocol r = rq_Protocol q \<and> bytes_of_string (pq_body r) = body \<and>
     (\<forall>k. map_of (pq_headers r) (KStr k) = map_option PStr (rq_Headers q k)) \<and>
     (\<forall>(k, v) \<in> set (pq_headers r). \<exists>n s. k = KStr n \<and> v = PStr s)"

lemma map_of_str_keys:
  "\<forall>k \<in> fst ` set hs. str_key k = KStr k \<Longrightarrow>
   map_of (map (\<lambda>(k, v). (str_key k, f v)) hs) (KStr k) = map_option f (map_of hs k)"
  by (induction hs) auto

lemma fromFrame_request:
  assumes "map_of hs = rq_Headers q" "\<forall>k \<in> dom (rq_Headers q). int_key k = None"
  shows "\<exists>r. fromFrame (request_array hs q) (string_of_bytes body) = Inr r \<and> same_request q body r"
proof -
  have keys: "str_key k = KStr k" if "(k, v) \<in> set hs" for k v
    using that assms by (auto simp: str_key_def split: option.splits) (metis domIff option.discI weak_map_of_SomeI)
  have "map_of (map (\<lambda>(k, v). (str_key k, PStr v)) hs) (KStr k) = map_option PStr (map_of hs k)" for k
    by (rule map_of_str_keys) (use keys in auto)
  then show ?thesis
    using keys
    by (simp add: fromFrame_def str_field_def arr_field_def request_array_def same_request_def assms(1) [symmetric]) fastforce
qed

lemma find_header_total:
  "\<forall>(k, v) \<in> set hs. \<exists>n s. k = KStr n \<and> v = PStr s \<Longrightarrow> \<exists>s. find_header name dflt hs = Inr s"
  by (induction name dflt hs rule: find_header.induct) auto

lemma server_headers_total:
  "\<forall>(k, v) \<in> set hs. \<exists>n s. k = KStr n \<and> v = PStr s \<Longrightarrow> \<exists>a. server_headers server hs = Inr a"
  by (induction server hs rule: server_headers.induct) auto

lemma populate_total:
  assumes "\<forall>(k, v) \<in> set (pq_headers r). \<exists>n s. k = KStr n \<and> v = PStr s"
  shows "fst (populate env r g) = Inr ()"
proof -
  have h: "\<exists>s. req_header r name = Inr s" for name using find_header_total [OF assms] by (simp add: req_header_def)
  obtain a where "server_headers (server_base env r) (pq_headers r) = Inr a" using server_headers_total [OF assms] by blast
  then have "\<exists>a. toServerVars env r = Inr a"
    using h [of "''content-type''"] h [of "''content-length''"] by (auto simp: toServerVars_def server_copy_def)
  then show ?thesis
    using h [of "''content-type''"] h [of "''cookie''"] by (auto simp: populate_def Let_def)
qed

subsection \<open>The response in Go\<close>

text \<open>What every response made through its methods has, whatever the application sets: string headers
  under distinct keys, a content type among them, so that they are never taken for a list.\<close>

definition response_ok :: "PhpResponse \<Rightarrow> bool" where
  "response_ok p \<longleftrightarrow> in_int64 (ps_status p) \<and> str_headers p \<and> distinct (map fst (ps_headers p)) \<and>
     (\<forall>k \<in> fst ` set (ps_headers p). key_ok k) \<and> KStr ''Content-Type'' \<in> fst ` set (ps_headers p)"

lemma content_type_key [simp]: "str_key ''Content-Type'' = KStr ''Content-Type''"
  by (simp add: str_key_alpha is_digit_def)

lemma response_ok_new [simp]: "response_ok new_Response"
  by (simp add: response_ok_def in_int64_def) (simp add: new_Response_def int_key_def is_digit_def)

lemma response_ok_status [simp]: "response_ok p \<Longrightarrow> in_int64 code \<Longrightarrow> response_ok (rsp_status code p)"
  by (simp add: response_ok_def) (simp add: rsp_status_def)

lemma response_ok_header [simp]: "response_ok p \<Longrightarrow> response_ok (rsp_header name value p)"
  by (simp add: response_ok_def) (auto simp: rsp_header_def array_set_distinct array_set_keys dest!: array_set_elem)

lemma response_ok_body [simp]: "response_ok p \<Longrightarrow> response_ok (rsp_body content p)"
  by (simp add: response_ok_def) (simp add: rsp_body_def)

lemma response_ok_methods:
  assumes "response_ok p" "in_int64 code"
  shows "response_ok (snd (rsp_json env data code p))" "response_ok (rsp_html content code p)"
    "response_ok (rsp_redirect url code p)"
  using assms by (auto simp: rsp_json_def rsp_html_def rsp_redirect_def Let_def split: sum.splits)

definition header_pairs :: "PhpResponse \<Rightarrow> (string \<times> string) list" where
  "header_pairs p = map (\<lambda>(k, v). (key_str k, case v of PStr s \<Rightarrow> s | _ \<Rightarrow> '''')) (ps_headers p)"

definition response_header :: "PhpResponse \<Rightarrow> ResponseHeader" where
  "response_header p = \<lparr>rs_Status = ps_status p, rs_Headers = map_of (header_pairs p)\<rparr>"

lemma seq_append_Inr: "seq_append x (map Inr es) = Inr (x @ concat es)"
  by (induction es arbitrary: x) auto

lemma concat_pairs:
  "concat (concat (map (\<lambda>(k, v). [encodeString (key_str k), encodeString (f v)]) hs)) =
   concat (map (\<lambda>(k, e). encodeString k @ e) (map (\<lambda>(k, v). (k, encodeString v)) (map (\<lambda>(k, v). (key_str k, f v)) hs)))"
  by (induction hs) auto

lemma encode_items:
  "\<forall>(k, v) \<in> set hs. \<exists>s. v = PStr s \<Longrightarrow>
   concat (map (\<lambda>(k, v). [Inr (encodeString (key_str k)), encode v]) hs) =
     map Inr (concat (map (\<lambda>(k, v). [encodeString (key_str k), encodeString (case v of PStr s \<Rightarrow> s | _ \<Rightarrow> '''')]) hs))"
  by (induction hs) auto

lemma response_frame_bytes:
  assumes "response_ok p"
  shows "response_frame p = Inr \<lparr>pf_type = php_TYPE_RESPONSE, pf_flags = 0, pf_streamId = 0,
    pf_headers = response_bytes (ps_status p) (header_pairs p), pf_payload = ps_body p\<rparr>"
proof -
  let ?hs = "ps_headers p"
  have "\<not> array_is_list ?hs"
  proof
    assume "array_is_list ?hs"
    then have "fst ` set ?hs = set (map (\<lambda>i. KInt (int i)) [0 ..< length ?hs])"
      unfolding array_is_list_def by (metis set_map)
    then show False using assms by (auto simp: response_ok_def)
  qed
  moreover have "concat (map (\<lambda>(k, v). [Inr (encodeString (key_str k)), encode v]) ?hs) =
      map Inr (concat (map (\<lambda>(k, v). [encodeString (key_str k), encodeString (case v of PStr s \<Rightarrow> s | _ \<Rightarrow> '''')]) ?hs))"
    using assms by (intro encode_items) (simp add: response_ok_def str_headers_def)
  ultimately have "encode (PArr ?hs) = Inr (string_map (header_pairs p))"
    by (simp add: seq_append_Inr string_map_def msgpack_map_def header_pairs_def concat_pairs del: map_map)
  then show ?thesis
    by (simp add: response_frame_def array_is_list_def response_bytes_def msgpack_map_def)
qed

text \<open>The names of the headers stay distinct as strings.\<close>

lemma header_pairs_distinct: "response_ok p \<Longrightarrow> distinct (map fst (header_pairs p))"
proof -
  assume ok: "response_ok p"
  have "map fst (header_pairs p) = map key_str (map fst (ps_headers p))" by (simp add: header_pairs_def split_beta)
  then show ?thesis using ok key_str_inj
    by (simp only: distinct_map) (auto simp: response_ok_def distinct_map intro!: inj_onI)
qed

text \<open>The response of the application: its own, or the error page when it throws.\<close>

definition app_response :: "php_env \<Rightarrow> php_handler \<Rightarrow> PhpRequest \<Rightarrow> PhpResponse" where
  "app_response env h r =
     (case h (snd (populate env r no_globals)) r new_Response of
        (Inl e, _) \<Rightarrow> error_response env e
      | (Inr _, p, _) \<Rightarrow> p)"

definition uses_methods :: "php_handler \<Rightarrow> bool" where
  "uses_methods h \<longleftrightarrow> (\<forall>g r. response_ok (fst (snd (h g r new_Response))))"

lemma app_response_ok: "uses_methods h \<Longrightarrow> response_ok (app_response env h r)"
proof -
  assume h: "uses_methods h"
  have "response_ok (error_response env e)" for e
    by (simp add: error_response_def in_int64_def)
  then show ?thesis using h unfolding app_response_def uses_methods_def
    by (auto split: prod.splits sum.splits) (metis fst_conv snd_conv)
qed

lemma sdk_reply_app:
  assumes "decodeHeaders env f = Inr a" "fromFrame a (pf_payload f) = Inr r" "same_request q body r" "uses_methods h"
  shows "sdk_reply env h f = projr (response_frame (app_response env h r))"
proof -
  obtain g where g: "populate env r no_globals = (Inr (), g)"
    using populate_total [of r env no_globals] assms(3) unfolding same_request_def by (cases "populate env r no_globals") auto
  have "response_ok (fst (snd (h g r new_Response)))" using assms(4) by (simp add: uses_methods_def)
  then show ?thesis
    using assms(1,2) g response_frame_bytes
    by (auto simp: sdk_reply_def app_response_def error_frame_def split: prod.splits sum.splits)
qed

lemma exchange:
  assumes "EncodeRequest marshal q body = Inr req" "frame_fits req" "writes_requests marshal" "reads_responses unmarshal"
    and "\<forall>k \<in> dom (rq_Headers q). int_key k = None" "uses_methods h" "frame_fits (go_answer env h req)"
  shows "\<exists>r. same_request q body r \<and>
    DecodeResponse unmarshal (go_answer env h req) = Inr (response_header (app_response env h r), bytes_of_string (ps_body (app_response env h r)))"
proof -
  from assms(1) obtain b where b: "marshal q = Inr b" "fr_Headers req = b" "fr_Payload req = body"
    by (auto simp: EncodeRequest_def MarshalMsgpack_def split: sum.splits)
  then obtain hs where hs: "distinct (map fst hs)" "map_of hs = rq_Headers q" "b = bytes_of_string (request_bytes hs q)"
    using assms(3) unfolding writes_requests_def by blast
  have len: "length (request_bytes hs q) < 2 ^ 24" using assms(2) b hs(3) by (simp add: frame_fits_def)
  have "truthy (request_bytes hs q)" by (auto simp: truthy_def request_bytes_def msgpack_map_def encodeString_def map_head_def Let_def)
  then have a: "decodeHeaders env (php_frame req) = Inr (request_array hs q)"
    using decode_request [OF hs(1) len] b hs(3) by (simp add: decodeHeaders_def php_frame_def)
  obtain r where r: "fromFrame (request_array hs q) (pf_payload (php_frame req)) = Inr r" "same_request q body r"
    using fromFrame_request [OF hs(2) assms(5), of body] b(3) by (auto simp: php_frame_def)
  let ?p = "app_response env h r"
  note ok = app_response_ok [OF assms(6), of env r]
  have ans: "go_answer env h req = go_frame (projr (response_frame ?p))"
    unfolding go_answer_def sdk_reply_app [OF a r assms(6)] ..
  then have fit: "length (response_bytes (ps_status ?p) (header_pairs ?p)) < 2 ^ 24"
    using assms(7) response_frame_bytes [OF ok] by (simp add: frame_fits_def go_frame_def)
  have "unmarshal (bytes_of_string (response_bytes (ps_status ?p) (header_pairs ?p))) = Inr (response_header ?p)"
    using assms(4) fit header_pairs_distinct [OF ok] ok unfolding reads_responses_def response_header_def response_ok_def by blast
  then have "DecodeResponse unmarshal (go_answer env h req) = Inr (response_header ?p, bytes_of_string (ps_body ?p))"
    unfolding ans response_frame_bytes [OF ok]
    by (simp add: DecodeResponse_def UnmarshalMsgpack_def go_frame_def php_type_defs frame_type_defs)
  then show ?thesis using r(2) by blast
qed

subsection \<open>Properties\<close>


text \<open>A request with a header, and a library for such requests.\<close>

definition msg_header :: RequestHeader where
  "msg_header = \<lparr>rq_Method = ''POST'', rq_URI = ''/a'', rq_QueryString = ''x=1'', rq_Headers = [''Accept'' \<mapsto> ''y''],
     rq_RemoteAddr = '''', rq_ServerName = ''h'', rq_ServerPort = ''80'', rq_Protocol = ''HTTP/1.1''\<rparr>"

definition msg_marshal :: "(RequestHeader, unit) marshaller" where
  "msg_marshal q = (if rq_Headers q = [''Accept'' \<mapsto> ''y''] then Inr (bytes_of_string (request_bytes [(''Accept'', ''y'')] q)) else Inl ())"

definition msg_unmarshal :: "(ResponseHeader, unit) unmarshaller" where
  "msg_unmarshal b =
     (case decode (\<lambda>_. '''') (string_of_bytes b) of
        Inr (PArr [(_, PInt code), (_, PArr hs)]) \<Rightarrow>
          Inr \<lparr>rs_Status = code, rs_Headers = map_of (map (\<lambda>(k, v). (key_str k, case v of PStr s \<Rightarrow> s | _ \<Rightarrow> '''')) hs)\<rparr>
      | _ \<Rightarrow> Inl ())"

definition msg_req :: Frame where
  "msg_req = \<lparr>fr_Type = TypeRequest, fr_Flags = 0, fr_StreamID = 0,
     fr_Headers = bytes_of_string (request_bytes [(''Accept'', ''y'')] msg_header), fr_Payload = [7]\<rparr>"

lemma msg_library: "writes_requests msg_marshal" "reads_responses msg_unmarshal"
proof -
  show "writes_requests msg_marshal"
    unfolding writes_requests_def msg_marshal_def by (auto split: if_splits intro!: exI [of _ "[(''Accept'', ''y'')]"])
  have "map (\<lambda>(k, v). (key_str k, case v of PStr s \<Rightarrow> s | _ \<Rightarrow> '''')) (map (\<lambda>(k, v). (str_key k, PStr v)) hs) = hs" for hs
    by (induction hs) auto
  then show "reads_responses msg_unmarshal"
    unfolding reads_responses_def msg_unmarshal_def using decode_response by simp
qed

lemma msg_encoded: "EncodeRequest msg_marshal msg_header [7] = Inr msg_req"
  by (simp add: EncodeRequest_def MarshalMsgpack_def msg_marshal_def msg_req_def msg_header_def)

lemma msg_fits: "frame_fits msg_req"
proof -
  have "length (fr_Headers msg_req) \<le> 200 \<and> length (fr_Payload msg_req) \<le> 1" by code_simp
  then show ?thesis by (simp add: frame_fits_def)
qed

lemma byte_handler_ok: "writes_nothing byte_handler" "uses_methods byte_handler"
  by (simp_all add: writes_nothing_def uses_methods_def byte_handler_def)

lemma msg_names: "\<forall>k \<in> dom (rq_Headers msg_header). int_key k = None"
  by (simp add: msg_header_def int_key_def is_digit_def)

text \<open>A pool that serves the request.\<close>

definition msg_process :: "byte list \<Rightarrow> byte list \<Rightarrow> bool" where
  "msg_process inp out \<longleftrightarrow>
     inp = [] \<and> out = bytes [sdk_ready] \<or> inp = frame_bytes msg_req \<and> out = bytes [sdk_ready, byte_answer msg_req, sdk_ready]"

definition msg_served :: "xmove list" where
  "msg_served = ext_boot @ [XCall (XExec msg_req EEnter)] @ go 4 2 @ go 3 3 @
     [XEmit 0 [byte_answer msg_req, sdk_ready]] @ go 5 3 @ go 5 2"

text \<open>The bytes on the wire, for evaluation.\<close>

lemma msg_req_code [code]:
  "msg_req = \<lparr>fr_Type = 1, fr_Flags = 0, fr_StreamID = 0, fr_Headers =
    [136, 166, 109, 101, 116, 104, 111, 100, 164, 80, 79, 83, 84, 163, 117, 114, 105, 162, 47, 97, 172, 113, 117,
     101, 114, 121, 95, 115, 116, 114, 105, 110, 103, 163, 120, 61, 49, 167, 104, 101, 97, 100, 101, 114, 115, 129,
     166, 65, 99, 99, 101, 112, 116, 161, 121, 171, 114, 101, 109, 111, 116, 101, 95, 97, 100, 100, 114, 160, 171,
     115, 101, 114, 118, 101, 114, 95, 110, 97, 109, 101, 161, 104, 171, 115, 101, 114, 118, 101, 114, 95, 112,
     111, 114, 116, 162, 56, 48, 168, 112, 114, 111, 116, 111, 99, 111, 108, 168, 72, 84, 84, 80, 47, 49, 46, 49],
     fr_Payload = [7]\<rparr>"
  by code_simp

lemma msg_answer: "go_answer plain_env byte_handler msg_req = byte_answer msg_req"
proof -
  have hs: "distinct (map fst [(''Accept'', ''y'')])" "map_of [(''Accept'', ''y'')] = rq_Headers msg_header" by (simp_all add: msg_header_def)
  have len: "length (request_bytes [(''Accept'', ''y'')] msg_header) < 2 ^ 24"
    using msg_fits by (simp add: frame_fits_def msg_req_def)
  have "truthy (request_bytes [(''Accept'', ''y'')] msg_header)"
    by (auto simp: truthy_def request_bytes_def msgpack_map_def encodeString_def map_head_def Let_def)
  then have a: "decodeHeaders plain_env (php_frame msg_req) = Inr (request_array [(''Accept'', ''y'')] msg_header)"
    using decode_request [OF hs(1) len] by (simp add: decodeHeaders_def php_frame_def msg_req_def)
  obtain r where r: "fromFrame (request_array [(''Accept'', ''y'')] msg_header) (pf_payload (php_frame msg_req)) = Inr r"
    "same_request msg_header [7] r"
    using fromFrame_request [OF hs(2) msg_names, of "[7]"] by (auto simp: php_frame_def msg_req_def)
  have "response_frame (rsp_body b new_Response) =
      Inr \<lparr>pf_type = 2, pf_flags = 0, pf_streamId = 0, pf_headers = byte_headers, pf_payload = b\<rparr>" for b
    by (simp add: response_frame_def rsp_body_def new_Response_def byte_headers_def array_is_list_def php_type_defs)
  then show ?thesis
    unfolding go_answer_def sdk_reply_app [OF a r byte_handler_ok(2)] app_response_def
    using r(2) by (simp add: byte_handler_def go_frame_def byte_answer_def frame_type_defs bytes_of_string_take same_request_def msg_req_def)
qed

lemma msg_process_php: "msg_process inp out \<Longrightarrow> php_process plain_env byte_handler inp out"
proof -
  assume b: "msg_process inp out"
  have "frames_of [] = []" by (simp add: frames_of_def)
  moreover from this have "frames_of (frame_bytes msg_req) = [msg_req]"
    using ReadFrame_fits [OF msg_fits, of "[]"] by (simp add: frames_of_rec)
  moreover have "fr_Type msg_req = 1" by (simp add: msg_req_def frame_type_defs)
  ultimately have "sdk_behaves (go_answer plain_env byte_handler) inp out"
    using b by (auto simp: msg_process_def sdk_behaves_def sdk_run_def msg_answer frame_type_defs)
  then show ?thesis by (simp add: php_process_iff byte_handler_ok)
qed


end
