(* ===== verification/PhpWordPress.thy ===== *)
theory PhpWordPress
  imports PhpBridge
begin

text \<open>
  The WordPress bridge (\<^verbatim>\<open>php-sdk/src/Bridge/WordPress.php\<close>). WordPress itself, from \<^verbatim>\<open>wp()\<close> to the end of
  its template, is a parameter: with the superglobals it gets it ends with an exception or with a page,
  and leaves a status and header lines with the interpreter. What the page writes goes into the
  output buffer, so that nothing of it reaches the pipe by itself.
\<close>

subsection \<open>The request\<close>

definition wp_ABSPATH :: "string \<Rightarrow> string" where
  "wp_ABSPATH basePath = rev (dropWhile (\<lambda>c. c = CHR ''/'') (rev basePath)) @ ''/''"

text \<open>The superglobals are set by the code of the worker, but for the files; then come WordPress's own.\<close>

definition wp_setupRequest :: "php_env \<Rightarrow> string \<Rightarrow> PhpRequest \<Rightarrow> php_globals \<Rightarrow> (php_throw + unit) \<times> php_globals" where
  "wp_setupRequest env abspath r g =
     (case populate env r g of
        (Inl e, g') \<Rightarrow> (Inl e, g'\<lparr>g_FILES := g_FILES g\<rparr>)
      | (Inr _, g') \<Rightarrow>
          (let server = g_SERVER g';
               server = array_set (KStr ''REQUEST_URI'')
                 (PStr (pq_uri r @ (if truthy (pq_queryString r) then ''?'' @ pq_queryString r else ''''))) server;
               server = array_set (KStr ''PHP_SELF'') (PStr (pq_uri r)) server;
               server = array_set (KStr ''SCRIPT_FILENAME'') (PStr (abspath @ ''index.php'')) server;
               server = array_set (KStr ''DOCUMENT_ROOT'') (PStr abspath) server
           in (Inr (), g'\<lparr>g_FILES := g_FILES g, g_SERVER := server\<rparr>)))"

subsection \<open>The response\<close>

record site_output =
  so_text :: string
  so_code :: "int option"
  so_headers :: "string list"

type_synonym wp_site = "php_globals \<Rightarrow> (php_throw + site_output) \<times> php_globals"

definition wp_header_line :: "string \<Rightarrow> (pkey \<times> string) list \<Rightarrow> (pkey \<times> string) list" where
  "wp_header_line header a =
     (case split_at CHR '':'' header of
        name # p # ps \<Rightarrow> array_set (str_key (trim name)) (trim (join_with CHR '':'' (p # ps))) a
      | _ \<Rightarrow> a)"

text \<open>The collected headers go to the response one by one; \<^verbatim>\<open>header()\<close> refuses an integer key.\<close>

fun wp_put_headers :: "(pkey \<times> string) list \<Rightarrow> PhpResponse \<Rightarrow> (php_throw + unit) \<times> PhpResponse" where
  "wp_put_headers [] p = (Inr (), p)"
| "wp_put_headers ((KInt i, v) # hs) p = (Inl TypeMismatch, p)"
| "wp_put_headers ((KStr n, v) # hs) p = wp_put_headers hs (rsp_header n v p)"

definition wp_respond :: "site_output \<Rightarrow> PhpResponse \<Rightarrow> (php_throw + unit) \<times> PhpResponse \<times> string" where
  "wp_respond page p =
     (let statusCode = (case so_code page of None \<Rightarrow> 200 | Some c \<Rightarrow> if c = 0 then 200 else c);
          headers = fold wp_header_line (so_headers page) []
      in case wp_put_headers headers (rsp_status statusCode p) of
           (Inl e, p) \<Rightarrow> (Inl e, p, '''')
         | (Inr _, p) \<Rightarrow>
             (let p = rsp_body (if truthy (so_text page) then so_text page else '''') p
              in case rsp_send p of (res, sent) \<Rightarrow> (res, p, sent)))"

definition wp_handle :: "php_env \<Rightarrow> (php_throw \<Rightarrow> string) \<Rightarrow> string \<Rightarrow> wp_site \<Rightarrow> php_handler" where
  "wp_handle env message abspath site g r p =
     (case wp_setupRequest env abspath r g of
        (Inl e, g) \<Rightarrow> (Inl e, p, '''', g)
      | (Inr _, g) \<Rightarrow>
          (case site g of
             (Inl e, g) \<Rightarrow>
               (let p = rsp_body (''WordPress Error: '' @ message e) (rsp_status 500 p)
                in case rsp_send p of (res, sent) \<Rightarrow> (res, p, sent, g))
           | (Inr page, g) \<Rightarrow> (case wp_respond page p of (res, p, sent) \<Rightarrow> (res, p, sent, g))))"

text \<open>The clean-up: what WordPress resets itself, as a parameter, then the superglobals; \<^verbatim>\<open>$_SERVER\<close> stays.\<close>

definition wp_cleanup :: "(php_throw + unit) \<Rightarrow> php_globals \<Rightarrow> (php_throw + unit) \<times> php_globals" where
  "wp_cleanup reset g =
     (case reset of
        Inl e \<Rightarrow> (Inl e, g)
      | Inr _ \<Rightarrow> (Inr (), g\<lparr>g_GET := [], g_POST := [], g_REQUEST := [], g_COOKIE := [], g_FILES := []\<rparr>))"

subsection \<open>What the bridge sends\<close>

text \<open>
  Whatever WordPress does, a page or an exception, the bridge sends the response itself, and the worker
  sends it again: after every request that does not end in an exception of the bridge there are two
  copies of one response in the pipe.
\<close>
lemma wp_sends_itself:
  assumes "wp_handle env message abspath site g r p = (Inr (), p', out, g')"
  shows "\<exists>fr. response_frame p' = Inr fr \<and> out = concat (php_writeFrame fr)"
proof -
  have "fst (rsp_send q) = Inr () \<Longrightarrow> \<exists>fr. response_frame q = Inr fr \<and> snd (rsp_send q) = concat (php_writeFrame fr)" for q
    by (auto simp: rsp_send_def split: sum.splits)
  then show ?thesis
    using assms
    by (auto simp: wp_handle_def wp_respond_def Let_def split: prod.splits sum.splits if_splits)
      (metis fst_conv snd_conv)+
qed

lemma wp_answers_twice:
  assumes "decodeHeaders env f = Inr a" "fromFrame a (pf_payload f) = Inr r" "populate env r g = (Inr (), g1)"
    and "wp_handle env message abspath site g1 r new_Response = (Inr (), p, out, g2)"
  shows "\<exists>fr. handleRequest env (bridge_handler (wp_handle env message abspath site) (wp_cleanup (Inr ()))) f g =
      (Inr (), concat (php_writeFrame fr) @ concat (php_writeFrame fr), snd (wp_cleanup (Inr ()) g2))"
proof -
  obtain fr where "response_frame p = Inr fr" "out = concat (php_writeFrame fr)"
    using wp_sends_itself [OF assms(4)] by auto
  then show ?thesis
    using assms by (auto simp: handleRequest_def try_request_def bridge_handler_def rsp_send_def wp_cleanup_def)
qed

text \<open>A page that consists of the digit zero is sent as an empty one.\<close>

lemma wp_loses_zero:
  assumes "wp_respond (page\<lparr>so_text := ''0''\<rparr>) p = (Inr (), p', out)"
  shows "ps_body p' = ''''"
  using assms by (auto simp: wp_respond_def truthy_def rsp_body_def Let_def split: prod.splits sum.splits)

end
