(* ===== verification/PhpWsServer.thy ===== *)
theory PhpWsServer
  imports PhpSdk
begin

text \<open>
  The WebSocket side of the SDK (\<^verbatim>\<open>php-sdk/src/WebSocket\<close>): \<^verbatim>\<open>Connection\<close> and \<^verbatim>\<open>Server\<close>, which keeps the
  connections of the workers' stream frames. The application's callbacks are parameters: each gets the
  server's connections and ends with or without an exception and with what it wrote.
\<close>

subsection \<open>Connection\<close>

record PhpConn =
  pc_id :: string
  pc_remoteAddr :: string

definition new_Connection :: "string \<Rightarrow> PhpConn" where
  "new_Connection i = \<lparr>pc_id = i, pc_remoteAddr = ''''\<rparr>"

definition stream_frame :: "PhpConn \<Rightarrow> int \<Rightarrow> string \<Rightarrow> string \<Rightarrow> PhpFrame" where
  "stream_frame c type event payload =
     \<lparr>pf_type = type, pf_flags = 0, pf_streamId = 0,
      pf_headers = projr (encode (PArr [(KStr ''conn_id'', PStr (pc_id c)), (KStr ''event'', PStr event), (KStr ''room'', PStr '''')])),
      pf_payload = payload\<rparr>"

definition conn_send :: "PhpConn \<Rightarrow> string \<Rightarrow> string" where
  "conn_send c data = concat (php_writeFrame (stream_frame c php_TYPE_STREAM_DATA ''message'' data))"

definition conn_sendJson :: "php_env \<Rightarrow> PhpConn \<Rightarrow> phpval \<Rightarrow> php_throw + string" where
  "conn_sendJson env c data = map_sum id (conn_send c) (json_encode env data)"

definition conn_close :: "PhpConn \<Rightarrow> string" where
  "conn_close c = concat (php_writeFrame (stream_frame c php_TYPE_STREAM_CLOSE ''close'' ''''))"

subsection \<open>Server\<close>

type_synonym connections = "(pkey \<times> PhpConn) list"

record ws_callbacks =
  onConnect :: "(connections \<Rightarrow> PhpConn \<Rightarrow> (php_throw + unit) \<times> string) option"
  onMessage :: "(connections \<Rightarrow> PhpConn \<Rightarrow> string \<Rightarrow> (php_throw + unit) \<times> string) option"
  onClose :: "(connections \<Rightarrow> PhpConn \<Rightarrow> (php_throw + unit) \<times> string) option"
  onError :: "(connections \<Rightarrow> php_throw \<Rightarrow> (php_throw + unit) \<times> string) option"

definition broadcast :: "connections \<Rightarrow> string \<Rightarrow> string option \<Rightarrow> string" where
  "broadcast conns data excludeId =
     concat (map (\<lambda>(k, c). if excludeId \<noteq> None \<and> Some (pc_id c) = excludeId then '''' else conn_send c data) conns)"

text \<open>A field of the header, absent and null being the empty string.\<close>

definition header_field :: "php_array \<Rightarrow> string \<Rightarrow> phpval" where
  "header_field a key =
     (case map_of a (KStr key) of None \<Rightarrow> PStr '''' | Some PNull \<Rightarrow> PStr '''' | Some v \<Rightarrow> v)"

text \<open>The loose comparison of \<^verbatim>\<open>switch\<close> with a literal that is not numeric.\<close>

fun loose_eq :: "phpval \<Rightarrow> string \<Rightarrow> bool" where
  "loose_eq (PStr s) lit = (s = lit)"
| "loose_eq (PBool b) lit = b"
| "loose_eq v lit = False"

text \<open>The key that a value is as an offset; \<open>None\<close> is an illegal offset. A float is truncated.\<close>

fun offset_key :: "(64 word \<Rightarrow> int) \<Rightarrow> phpval \<Rightarrow> pkey option" where
  "offset_key trunc (PStr s) = Some (str_key s)"
| "offset_key trunc (PInt i) = Some (KInt i)"
| "offset_key trunc (PBool b) = Some (KInt (if b then 1 else 0))"
| "offset_key trunc (PFloat w) = Some (KInt (trunc w))"
| "offset_key trunc PNull = Some (KStr '''')"
| "offset_key trunc (PArr a) = None"
| "offset_key trunc (PObject n) = None"

text \<open>\<^verbatim>\<open>$this->connections[$connId] ?? new Connection($connId)\<close>\<close>

definition find_conn :: "(64 word \<Rightarrow> int) \<Rightarrow> connections \<Rightarrow> phpval \<Rightarrow> php_throw + PhpConn" where
  "find_conn trunc conns connId =
     (case offset_key trunc connId of
        None \<Rightarrow> Inl TypeMismatch
      | Some k \<Rightarrow>
          (case map_of conns k of
             Some c \<Rightarrow> Inr c
           | None \<Rightarrow> (case connId of PStr s \<Rightarrow> Inr (new_Connection s) | _ \<Rightarrow> Inl TypeMismatch)))"

definition call_back :: "('a \<Rightarrow> (php_throw + unit) \<times> string) option \<Rightarrow> 'a \<Rightarrow> (php_throw + unit) \<times> string" where
  "call_back cb x = (case cb of None \<Rightarrow> (Inr (), '''') | Some f \<Rightarrow> f x)"

text \<open>The body of the \<^verbatim>\<open>try\<close> block, the connections being updated before a callback runs.\<close>

definition try_stream :: "php_env \<Rightarrow> (64 word \<Rightarrow> int) \<Rightarrow> ws_callbacks \<Rightarrow> PhpFrame \<Rightarrow> connections \<Rightarrow> ((php_throw + unit) \<times> string) \<times> connections" where
  "try_stream env trunc cb f conns =
     (case decodeHeaders env f of
        Inl e \<Rightarrow> ((Inl e, ''''), conns)
      | Inr header \<Rightarrow>
          (let connId = header_field header ''conn_id''; event = header_field header ''event''
           in if loose_eq event ''connect'' then
                (case connId of
                   PStr s \<Rightarrow>
                     (let conn = new_Connection s; conns = array_set (str_key s) conn conns
                      in (call_back (map_option (\<lambda>h. h conns) (onConnect cb)) conn, conns))
                 | _ \<Rightarrow> ((Inl TypeMismatch, ''''), conns))
              else if loose_eq event ''message'' then
                (case find_conn trunc conns connId of
                   Inl e \<Rightarrow> ((Inl e, ''''), conns)
                 | Inr conn \<Rightarrow> (call_back (map_option (\<lambda>h c. h conns c (pf_payload f)) (onMessage cb)) conn, conns))
              else if loose_eq event ''close'' then
                (case find_conn trunc conns connId of
                   Inl e \<Rightarrow> ((Inl e, ''''), conns)
                 | Inr conn \<Rightarrow>
                     (let conns = AList.delete (the (offset_key trunc connId)) conns
                      in (call_back (map_option (\<lambda>h. h conns) (onClose cb)) conn, conns)))
              else ((Inr (), ''''), conns)))"

definition handleStream :: "php_env \<Rightarrow> (64 word \<Rightarrow> int) \<Rightarrow> ws_callbacks \<Rightarrow> PhpFrame \<Rightarrow> connections \<Rightarrow> ((php_throw + unit) \<times> string) \<times> connections" where
  "handleStream env trunc cb f conns =
     (case try_stream env trunc cb f conns of
        ((Inr _, out), conns) \<Rightarrow> ((Inr (), out), conns)
      | ((Inl e, out), conns) \<Rightarrow>
          (case call_back (map_option (\<lambda>h. h conns) (onError cb)) e of (res, out2) \<Rightarrow> ((res, out @ out2), conns)))"

text \<open>The loop of \<^verbatim>\<open>Server::run\<close> after the ready frame, on an input that is closed at its end; what it
  writes, and the connections when it ends.\<close>

function ws_loop :: "php_env \<Rightarrow> (64 word \<Rightarrow> int) \<Rightarrow> ws_callbacks \<Rightarrow> connections \<Rightarrow> string list \<Rightarrow> string \<times> connections" where
  "ws_loop env trunc cb conns stdin =
     (case php_readFrame stdin of
        (Inl e, stdin') \<Rightarrow> ('''', conns)
      | (Inr f, stdin') \<Rightarrow>
          if pf_type f = php_TYPE_WORKER_STOP then ('''', conns)
          else if pf_type f = php_TYPE_PING then apfst ((@) sendPong) (ws_loop env trunc cb conns stdin')
          else if pf_type f = php_TYPE_STREAM_DATA \<or> pf_type f = php_TYPE_STREAM_CLOSE then
            (case handleStream env trunc cb f conns of
               ((Inl e, out), conns) \<Rightarrow> (out, conns)
             | ((Inr _, out), conns) \<Rightarrow> apfst ((@) out) (ws_loop env trunc cb conns stdin'))
          else ws_loop env trunc cb conns stdin')"
  by pat_completeness auto
termination
  by (relation "measure (\<lambda>(env, trunc, cb, conns, stdin). length (concat stdin))")
    (auto dest: php_readFrame_consumes [OF sym] simp del: length_concat)

declare ws_loop.simps [simp del]

definition ws_run :: "php_env \<Rightarrow> (64 word \<Rightarrow> int) \<Rightarrow> ws_callbacks \<Rightarrow> string list \<Rightarrow> string" where
  "ws_run env trunc cb stdin = sendReady @ fst (ws_loop env trunc cb [] stdin)"

subsection \<open>The registry of connections\<close>

text \<open>
  Whatever the callbacks do, throw or write, a stream frame has exactly its effect on the registry: a
  connect enters the connection, a close removes it, a message leaves the registry as it is.
\<close>
lemma handleStream_effect:
  assumes "decodeHeaders env f = Inr a" "header_field a ''conn_id'' = PStr s" "header_field a ''event'' = PStr ev"
  shows "map_of (snd (handleStream env trunc cb f conns)) =
    (if ev = ''connect'' then (map_of conns)(str_key s \<mapsto> new_Connection s)
     else if ev = ''close'' then (map_of conns)(str_key s := None)
     else map_of conns)"
proof -
  have "snd (handleStream env trunc cb f conns) = snd (try_stream env trunc cb f conns)"
    by (auto simp: handleStream_def split: prod.splits sum.splits)
  moreover have "\<exists>c. find_conn trunc conns (PStr s) = Inr c" by (auto simp: find_conn_def split: option.splits)
  ultimately show ?thesis
    using assms by (auto simp: try_stream_def Let_def map_of_array_set delete_conv')
qed

text \<open>A server whose callbacks write nothing writes nothing for a stream frame, not even a ready frame.\<close>

lemma handleStream_silent:
  assumes "onConnect cb = None" "onMessage cb = None" "onClose cb = None" "onError cb = None"
  shows "snd (fst (handleStream env trunc cb f conns)) = '''' \<and> fst (fst (handleStream env trunc cb f conns)) = Inr ()"
  using assms
  by (auto simp: handleStream_def try_stream_def call_back_def Let_def split: sum.splits prod.splits phpval.splits)

end
