(* ===== verification/PhpWsMirror.thy ===== *)
theory PhpWsMirror
  imports WebSocketProps PhpWsServer GoMsgpack
begin

text \<open>
  The WebSocket manager of the Go side and the WebSocket server of the SDK together: the manager
  forwards the events of its connections as stream frames, and the SDK's server keeps a registry of
  connections by them.
\<close>

subsection \<open>The frames that the manager forwards\<close>

definition forwarded :: "event list \<Rightarrow> Frame list" where
  "forwarded es = concat (map (\<lambda>e. case e of Forwarded (Some f) \<Rightarrow> [f] | _ \<Rightarrow> []) es)"

lemma forwarded_simps [simp]:
  "forwarded [] = []" "forwarded (es @ es') = forwarded es @ forwarded es'"
  "forwarded (Forwarded (Some f) # es) = f # forwarded es" "forwarded (Forwarded None # es) = forwarded es"
  "forwarded (Wrote c d # es) = forwarded es" "forwarded (Closed c # es) = forwarded es"
  by (simp_all add: forwarded_def)

text \<open>A frame of a connection, as the manager makes it.\<close>

definition conn_frame :: "string \<Rightarrow> string \<Rightarrow> byte list \<Rightarrow> Frame" where
  "conn_frame cid event data =
     \<lparr>fr_Type = TypeStreamData, fr_Flags = 0, fr_StreamID = 0,
      fr_Headers = bytes_of_string (stream_bytes \<lparr>sh_ConnectionID = cid, sh_Event = event, sh_Room = ''''\<rparr>), fr_Payload = data\<rparr>"

lemma encode_conn_frame:
  "writes_streams marshal \<Longrightarrow>
   EncodeStreamData marshal 0 \<lparr>sh_ConnectionID = cid, sh_Event = event, sh_Room = ''''\<rparr> data = Inr (conn_frame cid event data)"
  by (simp add: writes_streams_def EncodeStreamData_def MarshalMsgpack_def conn_frame_def)

subsection \<open>The registry after them\<close>

definition registry :: "php_env \<Rightarrow> (64 word \<Rightarrow> int) \<Rightarrow> ws_callbacks \<Rightarrow> Frame list \<Rightarrow> connections" where
  "registry env trunc cb fs = fold (\<lambda>f conns. snd (handleStream env trunc cb (php_frame f) conns)) fs []"

lemma handle_conn_frame:
  assumes "length cid \<le> 32" "length event \<le> 32"
  shows "map_of (snd (handleStream env trunc cb (php_frame (conn_frame cid event data)) conns)) =
    (if event = ''connect'' then (map_of conns)(str_key cid \<mapsto> new_Connection cid)
     else if event = ''close'' then (map_of conns)(str_key cid := None)
     else map_of conns)"
proof (rule handleStream_effect)
  let ?h = "\<lparr>sh_ConnectionID = cid, sh_Event = event, sh_Room = ''''\<rparr>"
  have "length (encodeString t) \<le> 3 + length t" if "length t \<le> 32" for t
    using that by (simp add: encodeString_def Let_def)
  from this [OF assms(1)] this [OF assms(2)]
  have "length (stream_bytes ?h) \<le> 200"
    using assms by (simp add: stream_bytes_def msgpack_map_def map_head_def) (simp add: encodeString_def)
  then have "decode (float_text env) (stream_bytes ?h) =
      Inr (PArr [(KStr ''conn_id'', PStr cid), (KStr ''event'', PStr event), (KStr ''room'', PStr '''')])"
    using decode_stream [of ?h] by simp
  moreover have "truthy (stream_bytes ?h)"
    by (auto simp: truthy_def stream_bytes_def msgpack_map_def encodeString_def map_head_def Let_def)
  ultimately show "decodeHeaders env (php_frame (conn_frame cid event data)) =
      Inr [(KStr ''conn_id'', PStr cid), (KStr ''event'', PStr event), (KStr ''room'', PStr '''')]"
    by (simp add: decodeHeaders_def php_frame_def conn_frame_def)
qed (simp_all add: header_field_def)

text \<open>What the manager does to the trace.\<close>

lemma forwarded_sends [simp]: "forwarded (mg_trace (fold (\<lambda>r. Send r data) rs m)) = forwarded (mg_trace m)"
  by (induction rs arbitrary: m) (simp_all add: Send_def)

lemma forwarded_messages [simp]:
  "forwarded (mg_trace (BroadcastToRoom ev room data excl m)) = forwarded (mg_trace m)"
  "forwarded (mg_trace (SendToClient cid data m)) = forwarded (mg_trace m)"
  "forwarded (mg_trace (Broadcast ev data excl m)) = forwarded (mg_trace m)"
  by (simp_all add: BroadcastToRoom_def SendToClient_def Broadcast_def Send_def split: option.splits)

lemma trace_rooms [simp]:
  "mg_trace (JoinRoom cid room m) = mg_trace m" "mg_trace (LeaveRoom cid room m) = mg_trace m"
  by (simp_all add: JoinRoom_def LeaveRoom_def upd_rooms_def split: option.splits)

lemma forwarded_notify:
  assumes "writes_streams (we_marshal ev)" "mg_phpForward m \<noteq> None"
  shows "forwarded (mg_trace (notify ev cid event m)) = forwarded (mg_trace m) @ [conn_frame cid event []]"
  using assms by (auto simp: notify_def encode_conn_frame)

lemma forwarded_HandleMessage:
  assumes "writes_streams (we_marshal ev)" "mg_phpForward m \<noteq> None"
  shows "forwarded (mg_trace (HandleMessage ev r data m)) = forwarded (mg_trace m) @ [conn_frame (cl_ID (mg_heap m ! r)) ''message'' data]"
  using assms by (auto simp: HandleMessage_def Let_def encode_conn_frame split: sum.splits option.splits prod.splits)

subsection \<open>The registry mirrors the manager\<close>

lemma registry_snoc: "registry env trunc cb (fs @ [f]) = snd (handleStream env trunc cb (php_frame f) (registry env trunc cb fs))"
  by (simp add: registry_def)

lemma str_key_inj [simp]: "str_key c = str_key d \<longleftrightarrow> c = d"
  by (metis key_str_str_key)

definition mirrored :: "php_env \<Rightarrow> (64 word \<Rightarrow> int) \<Rightarrow> ws_callbacks \<Rightarrow> Manager \<Rightarrow> bool" where
  "mirrored env trunc cb m \<longleftrightarrow>
     mg_phpForward m \<noteq> None \<and> (\<forall>c \<in> dom (map_of (mg_clients m)). length c \<le> 32) \<and>
     list_all (\<lambda>f. fr_Type f = TypeStreamData) (forwarded (mg_trace m)) \<and>
     (\<forall>c. map_of (registry env trunc cb (forwarded (mg_trace m))) (str_key c) =
        (if c \<in> dom (map_of (mg_clients m)) then Some (new_Connection c) else None))"

lemma mirrored_same:
  assumes "mirrored env trunc cb m" "mg_phpForward m' = mg_phpForward m" "mg_clients m' = mg_clients m"
    and "forwarded (mg_trace m') = forwarded (mg_trace m)"
  shows "mirrored env trunc cb m'"
  using assms by (simp add: mirrored_def)

lemma type_conn_frame [simp]: "fr_Type (conn_frame cid event data) = TypeStreamData"
  by (simp add: conn_frame_def)

lemma mirrored_Add:
  assumes "mirrored env trunc cb m" "writes_streams (we_marshal ev)"
  shows "mirrored env trunc cb (snd (AddConnection ev rnd conn addr m))"
proof -
  define m1 where "m1 = m\<lparr>mg_heap := mg_heap m @ [\<lparr>cl_ID = generateConnID rnd, cl_Conn = conn, cl_RemoteAddr = addr, cl_Rooms = []\<rparr>],
    mg_clients := AList.update (generateConnID rnd) (length (mg_heap m)) (mg_clients m)\<rparr>"
  have a: "snd (AddConnection ev rnd conn addr m) = notify ev (generateConnID rnd) ''connect'' m1"
    by (simp add: AddConnection_def m1_def Let_def)
  have m1: "mg_phpForward m1 = mg_phpForward m" "mg_trace m1 = mg_trace m"
    "map_of (mg_clients m1) = (map_of (mg_clients m))(generateConnID rnd \<mapsto> length (mg_heap m))"
    by (simp_all add: m1_def update_conv')
  show ?thesis
    using assms forwarded_notify [OF assms(2), of m1] length_generateConnID [of rnd]
    unfolding a mirrored_def by (simp add: m1 registry_snoc handle_conn_frame)
qed

lemma mirrored_Remove:
  assumes "mirrored env trunc cb m" "writes_streams (we_marshal ev)"
  shows "mirrored env trunc cb (RemoveConnection ev cid m)"
proof (cases "map_of (mg_clients m) cid")
  case (Some r)
  define m1 where "m1 = m\<lparr>mg_rooms := fold (\<lambda>(room, _). remove_member cid room)
    (range_map (we_order ev) (cl_Rooms (mg_heap m ! r))) (mg_rooms m), mg_clients := AList.delete cid (mg_clients m)\<rparr>"
  have a: "RemoveConnection ev cid m = notify ev cid ''close'' m1" by (simp add: RemoveConnection_def Some m1_def Let_def)
  have m1: "mg_phpForward m1 = mg_phpForward m" "mg_trace m1 = mg_trace m" "map_of (mg_clients m1) = (map_of (mg_clients m))(cid := None)"
    by (simp_all add: m1_def delete_conv')
  have "length cid \<le> 32" using assms(1) Some unfolding mirrored_def by blast
  then show ?thesis
    using assms forwarded_notify [OF assms(2), of m1]
    unfolding a mirrored_def by (simp add: m1 registry_snoc handle_conn_frame)
qed (simp add: RemoveConnection_def assms(1))

lemma mirrored_message:
  assumes "mirrored env trunc cb m" "writes_streams (we_marshal ev)" "length (cl_ID (mg_heap m ! r)) \<le> 32"
    and "mg_phpForward (HandleMessage ev r data m) = mg_phpForward m"
  shows "mirrored env trunc cb (HandleMessage ev r data m)"
  using assms forwarded_HandleMessage [OF assms(2), of m]
  unfolding mirrored_def by (simp add: registry_snoc handle_conn_frame)

lemma forward_fields [simp]:
  "mg_phpForward (BroadcastToRoom ev room data excl m) = mg_phpForward m"
  "mg_phpForward (SendToClient cid data m) = mg_phpForward m" "mg_phpForward (Broadcast ev data excl m) = mg_phpForward m"
  "mg_phpForward (JoinRoom cid room m) = mg_phpForward m" "mg_phpForward (LeaveRoom cid room m) = mg_phpForward m"
  by (simp_all add: BroadcastToRoom_def SendToClient_def Broadcast_def Send_def JoinRoom_def LeaveRoom_def upd_rooms_def split: option.splits)

lemma forward_HandleMessage [simp]: "mg_phpForward (HandleMessage ev r data m) = mg_phpForward m"
  by (simp add: HandleMessage_def Let_def split: option.splits sum.splits prod.splits)

lemma mirrored_step:
  assumes "ws_step ev s s'" "mirrored env trunc cb (sv_manager s)" "ws_inv s" "writes_streams (we_marshal ev)"
  shows "mirrored env trunc cb (sv_manager s')"
proof -
  have cid: "length (cl_ID (mg_heap (sv_manager s) ! r)) \<le> 32" if r: "r \<in> set (sv_pumps s)" for r
  proof -
    obtain c where c: "map_of (mg_clients (sv_manager s)) c = Some r" using assms(3) r by (auto simp: ws_inv_def ran_def)
    then have "cl_ID (mg_heap (sv_manager s) ! r) = c" using assms(3) mgr_invD(4) unfolding ws_inv_def by blast
    moreover have "length c \<le> 32" using assms(2) c unfolding mirrored_def by blast
    ultimately show ?thesis by simp
  qed
  from assms(1) show ?thesis
  proof cases
    case (upgrade rnd upgraded addr)
    then show ?thesis
      using mirrored_Add [OF assms(2,4)] assms(2) by (cases upgraded) (simp_all add: ServeHTTP_def case_prod_beta)
  next
    case (message r data)
    then show ?thesis using mirrored_message [OF assms(2,4) cid] by (simp add: pump_message_def)
  next
    case (finish r)
    then show ?thesis
      using mirrored_same [OF mirrored_Remove [OF assms(2,4)]] by (simp add: pump_end_def Let_def)
  qed (simp_all add: mirrored_same [OF assms(2)])
qed

interpretation wsm: inductive_invariant
  "\<lambda>s. ws_init (Some fwd) s \<and> range_order (we_order ev) \<and> writes_streams (we_marshal ev)" "ws_step ev"
  "\<lambda>s. mirrored env trunc cb (sv_manager s) \<and> ws_inv s \<and> range_order (we_order ev) \<and> writes_streams (we_marshal ev)"
proof unfold_locales
  fix s assume i: "ws_init (Some fwd) s \<and> range_order (we_order ev) \<and> writes_streams (we_marshal ev)"
  then have "mirrored env trunc cb (sv_manager s)" by (simp add: ws_init_def NewHandler_def mirrored_def NewManager_def registry_def)
  then show "mirrored env trunc cb (sv_manager s) \<and> ws_inv s \<and> range_order (we_order ev) \<and> writes_streams (we_marshal ev)"
    using i ws_inv_init by blast
qed (use mirrored_step ws_inv_step in blast)

subsection \<open>The server's loop on their bytes\<close>

definition handles_errors :: "ws_callbacks \<Rightarrow> bool" where
  "handles_errors cb \<longleftrightarrow> (\<forall>h conns e. onError cb = Some h \<longrightarrow> fst (h conns e) = Inr ())"

lemma handleStream_returns: "handles_errors cb \<Longrightarrow> fst (fst (handleStream env trunc cb f conns)) = Inr ()"
  by (auto simp: handleStream_def call_back_def handles_errors_def split: sum.splits prod.splits option.splits)
    (metis fst_conv)+

lemma ws_loop_registry:
  assumes "handles_errors cb" "[] \<notin> set cs"
    and "list_all (\<lambda>f. fr_Type f = TypeStreamData) (frames_of (bytes_of_string (concat cs)))"
  shows "snd (ws_loop env trunc cb conns cs) =
    fold (\<lambda>f conns. snd (handleStream env trunc cb (php_frame f) conns)) (frames_of (bytes_of_string (concat cs))) conns"
  using assms(2,3)
proof (induction "length (concat cs)" arbitrary: cs conns rule: less_induct)
  case less
  show ?case
  proof (cases "php_readFrame cs")
    case (Pair r cs')
    note agree = php_readFrame_agrees [OF less.prems(1), unfolded Pair prod.case]
    show ?thesis
    proof (cases r)
      case (Inl e)
      then obtain e' where "ReadFrame (bytes_of_string (concat cs)) = (Inl e', bytes_of_string (concat cs'))" using agree by auto
      then have "frames_of (bytes_of_string (concat cs)) = []" by (subst frames_of_rec) simp
      then show ?thesis using Pair Inl by (simp add: ws_loop.simps [of env trunc cb conns cs])
    next
      case (Inr f)
      have ok: "php_frame (go_frame f) = f" "[] \<notin> set cs'"
        and R: "ReadFrame (bytes_of_string (concat cs)) = (Inr (go_frame f), bytes_of_string (concat cs'))"
        using agree Inr by simp_all
      have fr: "frames_of (bytes_of_string (concat cs)) = go_frame f # frames_of (bytes_of_string (concat cs'))"
        by (subst frames_of_rec) (simp add: R)
      have "fr_Type (go_frame f) = TypeStreamData" and rest: "list_all (\<lambda>f. fr_Type f = TypeStreamData) (frames_of (bytes_of_string (concat cs')))"
        using less.prems(2) unfolding fr by simp_all
      then have "pf_type f = 3" using arg_cong [OF ok(1), of pf_type] by (simp add: php_frame_def frame_type_defs)
      moreover obtain out conns' where h: "handleStream env trunc cb f conns = ((Inr (), out), conns')"
        using handleStream_returns [OF assms(1), of env trunc f conns] by (metis prod.collapse)
      ultimately have "snd (ws_loop env trunc cb conns cs) = snd (ws_loop env trunc cb conns' cs')"
        using Pair Inr by (simp add: ws_loop.simps [of env trunc cb conns cs] php_type_defs)
      then show ?thesis
        using less.hyps [OF php_readFrame_consumes ok(2) rest] Pair Inr h ok(1) by (simp add: fr)
    qed
  qed
qed

subsection \<open>Properties\<close>


text \<open>One connection that was opened, and a server without callbacks.\<close>

definition mirror_env :: "unit ws_env" where
  "mirror_env = \<lparr>we_marshal = (\<lambda>h. Inr (bytes_of_string (stream_bytes h))), we_unmarshal = (\<lambda>_. Inl ()), we_order = rev\<rparr>"

definition mirror_state :: ws_server where
  "mirror_state = ServeHTTP mirror_env (Some 7) [1] ''a'' \<lparr>sv_manager = NewManager\<lparr>mg_phpForward := Some demo_php\<rparr>, sv_pumps = []\<rparr>"

definition no_callbacks :: ws_callbacks where
  "no_callbacks = \<lparr>onConnect = None, onMessage = None, onClose = None, onError = None\<rparr>"


subsection \<open>Replies\<close>

text \<open>
  The frame that \<^verbatim>\<open>Connection::send\<close> writes is the one the manager would make of the same message, so
  that a reply which PHP sends to a connection is written to that client and to nobody else.
\<close>

definition reads_streams :: "(StreamHeader, 'u) unmarshaller \<Rightarrow> bool" where
  "reads_streams unmarshal \<longleftrightarrow>
     (\<forall>h. length (stream_bytes h) < 2 ^ 24 \<longrightarrow> unmarshal (bytes_of_string (stream_bytes h)) = Inr h)"

lemma go_stream_frame:
  "go_frame (stream_frame (new_Connection cid) php_TYPE_STREAM_DATA event data) = conn_frame cid event (bytes_of_string data)"
  by (simp add: go_frame_def stream_frame_def new_Connection_def conn_frame_def stream_bytes_def msgpack_map_def
      array_is_list_def php_type_defs frame_type_defs)

lemma php_send_delivered:
  assumes "mg_phpForward m = Some fwd" "writes_streams (we_marshal ev)" "reads_streams (we_unmarshal ev)"
    and "\<And>f. fwd (mg_trace m) f = Inr (Some (go_frame (stream_frame (new_Connection cid) php_TYPE_STREAM_DATA ''message'' data)))"
    and "map_of (mg_clients m) cid = Some r'" "cid \<noteq> ''''"
    and "length (stream_bytes \<lparr>sh_ConnectionID = cid, sh_Event = ''message'', sh_Room = ''''\<rparr>) < 2 ^ 24"
  shows "\<exists>f. HandleMessage ev r message m = Send r' (bytes_of_string data) (emit (Forwarded (Some f)) m)"
proof -
  have "DecodeStreamData (we_unmarshal ev) (conn_frame cid ''message'' (bytes_of_string data)) =
      Inr (\<lparr>sh_ConnectionID = cid, sh_Event = ''message'', sh_Room = ''''\<rparr>, bytes_of_string data)"
    using assms(3,7) by (simp add: DecodeStreamData_def UnmarshalMsgpack_def conn_frame_def reads_streams_def)
  then show ?thesis
    using assms(1,2,4-6) by (auto simp: HandleMessage_def Let_def encode_conn_frame go_stream_frame SendToClient_def)
qed

end
