(* ===== verification/Duration.thy ===== *)
theory Duration
  imports Complex_Main Digits
begin

text \<open>
  The durations of the configuration (\<^verbatim>\<open>config.Duration\<close> in \<^verbatim>\<open>internal/config/config.go\<close>): their YAML form is
  the text of Go's \<^verbatim>\<open>time.ParseDuration\<close> and \<^verbatim>\<open>Duration.String\<close>, which are written out here with the
  64-bit wrap-around of the running sum and the rounding of the floating-point step. A duration is its
  number of nanoseconds.
\<close>

subsection \<open>Floating point\<close>

text \<open>
  Rounding of a rational to 53 significant bits, ties to even. The range of the exponent is not bounded:
  below it and above it the step that uses the result gives 0 all the same.
\<close>

definition round_even :: "rat \<Rightarrow> int" where
  "round_even q =
     (let n = \<lfloor>q\<rfloor>; r = q - of_int n
      in if r < 1 / 2 then n else if 1 / 2 < r then n + 1 else if even n then n else n + 1)"

definition float_exp :: "rat \<Rightarrow> int" where
  "float_exp q =
     (let (n, d) = quotient_of q; e = int (floor_log2 (nat n)) - int (floor_log2 (nat d)) - 53
      in if 2 ^ 53 \<le> q / 2 powi e then e + 1 else e)"

definition to_float :: "rat \<Rightarrow> rat" where
  "to_float q = (if q = 0 then 0 else of_int (round_even (q / 2 powi float_exp q)) * 2 powi float_exp q)"

lemma round_even_int [simp]: "round_even (of_int n) = n"
  by (simp add: round_even_def Let_def)

lemma to_float_nat:
  assumes "n < 2 ^ 53"
  shows "to_float (of_nat n) = of_nat n"
proof (cases "n = 0")
  case False
  have q: "quotient_of (of_nat n) = (int n, 1)" using quotient_of_int [of "int n"] by simp
  have "floor_log2 n \<le> 52" using assms by (intro floor_log2_le) simp
  moreover have "floor_log2 1 = 0" by (simp add: floor_log2.simps)
  ultimately have e: "float_exp (of_nat n) \<le> 0" by (simp add: float_exp_def q Let_def)
  define k where "k = nat (- float_exp (of_nat n))"
  have k: "float_exp (of_nat n) = - int k" using e by (simp add: k_def)
  have "of_nat n / 2 powi (- int k) = (of_int (int n * 2 ^ k) :: rat)"
    by (simp add: power_int_minus divide_inverse)
  moreover have "round_even (rat_of_nat n * 2 ^ k) = int n * 2 ^ k" using round_even_int [of "int n * 2 ^ k"] by simp
  ultimately show ?thesis using False by (simp add: to_float_def k power_int_minus)
qed (simp add: to_float_def)

subsection \<open>Parsing\<close>

datatype duration_error = InvalidDuration | MissingUnit | UnknownUnit string

definition max_uint63 :: nat where
  "max_uint63 = 2 ^ 63"

fun leadingInt :: "nat \<Rightarrow> string \<Rightarrow> (nat \<times> string) option" where
  "leadingInt x [] = Some (x, [])"
| "leadingInt x (c # s) =
     (if \<not> is_digit c then Some (x, c # s)
      else if x > max_uint63 div 10 then None
      else if x * 10 + digit_val c > max_uint63 then None
      else leadingInt (x * 10 + digit_val c) s)"

fun leadingFraction :: "nat \<Rightarrow> rat \<Rightarrow> bool \<Rightarrow> string \<Rightarrow> nat \<times> rat \<times> string" where
  "leadingFraction x scale overflow [] = (x, scale, [])"
| "leadingFraction x scale overflow (c # s) =
     (if \<not> is_digit c then (x, scale, c # s)
      else if overflow then leadingFraction x scale overflow s
      else if x > (max_uint63 - 1) div 10 then leadingFraction x scale True s
      else if x * 10 + digit_val c > max_uint63 then leadingFraction x scale True s
      else leadingFraction (x * 10 + digit_val c) (to_float (scale * 10)) False s)"

definition unitMap :: "string \<Rightarrow> nat option" where
  "unitMap = map_of [(''ns'', 1), (''us'', 1000), ([CHR 0xC2, CHR 0xB5, CHR ''s''], 1000), ([CHR 0xCE, CHR 0xBC, CHR ''s''], 1000),
     (''ms'', 1000000), (''s'', 1000000000), (''m'', 60000000000), (''h'', 3600000000000)]"

definition unit_char :: "char \<Rightarrow> bool" where
  "unit_char c \<longleftrightarrow> \<not> (c = CHR ''.'' \<or> is_digit c)"

text \<open>\<^verbatim>\<open>uint64(float64(f) * (float64(unit) / scale))\<close>\<close>

definition frac_part :: "nat \<Rightarrow> nat \<Rightarrow> rat \<Rightarrow> nat" where
  "frac_part f unit scale = nat \<lfloor>to_float (to_float (of_nat f) * to_float (to_float (of_nat unit) / scale))\<rfloor>"

text \<open>One element of a duration and what follows it.\<close>

definition parse_element :: "string \<Rightarrow> duration_error + nat \<times> string" where
  "parse_element s =
     (if s = [] \<or> \<not> (hd s = CHR ''.'' \<or> is_digit (hd s)) then Inl InvalidDuration
      else case leadingInt 0 s of
        None \<Rightarrow> Inl InvalidDuration
      | Some (v, s1) \<Rightarrow>
          (let pre = (length s \<noteq> length s1);
               point = (s1 \<noteq> [] \<and> hd s1 = CHR ''.'');
               (f, scale, s2) = (if point then leadingFraction 0 1 False (tl s1) else (0, 1, s1));
               post = (point \<and> length (tl s1) \<noteq> length s2);
               u = takeWhile unit_char s2;
               s3 = dropWhile unit_char s2
           in if \<not> pre \<and> \<not> post then Inl InvalidDuration
              else if u = [] then Inl MissingUnit
              else case unitMap u of
                None \<Rightarrow> Inl (UnknownUnit u)
              | Some unit \<Rightarrow>
                  if v > max_uint63 div unit then Inl InvalidDuration
                  else if f > 0 \<and> v * unit + frac_part f unit scale > max_uint63 then Inl InvalidDuration
                  else Inr (if f > 0 then v * unit + frac_part f unit scale else v * unit, s3)))"

lemma leadingInt_length: "leadingInt x s = Some (v, t) \<Longrightarrow> length t \<le> length s"
  by (induction x s rule: leadingInt.induct) (auto split: if_splits)

lemma leadingFraction_length: "leadingFraction x sc ov s = (f, scale, t) \<Longrightarrow> length t \<le> length s"
  by (induction x sc ov s rule: leadingFraction.induct) (auto split: if_splits)

lemma takeWhile_dropWhile_length: "takeWhile P s \<noteq> [] \<Longrightarrow> length (dropWhile P s) < length s"
  by (induction s) (auto simp: le_imp_less_Suc length_dropWhile_le split: if_splits)

lemma parse_element_shorter: "parse_element s = Inr (v, t) \<Longrightarrow> length t < length s"
proof -
  assume a: "parse_element s = Inr (v, t)"
  then obtain w s1 where w: "leadingInt 0 s = Some (w, s1)" by (auto simp: parse_element_def split: if_splits option.splits)
  obtain f scale s2 where f: "(if s1 \<noteq> [] \<and> hd s1 = CHR ''.'' then leadingFraction 0 1 False (tl s1) else (0, 1, s1)) = (f, scale, s2)"
    by (metis prod_cases3)
  have "length s2 \<le> length s1" using f leadingFraction_length [of 0 1 False "tl s1" f scale s2] by (auto split: if_splits)
  moreover have "t = dropWhile unit_char s2" "takeWhile unit_char s2 \<noteq> []"
    using a w f by (auto simp: parse_element_def Let_def split: if_splits option.splits)
  ultimately show ?thesis using leadingInt_length [OF w] takeWhile_dropWhile_length [of unit_char s2] by simp
qed

text \<open>The sum is a 64-bit integer, and wraps.\<close>

function parse_loop :: "nat \<Rightarrow> string \<Rightarrow> duration_error + nat" where
  "parse_loop d s =
     (if s = [] then Inr d
      else case parse_element s of
        Inl e \<Rightarrow> Inl e
      | Inr (v, s') \<Rightarrow>
          if (d + v) mod 2 ^ 64 > max_uint63 then Inl InvalidDuration
          else parse_loop ((d + v) mod 2 ^ 64) s')"
  by pat_completeness auto
termination
  by (relation "measure (\<lambda>(d, s). length s)") (auto dest: parse_element_shorter)

declare parse_loop.simps [simp del]

definition ParseDuration :: "string \<Rightarrow> duration_error + int" where
  "ParseDuration orig =
     (let signed = (orig \<noteq> [] \<and> (hd orig = CHR ''-'' \<or> hd orig = CHR ''+''));
          neg = (orig \<noteq> [] \<and> hd orig = CHR ''-'');
          s = (if signed then tl orig else orig)
      in if s = ''0'' then Inr 0
         else if s = '''' then Inl InvalidDuration
         else case parse_loop 0 s of
           Inl e \<Rightarrow> Inl e
         | Inr d \<Rightarrow>
             if neg then Inr (- int d)
             else if d > max_uint63 - 1 then Inl InvalidDuration
             else Inr (int d))"

subsection \<open>Printing\<close>

fun fmtFrac :: "nat \<Rightarrow> nat \<Rightarrow> bool \<Rightarrow> string \<Rightarrow> nat \<times> string" where
  "fmtFrac 0 v pr buf = (v, if pr then CHR ''.'' # buf else buf)"
| "fmtFrac (Suc i) v pr buf =
     (let digit = v mod 10; pr = (pr \<or> digit \<noteq> 0)
      in fmtFrac i (v div 10) pr (if pr then digit_char digit # buf else buf))"

definition format_abs :: "nat \<Rightarrow> string" where
  "format_abs u =
     (if u < 1000000000 then
        (if u = 0 then ''0s''
         else
           (let (prec, suffix) = (if u < 1000 then (0, ''ns'')
                                  else if u < 1000000 then (3, [CHR 0xC2, CHR 0xB5, CHR ''s''])
                                  else (6, ''ms''));
                (u, buf) = fmtFrac prec u False suffix
            in show_nat u @ buf))
      else
        (let (u, buf) = fmtFrac 9 u False ''s'';
             buf = show_nat (u mod 60) @ buf;
             u = u div 60
         in if u = 0 then buf
            else (let buf = show_nat (u mod 60) @ ''m'' @ buf; u = u div 60
                  in if u = 0 then buf else show_nat u @ ''h'' @ buf)))"

definition Duration_String :: "int \<Rightarrow> string" where
  "Duration_String d = (if d < 0 then CHR ''-'' # format_abs (nat (- d)) else format_abs (nat d))"

subsection \<open>The YAML form\<close>

text \<open>Decoding a YAML node into a string is the library's; a failure leaves the duration as it was.\<close>

datatype 'e unmarshal_error = NotAString 'e | BadDuration string duration_error

definition Duration_UnmarshalYAML :: "('n \<Rightarrow> 'e + string) \<Rightarrow> 'n \<Rightarrow> int \<Rightarrow> 'e unmarshal_error option \<times> int" where
  "Duration_UnmarshalYAML node_decode value d =
     (case node_decode value of
        Inl err \<Rightarrow> (Some (NotAString err), d)
      | Inr s \<Rightarrow>
          (case ParseDuration s of
             Inl err \<Rightarrow> (Some (BadDuration s err), d)
           | Inr parsed \<Rightarrow> (None, parsed)))"

definition Duration_MarshalYAML :: "int \<Rightarrow> string" where
  "Duration_MarshalYAML d = Duration_String d"

definition Duration_Duration :: "int \<Rightarrow> int" where
  "Duration_Duration d = d"

subsection \<open>Reading back what was printed\<close>

fun fixed_digits :: "nat \<Rightarrow> nat \<Rightarrow> string" where
  "fixed_digits 0 v = []"
| "fixed_digits (Suc i) v = fixed_digits i (v div 10) @ [digit_char (v mod 10)]"

lemma fixed_digits_props:
  "length (fixed_digits i v) = i" "list_all is_digit (fixed_digits i v)" "read_nat (fixed_digits i v) = v mod 10 ^ i"
  by (induction i arbitrary: v) (simp_all add: read_nat_snoc mod_mult2_eq, simp add: read_nat_def)

lemma fmtFrac_True: "fmtFrac i v True buf = (v div 10 ^ i, CHR ''.'' # fixed_digits i v @ buf)"
  by (induction i arbitrary: v buf) (simp_all add: div_mult2_eq)

text \<open>The fraction that is printed: nothing, or digits that stand for the part below the point.\<close>

definition frac_text :: "nat \<Rightarrow> nat \<Rightarrow> string \<Rightarrow> bool" where
  "frac_text i v t \<longleftrightarrow>
     (t = [] \<and> v mod 10 ^ i = 0) \<or>
     (\<exists>ds. t = CHR ''.'' # ds \<and> list_all is_digit ds \<and> 0 < length ds \<and> length ds \<le> i \<and> read_nat ds * 10 ^ (i - length ds) = v mod 10 ^ i \<and>
        0 < read_nat ds)"

lemma fmtFrac_False: "\<exists>t. fmtFrac i v False buf = (v div 10 ^ i, t @ buf) \<and> frac_text i v t"
proof (induction i arbitrary: v)
  case (Suc i)
  show ?case
  proof (cases "v mod 10 = 0")
    case True
    from Suc.IH [of "v div 10"] obtain t where t: "fmtFrac i (v div 10) False buf = (v div 10 div 10 ^ i, t @ buf)"
      "frac_text i (v div 10) t" by blast
    have "v mod 10 ^ Suc i = v div 10 mod 10 ^ i * 10" using True mod_mult2_eq [of v 10 "10 ^ i"] by simp
    then have "frac_text (Suc i) v t" using t(2) by (auto simp: frac_text_def Suc_diff_le)
    then show ?thesis using True t(1) by (auto simp: div_mult2_eq)
  next
    case False
    then have "fmtFrac (Suc i) v False buf = (v div 10 ^ Suc i, (CHR ''.'' # fixed_digits (Suc i) v) @ buf)"
      by (simp add: fmtFrac_True div_mult2_eq)
    moreover have "v mod 10 ^ Suc i mod 10 = v mod 10" by (rule mod_mod_cancel) simp
    then have "0 < v mod 10 ^ Suc i" using False by (intro gr0I) simp
    then have "frac_text (Suc i) v (CHR ''.'' # fixed_digits (Suc i) v)"
      using fixed_digits_props [of "Suc i" v] unfolding frac_text_def by (intro disjI2 exI [of _ "fixed_digits (Suc i) v"]) simp
    ultimately show ?thesis by blast
  qed
qed (simp add: frac_text_def)

lemma leadingInt_digits:
  assumes "list_all is_digit ds" "t = [] \<or> \<not> is_digit (hd t)" "foldl (\<lambda>x c. x * 10 + digit_val c) x ds \<le> max_uint63"
  shows "leadingInt x (ds @ t) = Some (foldl (\<lambda>x c. x * 10 + digit_val c) x ds, t)"
  using assms(1,3)
proof (induction ds arbitrary: x)
  case Nil
  then show ?case using assms(2) by (cases t) auto
next
  case (Cons c ds)
  have mono: "y \<le> foldl (\<lambda>x c. x * 10 + digit_val c) y cs" for y and cs :: string
  proof (induction cs arbitrary: y)
    case (Cons a cs)
    from Cons.IH [of "y * 10 + digit_val a"] show ?case by simp
  qed simp
  from mono [of "x * 10 + digit_val c" ds] have "x * 10 + digit_val c \<le> max_uint63" using Cons.prems(2) by simp
  moreover from this have "x \<le> max_uint63 div 10" by simp
  ultimately show ?case using Cons by simp
qed

lemma leadingInt_show: "n \<le> max_uint63 \<Longrightarrow> t = [] \<or> \<not> is_digit (hd t) \<Longrightarrow> leadingInt 0 (show_nat n @ t) = Some (n, t)"
  using leadingInt_digits [of "show_nat n" t 0] read_show_nat [of n] by (simp add: read_nat_def)

lemma read_nat_less: "list_all is_digit ds \<Longrightarrow> read_nat ds < 10 ^ length ds"
proof (induction ds rule: rev_induct)
  case (snoc c ds)
  then show ?case using is_digit_char(2) [of c] by (simp add: read_nat_snoc)
qed (simp add: read_nat_def)

lemma leadingFraction_digits:
  assumes "list_all is_digit ds" "t = [] \<or> \<not> is_digit (hd t)" "length ds + k \<le> 15" "x < 10 ^ k"
  shows "leadingFraction x (10 ^ k) False (ds @ t) = (foldl (\<lambda>x c. x * 10 + digit_val c) x ds, 10 ^ (k + length ds), t)"
  using assms(1,3,4)
proof (induction ds arbitrary: x k)
  case Nil
  then show ?case using assms(2) by (cases t) auto
next
  case (Cons c ds)
  have d: "digit_val c < 10" using Cons.prems(1) is_digit_char by simp
  have x: "x * 10 + digit_val c < 10 ^ Suc k" using d Cons.prems(3) by simp
  have k: "(10 :: nat) ^ Suc k \<le> 10 ^ 15" using Cons.prems(2) by (intro power_increasing) auto
  have "to_float (of_nat (10 ^ Suc k)) = of_nat (10 ^ Suc k)" using k by (intro to_float_nat) simp
  then have "to_float (10 ^ k * 10) = 10 ^ Suc k" by (simp add: mult.commute)
  then show ?case using Cons.IH [of "Suc k" "x * 10 + digit_val c"] Cons.prems x k by (auto simp: max_uint63_def)
qed

lemma frac_part_exact:
  assumes "f * 10 ^ (i - n) < 2 ^ 53" "n \<le> i" "i \<le> 15" "f < 2 ^ 53"
  shows "frac_part f (10 ^ i) (10 ^ n) = f * 10 ^ (i - n)"
proof -
  have p: "(10 :: nat) ^ i \<le> 10 ^ 15" "(10 :: nat) ^ (i - n) \<le> 10 ^ 15" using assms(2,3) by (intro power_increasing; simp)+
  have "(10 :: rat) ^ i = 10 ^ (i - n) * 10 ^ n" using assms(2) by (simp flip: power_add)
  then have "to_float (of_nat (10 ^ i)) / 10 ^ n = of_nat (10 ^ (i - n))"
    using p(1) by (subst to_float_nat) auto
  moreover have "to_float (of_nat (10 ^ (i - n))) = of_nat (10 ^ (i - n))" using p(2) by (intro to_float_nat) simp
  moreover have "to_float (of_nat f) = of_nat f" using assms(4) by (rule to_float_nat)
  moreover have "to_float (of_nat (f * 10 ^ (i - n))) = of_nat (f * 10 ^ (i - n))" using assms(1) by (rule to_float_nat)
  ultimately have "frac_part f (10 ^ i) (10 ^ n) = nat \<lfloor>rat_of_nat (f * 10 ^ (i - n))\<rfloor>" by (simp add: frac_part_def)
  then show ?thesis by (simp only: floor_of_nat nat_int)
qed

lemma unit_chars:
  assumes "list_all unit_char u" "rest = [] \<or> is_digit (hd rest)"
  shows "takeWhile unit_char (u @ rest) = u" "dropWhile unit_char (u @ rest) = rest"
proof -
  have "rest = [] \<or> \<not> unit_char (hd rest)" using assms(2) by (auto simp: unit_char_def)
  then show "takeWhile unit_char (u @ rest) = u" "dropWhile unit_char (u @ rest) = rest"
    using assms(1) by (cases rest; auto simp: list_all_iff takeWhile_append dropWhile_append takeWhile_eq_all_conv dropWhile_eq_Nil_conv)+
qed

lemma not_digit_unit: "list_all unit_char u \<Longrightarrow> u \<noteq> [] \<Longrightarrow> \<not> is_digit (hd (u @ rest)) \<and> hd (u @ rest) \<noteq> CHR ''.''"
  by (cases u) (auto simp: unit_char_def)

lemma parse_element_int:
  assumes "unitMap u = Some unit" "list_all unit_char u" "u \<noteq> []" "rest = [] \<or> is_digit (hd rest)" "n \<le> max_uint63 div unit" "0 < unit"
  shows "parse_element (show_nat n @ u @ rest) = Inr (n * unit, rest)"
proof -
  have n: "n \<le> max_uint63" using assms(5) div_le_dividend order_trans by blast
  have h: "hd (show_nat n @ u @ rest) = hd (show_nat n)" by simp
  note nd = not_digit_unit [OF assms(2,3), of rest]
  have "leadingInt 0 (show_nat n @ u @ rest) = Some (n, u @ rest)" using nd by (intro leadingInt_show n) auto
  then show ?thesis
    using nd unit_chars [OF assms(2,4)] assms(1,3,5) hd_show_nat_digit [of n] unfolding parse_element_def h by simp
qed

lemma parse_element_frac:
  assumes "unitMap u = Some (10 ^ i)" "list_all unit_char u" "u \<noteq> []" "rest = [] \<or> is_digit (hd rest)" "i \<le> 9"
    and "frac_text i v t" "n * 10 ^ i + v mod 10 ^ i \<le> max_uint63"
  shows "parse_element (show_nat n @ t @ u @ rest) = Inr (n * 10 ^ i + v mod 10 ^ i, rest)"
proof -
  have n: "n \<le> max_uint63 div 10 ^ i" using assms(7) by (simp add: less_eq_div_iff_mult_less_eq)
  show ?thesis
  proof (cases "t = []")
    case True
    then show ?thesis using parse_element_int [OF assms(1-4) n] assms(6) by (simp add: frac_text_def)
  next
    case False
    then obtain ds where t: "t = CHR ''.'' # ds" "list_all is_digit ds" "0 < length ds" "length ds \<le> i"
      "read_nat ds * 10 ^ (i - length ds) = v mod 10 ^ i" "0 < read_nat ds"
      using assms(6) by (auto simp: frac_text_def)
    have n': "n \<le> max_uint63" using n div_le_dividend order_trans by blast
    have h: "hd (show_nat n @ t @ u @ rest) = hd (show_nat n)" by simp
    note nd = not_digit_unit [OF assms(2,3), of rest]
    have 1: "leadingInt 0 (show_nat n @ t @ u @ rest) = Some (n, t @ u @ rest)" by (intro leadingInt_show n') (simp add: t(1))
    have 2: "leadingFraction 0 1 False (ds @ u @ rest) = (read_nat ds, 10 ^ length ds, u @ rest)"
      using leadingFraction_digits [of ds "u @ rest" 0 0] t(2,4) nd assms(5) by (simp add: read_nat_def)
    have p: "(10 :: nat) ^ i \<le> 10 ^ 9" "(10 :: nat) ^ length ds \<le> 10 ^ 9" using assms(5) t(4) by (intro power_increasing; simp)+
    have "v mod 10 ^ i < 10 ^ i" by simp
    then have lt: "read_nat ds < 2 ^ 53" "v mod 10 ^ i < 2 ^ 53"
      using read_nat_less [OF t(2)] p by (simp_all del: mod_less_divisor)
    have 3: "frac_part (read_nat ds) (10 ^ i) (10 ^ length ds) = v mod 10 ^ i"
      using frac_part_exact [of "read_nat ds" i "length ds"] t(4,5) lt assms(5) by simp
    show ?thesis
      using 1 2 3 t(1,3,6) nd unit_chars [OF assms(2,4)] assms(1,3,7) n hd_show_nat_digit [of n]
      unfolding parse_element_def h by (simp add: Let_def)
  qed
qed

lemma units [simp]:
  "unitMap ''ns'' = Some 1" "unitMap [CHR 0xC2, CHR 0xB5, CHR ''s''] = Some 1000" "unitMap ''ms'' = Some 1000000"
  "unitMap ''s'' = Some 1000000000" "unitMap ''m'' = Some 60000000000" "unitMap ''h'' = Some 3600000000000"
  "unit_char CHR ''n''" "unit_char CHR ''s''" "unit_char CHR ''m''" "unit_char CHR ''h''" "unit_char CHR 0xC2" "unit_char CHR 0xB5"
  by (simp_all add: unitMap_def unit_char_def is_digit_def)

lemma parse_loop_step:
  assumes "parse_element s = Inr (v, s')" "d + v \<le> max_uint63"
  shows "parse_loop d s = parse_loop (d + v) s'"
proof -
  have "(d + v) mod 2 ^ 64 = d + v" using assms(2) by (simp add: max_uint63_def)
  moreover have "s \<noteq> []" using parse_element_shorter [OF assms(1)] by auto
  ultimately show ?thesis using assms by (subst parse_loop.simps) simp
qed

lemma parse_loop_frac:
  assumes "unitMap u = Some (10 ^ i)" "list_all unit_char u" "u \<noteq> []" "i \<le> 9" "d + v \<le> max_uint63" "frac_text i v t"
  shows "parse_loop d (show_nat (v div 10 ^ i) @ t @ u) = Inr (d + v)"
proof -
  have v: "v div 10 ^ i * 10 ^ i + v mod 10 ^ i = v" by (rule div_mult_mod_eq)
  have "parse_element (show_nat (v div 10 ^ i) @ t @ u @ []) = Inr (v div 10 ^ i * 10 ^ i + v mod 10 ^ i, [])"
    using assms by (intro parse_element_frac) (auto simp: v)
  then have "parse_loop d (show_nat (v div 10 ^ i) @ t @ u) = parse_loop (d + v) []"
    using assms(5) unfolding v by (intro parse_loop_step) simp_all
  then show ?thesis by (simp add: parse_loop.simps)
qed

lemma parse_loop_int:
  assumes "unitMap u = Some unit" "list_all unit_char u" "u \<noteq> []" "is_digit (hd rest)" "0 < unit" "d + n * unit \<le> max_uint63"
  shows "parse_loop d (show_nat n @ u @ rest) = parse_loop (d + n * unit) rest"
proof -
  have "n \<le> max_uint63 div unit" using assms(5,6) by (simp add: less_eq_div_iff_mult_less_eq)
  then show ?thesis using assms by (intro parse_loop_step parse_element_int) auto
qed

lemma hd_show_append [simp]: "is_digit (hd (show_nat n @ s))"
  by simp

text \<open>The seconds and what is before them.\<close>

lemma parse_format_seconds:
  assumes "1000000000 \<le> u" "u \<le> max_uint63"
  shows "parse_loop 0 (format_abs u) = Inr u"
proof -
  define secs where "secs = u div 10 ^ 9"
  obtain t where t: "fmtFrac 9 u False ''s'' = (secs, t @ ''s'')" "frac_text 9 u t"
    using fmtFrac_False [of 9 u "''s''"] by (auto simp: secs_def)
  define v where "v = secs mod 60 * 10 ^ 9 + u mod 10 ^ 9"
  have vd: "v div 10 ^ 9 = secs mod 60" "v mod 10 ^ 9 = u mod 10 ^ 9" by (simp_all add: v_def)
  have ft: "frac_text 9 v t" using t(2) unfolding frac_text_def vd(2) .
  have split: "u = secs div 60 * 60000000000 + v"
  proof -
    have "u = secs * 10 ^ 9 + u mod 10 ^ 9" by (simp add: secs_def)
    also have "secs * 10 ^ 9 = secs div 60 * 60000000000 + secs mod 60 * 10 ^ 9"
      by (subst (1) div_mult_mod_eq [of secs 60, symmetric]) (simp only: add_mult_distrib mult.assoc, simp)
    finally show ?thesis by (simp add: v_def)
  qed
  have last: "parse_loop d (show_nat (secs mod 60) @ t @ ''s'') = Inr (d + v)" if "d + v \<le> max_uint63" for d
    using parse_loop_frac [of "''s''" 9 d v t] that ft vd by simp
  have F: "format_abs u = (let buf = show_nat (secs mod 60) @ t @ ''s''; w = secs div 60
      in if w = 0 then buf
         else (let buf = show_nat (w mod 60) @ ''m'' @ buf; w = w div 60 in if w = 0 then buf else show_nat w @ ''h'' @ buf))"
    using assms(1) by (simp add: format_abs_def t Let_def)
  define w where "w = secs div 60"

  have mins: "parse_loop d (show_nat (w mod 60) @ ''m'' @ show_nat (secs mod 60) @ t @ ''s'') = Inr (d + w mod 60 * 60000000000 + v)"
    if "d + w mod 60 * 60000000000 + v \<le> max_uint63" for d
    using parse_loop_int [of "''m''" 60000000000 "show_nat (secs mod 60) @ t @ ''s''" d "w mod 60"] last that by simp
  consider "w = 0" | "w \<noteq> 0" "w div 60 = 0" | "w div 60 \<noteq> 0" by blast
  then show ?thesis
  proof cases
    case 1
    have "format_abs u = show_nat (secs mod 60) @ t @ ''s''" unfolding F Let_def w_def [symmetric] 1 by simp
    moreover have "u = v" using split 1 by (simp add: w_def)
    ultimately show ?thesis using last [of 0] assms(2) by simp
  next
    case 2
    then have "w mod 60 = w" using div_mult_mod_eq [of w 60] 2(2) by simp
    moreover have "format_abs u = show_nat (w mod 60) @ ''m'' @ show_nat (secs mod 60) @ t @ ''s''"
      unfolding F Let_def w_def [symmetric] 2(2) using 2(1) by simp
    moreover have "u = w * 60000000000 + v" using split by (simp add: w_def)
    ultimately show ?thesis using mins [of 0] assms(2) by simp
  next
    case 3
    have "w * 60000000000 = w div 60 * 3600000000000 + w mod 60 * 60000000000"
      using div_mult_mod_eq [of w 60] by linarith
    then have s: "u = w div 60 * 3600000000000 + w mod 60 * 60000000000 + v" using split unfolding w_def [symmetric] by simp
    have "w \<noteq> 0" using 3 by (intro notI) simp
    then have "format_abs u = show_nat (w div 60) @ ''h'' @ show_nat (w mod 60) @ ''m'' @ show_nat (secs mod 60) @ t @ ''s''"
      using 3 unfolding F Let_def w_def [symmetric] by simp
    then show ?thesis
      using assms(2) s mins [of "w div 60 * 3600000000000"]
        parse_loop_int [of "''h''" 3600000000000 "show_nat (w mod 60) @ ''m'' @ show_nat (secs mod 60) @ t @ ''s''" 0 "w div 60"]
      by simp
  qed
qed

lemma pow9: "(1000000000 :: nat) = 10 ^ 9"
  by simp

lemma parse_format_small:
  assumes "u < 1000000000"
  shows "parse_loop 0 (format_abs u) = Inr u"
proof -
  have le: "0 + u \<le> max_uint63" using assms by (simp add: max_uint63_def)
  have part: "parse_loop 0 (show_nat (fst (fmtFrac i u False s)) @ snd (fmtFrac i u False s)) = Inr u"
    if "unitMap s = Some (10 ^ i)" "list_all unit_char s" "s \<noteq> []" "i \<le> 9" for i s
  proof -
    obtain t where "fmtFrac i u False s = (u div 10 ^ i, t @ s)" "frac_text i u t" using fmtFrac_False by blast
    then show ?thesis using parse_loop_frac [OF that le] by simp
  qed
  have "frac_text 9 0 []" by (simp add: frac_text_def)
  then have "parse_loop 0 ''0s'' = Inr 0"
    using parse_loop_frac [OF units(4) [unfolded pow9], of 0 0 "[]"] by (simp add: max_uint63_def)
  then show ?thesis
    using assms part [of "''ns''" 0] part [of "[CHR 0xC2, CHR 0xB5, CHR ''s'']" 3] part [of "''ms''" 6]
    by (auto simp: format_abs_def split_beta)
qed

lemma parse_format: "u \<le> max_uint63 \<Longrightarrow> parse_loop 0 (format_abs u) = Inr u"
  using parse_format_small parse_format_seconds by (meson not_le)

lemma format_abs_shape: "\<exists>n s. s \<noteq> [] \<and> format_abs u = show_nat n @ s"
proof -
  have f: "\<exists>n t. fmtFrac i u False s = (n, t @ s)" for i s using fmtFrac_False [of i u s] by blast
  obtain n0 t0 n3 t3 n6 t6 n9 t9 where "fmtFrac 0 u False ''ns'' = (n0, t0 @ ''ns'')"
    "fmtFrac 3 u False [CHR 0xC2, CHR 0xB5, CHR ''s''] = (n3, t3 @ [CHR 0xC2, CHR 0xB5, CHR ''s''])"
    "fmtFrac 6 u False ''ms'' = (n6, t6 @ ''ms'')" "fmtFrac 9 u False ''s'' = (n9, t9 @ ''s'')"
    using f [of 0 "''ns''"] f [of 3 "[CHR 0xC2, CHR 0xB5, CHR ''s'']"] f [of 6 "''ms''"] f [of 9 "''s''"] by blast
  note fmts = this
  show ?thesis
  proof (cases "u = 0")
    case True
    then show ?thesis by (intro exI [of _ 0] exI [of _ "''s''"]) (simp add: format_abs_def)
  next
    case False
    then show ?thesis unfolding format_abs_def Let_def fmts prod.case by (auto simp: fmts simp del: fmtFrac.simps)
  qed
qed

lemma parse_String:
  "ParseDuration (Duration_String (sint (d :: 64 word))) = Inr (sint d)"
proof -
  have b: "- (2 ^ 63) \<le> sint d" "sint d < 2 ^ 63" using sint_greater_eq [of d] sint_less [of d] by simp_all
  define u where "u = nat \<bar>sint d\<bar>"
  obtain n s where s: "s \<noteq> []" "format_abs u = show_nat n @ s" using format_abs_shape by blast
  obtain c cs where c: "show_nat n = c # cs" "is_digit c" using hd_show_nat_digit [of n] by (cases "show_nat n") auto
  have shape: "format_abs u \<noteq> ''0''" "hd (format_abs u) \<noteq> CHR ''-''" "hd (format_abs u) \<noteq> CHR ''+''" "format_abs u \<noteq> []"
    using s c by auto
  have u: "u \<le> max_uint63" using b by (simp add: u_def max_uint63_def)
  note p = parse_format [OF u]
  show ?thesis
  proof (cases "sint d < 0")
    case True
    then have "Duration_String (sint d) = CHR ''-'' # format_abs u" by (simp add: Duration_String_def u_def)
    then show ?thesis using p shape True by (simp add: ParseDuration_def u_def)
  next
    case False
    then have "Duration_String (sint d) = format_abs u" "u < max_uint63"
      using b by (auto simp: Duration_String_def u_def max_uint63_def nat_less_iff)
    then show ?thesis using p shape False by (simp add: ParseDuration_def u_def)
  qed
qed



subsection \<open>Properties\<close>

text \<open>
  C29: A duration survives the configuration file. Reading back the YAML string that is written for a
  duration gives the duration, for every 64-bit number of nanoseconds, negative ones and both limits
  included: the floating-point arithmetic of the parser is exact on such texts, and neither a product
  nor the running sum overflows.
\<close>
theorem duration_yaml_roundtrip:
  "Duration_UnmarshalYAML Inr (Duration_MarshalYAML (sint (d :: 64 word))) old = (None, Duration_Duration (sint d))"
  by (simp add: Duration_UnmarshalYAML_def Duration_MarshalYAML_def Duration_Duration_def parse_String)

end
