(* ===== verification/Watcher.thy ===== *)
theory Watcher
  imports GoStrings GoMap
begin

text \<open>
  The file watcher (\<^verbatim>\<open>internal/pool/watcher.go\<close>). A snapshot of the file system gives the tree under
  each watched directory: files with their modification times, directories with their entries in the
  order in which they are read, directories that cannot be read and entries that vanished.
  \<open>Walk\<close> is \<^verbatim>\<open>filepath.Walk\<close> for callbacks that return nil or \<^verbatim>\<open>SkipDir\<close>. The watcher is shown to
  call back exactly at the ticks at which a watched file appeared, disappeared or became newer since
  the tick before.
\<close>

subsection \<open>Walking a directory tree\<close>

datatype node = File int | Dir "(string \<times> node) list" | Unreadable | Gone

type_synonym snapshot = "string \<Rightarrow> node option"

record FileInfo =
  fi_Name :: string
  fi_IsDir :: bool
  fi_ModTime :: int

text \<open>A callback gets the path and the information, nothing in case of an error; true is \<^verbatim>\<open>SkipDir\<close>.\<close>

type_synonym 's walk_fn = "string \<Rightarrow> FileInfo option \<Rightarrow> 's \<Rightarrow> bool \<times> 's"

fun is_dir :: "node \<Rightarrow> bool" where
  "is_dir (Dir es) = True"
| "is_dir Unreadable = True"
| "is_dir (File t) = False"
| "is_dir Gone = False"

fun walk :: "'s walk_fn \<Rightarrow> string \<Rightarrow> string \<Rightarrow> node \<Rightarrow> 's \<Rightarrow> bool \<times> 's"
  and walk_entries :: "'s walk_fn \<Rightarrow> string \<Rightarrow> (string \<times> node) list \<Rightarrow> 's \<Rightarrow> bool \<times> 's" where
  "walk fn path name (File t) s = fn path (Some \<lparr>fi_Name = name, fi_IsDir = False, fi_ModTime = t\<rparr>) s"
| "walk fn path name Unreadable s = fn path None s"
| "walk fn path name Gone s = (False, snd (fn path None s))"
| "walk fn path name (Dir es) s =
     (case fn path (Some \<lparr>fi_Name = name, fi_IsDir = True, fi_ModTime = 0\<rparr>) s of
        (True, s) \<Rightarrow> (True, s)
      | (False, s) \<Rightarrow> walk_entries fn path es s)"
| "walk_entries fn path [] s = (False, s)"
| "walk_entries fn path ((name, nd) # es) s =
     (case walk fn (Join [path, name]) name nd s of
        (skip, s) \<Rightarrow> if skip \<and> \<not> is_dir nd then (True, s) else walk_entries fn path es s)"

definition basename :: "string \<Rightarrow> string" where
  "basename name =
     (let trimmed = rev (dropWhile (\<lambda>c. c = CHR ''/'') (rev name))
      in if trimmed = [] then take 1 name else last (split_at CHR ''/'' trimmed))"

definition Walk :: "snapshot \<Rightarrow> 's walk_fn \<Rightarrow> string \<Rightarrow> 's \<Rightarrow> 's" where
  "Walk fs fn root s =
     (case fs root of
        None \<Rightarrow> snd (fn root None s)
      | Some nd \<Rightarrow> snd (walk fn root (basename root) nd s))"

subsection \<open>The watcher\<close>

record Watcher =
  wa_dirs :: "string list"
  wa_exts :: "string list"
  wa_interval :: int
  wa_cancelled :: bool
  wa_mtimes :: "(string, int) go_map"

definition NewWatcher :: "string list \<Rightarrow> int \<Rightarrow> Watcher" where
  "NewWatcher dirs interval =
     \<lparr>wa_dirs = dirs, wa_exts = [''.php'', ''.inc'', ''.phtml''], wa_interval = interval,
      wa_cancelled = False, wa_mtimes = []\<rparr>"

definition isWatchedFile :: "string list \<Rightarrow> string \<Rightarrow> bool" where
  "isWatchedFile exts path \<longleftrightarrow> ToLower (Ext path) \<in> set exts"

definition skipped_dirs :: "string list" where
  "skipped_dirs = [''vendor'', ''node_modules'', ''.git'']"

text \<open>
  The two walks of the watcher have the same guards (errors ignored, three directories skipped, other
  directories entered, only watched files looked at) and differ in what they do with a watched file.
\<close>

definition watched_fn :: "string list \<Rightarrow> (string \<Rightarrow> int \<Rightarrow> 's \<Rightarrow> 's) \<Rightarrow> 's walk_fn" where
  "watched_fn exts visit path info s =
     (case info of
        None \<Rightarrow> (False, s)
      | Some i \<Rightarrow>
          if fi_IsDir i then (fi_Name i \<in> set skipped_dirs, s)
          else (False, if isWatchedFile exts path then visit path (fi_ModTime i) s else s))"

definition scan :: "snapshot \<Rightarrow> Watcher \<Rightarrow> Watcher" where
  "scan fs w =
     w\<lparr>wa_mtimes := fold (Walk fs (watched_fn (wa_exts w) AList.update)) (wa_dirs w) (wa_mtimes w)\<rparr>"

definition detect_file :: "(string, int) go_map \<Rightarrow> string \<Rightarrow> int \<Rightarrow> bool \<times> (string, int) go_map \<Rightarrow>
    bool \<times> (string, int) go_map" where
  "detect_file mtimes path t = (\<lambda>(changed, currentFiles).
     (case map_of mtimes path of Some oldTime \<Rightarrow> if oldTime < t then True else changed | None \<Rightarrow> True,
      AList.update path t currentFiles))"

definition detectChanges :: "snapshot \<Rightarrow> Watcher \<Rightarrow> bool \<times> Watcher" where
  "detectChanges fs w =
     (let (changed, currentFiles) =
            fold (Walk fs (watched_fn (wa_exts w) (detect_file (wa_mtimes w)))) (wa_dirs w) (False, []);
          changed = fold (\<lambda>(path, _) changed. if map_of currentFiles path = None then True else changed)
            (wa_mtimes w) changed
      in (changed, w\<lparr>wa_mtimes := currentFiles\<rparr>))"

definition Watcher_Stop :: "Watcher \<Rightarrow> Watcher" where
  "Watcher_Stop w = w\<lparr>wa_cancelled := True\<rparr>"

text \<open>
  What the goroutine of \<open>Start\<close> meets: a tick at which the file system looks a certain way, a call of
  \<open>Stop\<close>, or the choice of the \<^verbatim>\<open>ctx.Done()\<close> case, possible once \<open>Stop\<close> was called. The result says for
  each tick whether \<^verbatim>\<open>onChange\<close> was called.
\<close>

datatype watch_event = Tick snapshot | StopCalled | Done

fun watch_loop :: "watch_event list \<Rightarrow> Watcher \<Rightarrow> bool list" where
  "watch_loop [] w = []"
| "watch_loop (Tick fs # es) w =
     (let (changed, w) = detectChanges fs w in changed # watch_loop es w)"
| "watch_loop (StopCalled # es) w = watch_loop es (Watcher_Stop w)"
| "watch_loop (Done # es) w = (if wa_cancelled w then [] else watch_loop es w)"

definition Watcher_Start :: "snapshot \<Rightarrow> watch_event list \<Rightarrow> Watcher \<Rightarrow> bool list" where
  "Watcher_Start fs es w = watch_loop es (scan fs w)"

subsection \<open>Which files are watched\<close>

text \<open>The reference: a file with a watched extension, on whose way no skipped directory lies.\<close>

inductive watched_in :: "string list \<Rightarrow> string \<Rightarrow> string \<Rightarrow> node \<Rightarrow> string \<Rightarrow> int \<Rightarrow> bool" for exts where
  leaf: "isWatchedFile exts path \<Longrightarrow> watched_in exts path name (File t) path t"
| entry: "name \<notin> set skipped_dirs \<Longrightarrow> (n, nd) \<in> set es \<Longrightarrow> watched_in exts (Join [path, n]) n nd p t \<Longrightarrow>
    watched_in exts path name (Dir es) p t"

inductive_simps watched_in_simps:
  "watched_in exts path name (File t) p t'"
  "watched_in exts path name (Dir es) p t'"
  "watched_in exts path name Unreadable p t'"
  "watched_in exts path name Gone p t'"

definition watched :: "Watcher \<Rightarrow> snapshot \<Rightarrow> string \<Rightarrow> int \<Rightarrow> bool" where
  "watched w fs p t \<longleftrightarrow>
     (\<exists>d nd. d \<in> set (wa_dirs w) \<and> fs d = Some nd \<and> watched_in (wa_exts w) d (basename d) nd p t)"

text \<open>The files in the order in which the walk meets them.\<close>

fun files_in :: "string list \<Rightarrow> string \<Rightarrow> string \<Rightarrow> node \<Rightarrow> (string \<times> int) list"
  and files_of :: "string list \<Rightarrow> string \<Rightarrow> (string \<times> node) list \<Rightarrow> (string \<times> int) list" where
  "files_in exts path name (File t) = (if isWatchedFile exts path then [(path, t)] else [])"
| "files_in exts path name Unreadable = []"
| "files_in exts path name Gone = []"
| "files_in exts path name (Dir es) = (if name \<in> set skipped_dirs then [] else files_of exts path es)"
| "files_of exts path [] = []"
| "files_of exts path ((n, nd) # es) = files_in exts (Join [path, n]) n nd @ files_of exts path es"

definition files :: "Watcher \<Rightarrow> snapshot \<Rightarrow> (string \<times> int) list" where
  "files w fs = concat (map (\<lambda>d. case fs d of None \<Rightarrow> [] | Some nd \<Rightarrow> files_in (wa_exts w) d (basename d) nd) (wa_dirs w))"

lemma walk_watched:
  "walk (watched_fn exts visit) path name nd s =
     (is_dir nd \<and> nd \<noteq> Unreadable \<and> name \<in> set skipped_dirs,
      fold (\<lambda>(p, t). visit p t) (files_in exts path name nd) s)"
  "walk_entries (watched_fn exts visit) path es s = (False, fold (\<lambda>(p, t). visit p t) (files_of exts path es) s)"
  by (induction "watched_fn exts visit" path name nd s and "watched_fn exts visit" path es s rule: walk_walk_entries.induct)
    (auto simp: watched_fn_def)

lemma fold_Walk_watched:
  "fold (Walk fs (watched_fn (wa_exts w) visit)) (wa_dirs w) s = fold (\<lambda>(p, t). visit p t) (files w fs) s"
proof -
  have "fold (Walk fs (watched_fn (wa_exts w) visit)) ds s = fold (\<lambda>(p, t). visit p t)
      (concat (map (\<lambda>d. case fs d of None \<Rightarrow> [] | Some nd \<Rightarrow> files_in (wa_exts w) d (basename d) nd) ds)) s" for ds s
    by (induction ds arbitrary: s) (auto simp: Walk_def walk_watched watched_fn_def split: option.splits)
  then show ?thesis by (simp add: files_def)
qed

lemma files_in_iff:
  "(p, t) \<in> set (files_in exts path name nd) \<longleftrightarrow> watched_in exts path name nd p t"
  "(p, t) \<in> set (files_of exts path es) \<longleftrightarrow> (\<exists>n nd. (n, nd) \<in> set es \<and> watched_in exts (Join [path, n]) n nd p t)"
  by (induction exts path name nd and exts path es rule: files_in_files_of.induct)
    (auto simp: watched_in_simps)

lemma files_iff: "(p, t) \<in> set (files w fs) \<longleftrightarrow> watched w fs p t"
  by (auto simp: files_def watched_def files_in_iff split: option.splits) (metis option.sel)+

subsection \<open>Changes\<close>

text \<open>In one snapshot every path has one modification time, also if it is met twice.\<close>

definition one_mtime :: "Watcher \<Rightarrow> snapshot \<Rightarrow> bool" where
  "one_mtime w fs \<longleftrightarrow> (\<forall>p t t'. watched w fs p t \<and> watched w fs p t' \<longrightarrow> t = t')"

text \<open>A watched file is new or newer, or a file that was watched is gone.\<close>

definition changed_since :: "Watcher \<Rightarrow> snapshot \<Rightarrow> snapshot \<Rightarrow> bool" where
  "changed_since w fs0 fs1 \<longleftrightarrow>
     (\<exists>p t. watched w fs1 p t \<and> (\<forall>t0. watched w fs0 p t0 \<longrightarrow> t0 < t)) \<or>
     (\<exists>p t0. watched w fs0 p t0 \<and> (\<forall>t. \<not> watched w fs1 p t))"

definition records :: "Watcher \<Rightarrow> snapshot \<Rightarrow> (string, int) go_map \<Rightarrow> bool" where
  "records w fs m \<longleftrightarrow> (\<forall>p t. map_of m p = Some t \<longleftrightarrow> watched w fs p t)"

lemma watched_mtimes [simp]: "watched (w\<lparr>wa_mtimes := m\<rparr>) = watched w"
  by (simp add: watched_def fun_eq_iff)

lemma files_mtimes [simp]: "files (w\<lparr>wa_mtimes := m\<rparr>) = files w"
proof -
  have "wa_exts (w\<lparr>wa_mtimes := m\<rparr>) = wa_exts w" "wa_dirs (w\<lparr>wa_mtimes := m\<rparr>) = wa_dirs w" by simp_all
  then show ?thesis unfolding files_def by metis
qed

lemma fold_update: "map_of (fold (\<lambda>(p, t). AList.update p t) xs m) = map_of m ++ map_of (rev xs)"
  by (induction xs arbitrary: m) (auto simp: AList.update_conv' map_add_def fun_eq_iff split: option.splits)

lemma records_files:
  assumes "one_mtime w fs"
  shows "records w fs (fold (\<lambda>(p, t). AList.update p t) (files w fs) [])"
proof -
  have "map_of (rev (files w fs)) p = Some t" if "watched w fs p t" for p t
  proof -
    from that have "p \<in> fst ` set (rev (files w fs))" by (force simp: files_iff [symmetric])
    then obtain t' where t': "map_of (rev (files w fs)) p = Some t'"
      by (cases "map_of (rev (files w fs)) p") (auto simp: map_of_eq_None_iff)
    then have "(p, t') \<in> set (files w fs)" by (auto dest: map_of_SomeD)
    with that assms t' show ?thesis by (auto simp: files_iff one_mtime_def)
  qed
  then show ?thesis
    by (auto simp: records_def fold_update files_iff dest!: map_of_SomeD)
qed

lemma fold_detect:
  "fold (\<lambda>(p, t). detect_file old p t) xs (c, m) =
     (c \<or> (\<exists>(p, t) \<in> set xs. \<forall>t0. map_of old p = Some t0 \<longrightarrow> t0 < t),
      fold (\<lambda>(p, t). AList.update p t) xs m)"
  by (induction xs arbitrary: c m) (auto simp: detect_file_def split: option.splits)

lemma fold_deleted:
  "fold (\<lambda>(path, _) changed. if map_of cur path = None then True else changed) old c \<longleftrightarrow>
     c \<or> (\<exists>path \<in> fst ` set old. map_of cur path = None)"
  by (induction old arbitrary: c) auto

lemma detectChanges_correct:
  assumes "records w fs0 (wa_mtimes w)" "one_mtime w fs1"
  obtains m where "detectChanges fs1 w = (changed_since w fs0 fs1, w\<lparr>wa_mtimes := m\<rparr>)" "records w fs1 m"
proof -
  let ?m = "fold (\<lambda>(p, t). AList.update p t) (files w fs1) []"
  have r: "records w fs1 ?m" by (rule records_files [OF assms(2)])
  have new: "(\<exists>(p, t) \<in> set (files w fs1). \<forall>t0. map_of (wa_mtimes w) p = Some t0 \<longrightarrow> t0 < t) \<longleftrightarrow>
      (\<exists>p t. watched w fs1 p t \<and> (\<forall>t0. watched w fs0 p t0 \<longrightarrow> t0 < t))"
    using assms(1) by (auto simp: records_def files_iff Bex_def)
  have "path \<in> fst ` set (wa_mtimes w) \<longleftrightarrow> (\<exists>t0. watched w fs0 path t0)" for path
    using assms(1) by (simp add: records_def dom_map_of_conv_image_fst [symmetric] domIff)
  moreover have "map_of ?m path = None \<longleftrightarrow> (\<forall>t. \<not> watched w fs1 path t)" for path
    using r by (simp add: records_def) (metis not_None_eq)
  ultimately have gone: "(\<exists>path \<in> fst ` set (wa_mtimes w). map_of ?m path = None) \<longleftrightarrow>
      (\<exists>p t0. watched w fs0 p t0 \<and> (\<forall>t. \<not> watched w fs1 p t))" by (simp add: Bex_def)
  have "detectChanges fs1 w = (changed_since w fs0 fs1, w\<lparr>wa_mtimes := ?m\<rparr>)"
    unfolding detectChanges_def fold_Walk_watched fold_detect Let_def prod.case fold_deleted new gone changed_since_def
    by simp
  then show thesis using r by (rule that)
qed

lemma watch_loop_ticks:
  assumes "records w fs0 (wa_mtimes w)" "\<forall>fs \<in> set fss. one_mtime w fs"
  shows "watch_loop (map Tick fss @ [StopCalled, Done] @ es) w = map2 (changed_since w) (fs0 # fss) fss"
  using assms
proof (induction fss arbitrary: fs0 w)
  case (Cons fs1 fss)
  have one: "one_mtime w fs1" using Cons.prems(2) by simp
  obtain m where m: "detectChanges fs1 w = (changed_since w fs0 fs1, w\<lparr>wa_mtimes := m\<rparr>)" "records w fs1 m"
    by (rule detectChanges_correct [OF Cons.prems(1) one])
  have same: "changed_since (w\<lparr>wa_mtimes := m\<rparr>) = changed_since w" "records (w\<lparr>wa_mtimes := m\<rparr>) = records w"
    "one_mtime (w\<lparr>wa_mtimes := m\<rparr>) = one_mtime w"
    by (simp_all add: changed_since_def records_def one_mtime_def fun_eq_iff)
  show ?case using m Cons.IH [of "w\<lparr>wa_mtimes := m\<rparr>" fs1] Cons.prems(2) by (simp add: same)
qed (simp add: Watcher_Stop_def)

text \<open>
  C14: The watcher calls back exactly when it should. Started on a snapshot of the file system, it
  calls \<^verbatim>\<open>onChange\<close> at a tick if and only if, since the tick before, a file with a watched extension
  outside the skipped directories appeared, became newer or disappeared; after \<open>Stop\<close> and the end of
  its goroutine it calls back no more. (A file that is replaced by an older one is not a change.)
\<close>
theorem watcher_detects_changes:
  assumes "\<forall>fs \<in> set (fs0 # fss). one_mtime (NewWatcher dirs interval) fs"
  shows "Watcher_Start fs0 (map Tick fss @ [StopCalled, Done] @ es) (NewWatcher dirs interval) =
    map2 (changed_since (NewWatcher dirs interval)) (fs0 # fss) fss"
proof -
  let ?w = "NewWatcher dirs interval"
  let ?m = "fold (\<lambda>(p, t). AList.update p t) (files ?w fs0) []"
  have "wa_mtimes ?w = []" by (simp add: NewWatcher_def)
  then have s: "scan fs0 ?w = ?w\<lparr>wa_mtimes := ?m\<rparr>" by (simp add: scan_def fold_Walk_watched)
  have "records (scan fs0 ?w) fs0 (wa_mtimes (scan fs0 ?w))"
    using records_files [of ?w fs0] assms by (simp add: s records_def)
  moreover have "\<forall>fs \<in> set fss. one_mtime (scan fs0 ?w) fs" using assms by (simp add: s one_mtime_def)
  ultimately have "watch_loop (map Tick fss @ [StopCalled, Done] @ es) (scan fs0 ?w) =
      map2 (changed_since (scan fs0 ?w)) (fs0 # fss) fss" by (rule watch_loop_ticks)
  moreover have "changed_since (scan fs0 ?w) = changed_since ?w" by (simp add: s changed_since_def fun_eq_iff)
  ultimately show ?thesis by (simp add: Watcher_Start_def)
qed

text \<open>
  A tree with a watched file, a file in a skipped directory and a text file: editing the first is
  noticed, editing the other two and replacing the first by an older version are not.
\<close>

definition tree :: "int \<Rightarrow> int \<Rightarrow> int \<Rightarrow> snapshot" where
  "tree a b c = [''app'' \<mapsto> Dir [(''index.php'', File a), (''vendor'', Dir [(''lib.php'', File b)]), (''notes.txt'', File c)]]"

lemma tree_watched:
  "watched (NewWatcher [''app''] 2) (tree a b c) p t \<longleftrightarrow> p = ''app/index.php'' \<and> t = a"
proof -
  have "files (NewWatcher [''app''] 2) (tree a b c) = [(''app/index.php'', a)]"
    by (simp add: files_def tree_def NewWatcher_def basename_def skipped_dirs_def isWatchedFile_def Join_def Clean_def
        path_elems_def HasPrefix_def Ext_def lower_char_def Let_def)
  then show ?thesis by (simp add: files_iff [symmetric] eq_commute)
qed

theorem watcher_detects_changes_witness:
  "Watcher_Start (tree 1 1 1) (map Tick [tree 1 2 2, tree 2 2 2, tree 1 2 2] @ [StopCalled, Done] @ [Tick (tree 9 9 9)])
     (NewWatcher [''app''] 2) = [False, True, False]"
proof -
  have "\<forall>fs \<in> set (tree 1 1 1 # [tree 1 2 2, tree 2 2 2, tree 1 2 2]). one_mtime (NewWatcher [''app''] 2) fs"
    by (simp add: one_mtime_def tree_watched)
  from watcher_detects_changes [OF this, of "[Tick (tree 9 9 9)]"] show ?thesis
    by (simp add: changed_since_def tree_watched)
qed

end
