(* ===== verification/Spec2Isabelle.thy ===== *)
theory Spec2Isabelle
  imports EmbPoolLive WebSocketProps MiddlewareProps EndToEnd PhpExchange PhpWordPress PhpWsMirror Duration Watcher
begin

text \<open>
  Verification of maboo, an application server for PHP written in Go.

  \<^bold>\<open>The program.\<close> \<^verbatim>\<open>cmd/maboo\<close> loads a YAML configuration, starts a pool of embedded PHP workers, and
  serves HTTP until a signal stops it. A request passes a stack of middleware, the router sends it to
  the health handlers, the static files or the PHP handler; the latter builds the CGI context of the
  request and calls \<open>Exec\<close> of the pool, whose answer becomes the response. A second pool runs PHP in
  processes, to which it talks by frames over pipes (\<^verbatim>\<open>internal/pool\<close>, \<^verbatim>\<open>internal/protocol\<close>); a WebSocket
  manager keeps connections and rooms (\<^verbatim>\<open>internal/websocket\<close>); a watcher looks for changed PHP files.

  \<^bold>\<open>Theories and sources\<close> (paths under \<^verbatim>\<open>src/internal\<close> unless said otherwise).

    \<^item> \<open>Prelude\<close>, \<open>GoStrings\<close>, \<open>GoMap\<close>, \<open>GoChan\<close>, \<open>Digits\<close>: what the code uses of the language and its standard
      library. Machine words and their encodings, reading from a stream, strings as bytes and paths,
      maps with an unspecified order of iteration, buffered channels. The encodings, maps and channels
      are locales (\<open>dictionary\<close>, \<open>bounded_queue\<close> and others) interpreted on the model's functions.
    \<^item> \<open>Transition\<close>: reachable states, the locale \<open>inductive_invariant\<close>, counting over goroutines.
    \<^item> \<open>Wire\<close> (\<^verbatim>\<open>protocol/wire.go\<close>) and \<open>Messages\<close> (\<^verbatim>\<open>request.go\<close>, \<^verbatim>\<open>response.go\<close>, \<^verbatim>\<open>stream.go\<close>,
      \<^verbatim>\<open>msgpack.go\<close>): frames, their bytes and errors, the messages in them. A frame is read back if and
      only if its lengths fit the size fields; every outcome of the reader is characterised.
    \<^item> \<open>Config\<close> (\<^verbatim>\<open>config/config.go\<close>, \<^verbatim>\<open>defaults.go\<close>): the configuration, its defaults and \<open>Validate\<close>;
      \<open>Load\<close> yields exactly the valid configurations.
    \<^item> \<open>Duration\<close> (the durations of \<^verbatim>\<open>config/config.go\<close>): their text as the time package writes and reads it,
      with its checks for overflow and its floating-point fractions; every duration survives the way
      through YAML.
    \<^item> \<open>PhpEngine\<close> (\<^verbatim>\<open>phpengine/engine.go\<close>, \<^verbatim>\<open>selector.go\<close>, \<^verbatim>\<open>detector.go\<close>) and \<open>Context\<close> (\<^verbatim>\<open>context.go\<close>): the
      engine's life cycle, the choice of a PHP version, entry points and frameworks, the superglobals.
      The version never depends on composer.json; a header cannot override a CGI variable.
    \<^item> \<open>EmbWorker\<close>, \<open>EmbPool\<close> (\<^verbatim>\<open>worker/worker.go\<close>, \<^verbatim>\<open>worker/pool.go\<close>): the embedded worker and pool. Each
      function that runs in a goroutine is a datatype of control points and a transition function; one
      transition is one atomic action of the source (an atomic counter, a critical section, a channel
      operation). A system is the pool with its goroutines; \<open>pool_step\<close> interleaves them at will and lets
      the environment call operations. \<open>EmbPoolInv\<close>, \<open>EmbPoolServe\<close> have the invariants, \<open>EmbPoolProps\<close>
      exclusive use, statistics, what requests can get, job limits, and the races as reachable states;
      \<open>EmbPoolLive\<close> that \<open>Start\<close> and \<open>Exec\<close> finish, and the bound on the number of workers.
    \<^item> \<open>ExtWorker\<close>, \<open>ExtPool\<close> (\<^verbatim>\<open>pool/worker.go\<close>, \<^verbatim>\<open>pool/pool.go\<close>): the process-backed worker and pool in the
      same style, with processes that write and exit between the steps. \<open>sdk_run\<close> is the loop of
      \<^verbatim>\<open>php-sdk/src/Worker.php\<close> as the Go side sees it, frames for frames. \<open>ExtPoolInv\<close> shows exclusive ownership for arbitrary processes,
      \<open>ExtPoolServe\<close> follows the session of a process that runs the SDK, \<open>ExtPoolProps\<close> concludes that a
      request only ever gets its own answer, and what the health check cannot see.
    \<^item> \<open>PhpLang\<close>, \<open>PhpWire\<close>, \<open>PhpMsgpack\<close>, \<open>PhpSdk\<close> (\<^verbatim>\<open>src/php-sdk/src\<close>: \<^verbatim>\<open>Protocol/Wire.php\<close>, \<^verbatim>\<open>Frame.php\<close>,
      \<^verbatim>\<open>Msgpack.php\<close>, \<^verbatim>\<open>Request.php\<close>, \<^verbatim>\<open>Response.php\<close>, \<^verbatim>\<open>Worker.php\<close>): PHP values with their arrays and key
      conversion, the PHP end of the pipe, MessagePack, requests and the superglobals, responses, and
      the worker's loop byte by byte. The two codecs agree on every input, MessagePack round-trips and
      its decoder is total and type safe, the loop refines \<open>sdk_run\<close>.
    \<^item> \<open>PhpBridge\<close> (\<^verbatim>\<open>Bridge/BridgeWorker.php\<close>, \<^verbatim>\<open>Laravel.php\<close>, \<^verbatim>\<open>Symfony.php\<close>, \<^verbatim>\<open>PSR7.php\<close>) and \<open>PhpWordPress\<close>
      (\<^verbatim>\<open>Bridge/WordPress.php\<close>): the bridges, with the frameworks as parameters. \<open>PhpWsServer\<close>
      (\<^verbatim>\<open>WebSocket/Connection.php\<close>, \<^verbatim>\<open>Server.php\<close>): the WebSocket server over its callbacks.
    \<^item> \<open>PhpPool\<close>: the external pool whose processes run the SDK, that is the Go and the PHP side together;
      the application's answer is the one that \<open>Exec\<close> returns, and a bridge costs the worker.
      \<open>GoMsgpack\<close> has the format of the headers that the Go side writes and reads; \<open>PhpExchange\<close> follows a
      request from \<open>EncodeRequest\<close> to the application and its response back to \<open>DecodeResponse\<close>.
    \<^item> \<open>PhpWsMirror\<close>: the manager of \<open>WebSocket\<close> and the server of \<open>PhpWsServer\<close> together; the server's
      registry holds the manager's connections, and what PHP sends to a connection reaches its client.
    \<^item> \<open>Watcher\<close> (\<^verbatim>\<open>pool/watcher.go\<close>): the walk over directory trees and the detection of changes, equal to a
      reference definition of which files are watched and what a change is.
    \<^item> \<open>WebSocket\<close> (\<^verbatim>\<open>websocket/manager.go\<close>, \<^verbatim>\<open>handler.go\<close>) and \<open>WebSocketProps\<close>: connections, rooms, messages and
      read pumps; consistency, refinement of an abstract specification of rooms, delivery of messages.
    \<^item> \<open>Http\<close>, \<open>Middleware\<close>, \<open>Metrics\<close>, \<open>Server\<close> (\<^verbatim>\<open>server/middleware.go\<close>, \<^verbatim>\<open>earlyhints.go\<close>, \<^verbatim>\<open>compress.go\<close>,
      \<^verbatim>\<open>metrics.go\<close>, \<^verbatim>\<open>router.go\<close>, \<^verbatim>\<open>health.go\<close>, \<^verbatim>\<open>static.go\<close>, \<^verbatim>\<open>server.go\<close>): response writers behind an
      interface (the locales \<open>response_writer\<close>, \<open>header_keeping_writer\<close>, \<open>metrics_writer\<close>), the middleware
      as functions on handlers, the stack as the server builds it. \<open>ServerStack\<close> computes what the whole
      stack sends; \<open>ServerProps\<close>, \<open>MiddlewareProps\<close> have the properties.
    \<^item> \<open>Listen\<close> (\<^verbatim>\<open>server.go\<close>, \<^verbatim>\<open>acme.go\<close>, \<^verbatim>\<open>http2.go\<close>, \<^verbatim>\<open>http3.go\<close>, \<^verbatim>\<open>tls.go\<close>): building, starting and stopping the
      servers, and the redirect to HTTPS; TLS is never downgraded.
    \<^item> \<open>Program\<close> (\<^verbatim>\<open>src/cmd/maboo/main.go\<close>): the command line, and \<open>serve\<close> as a transition system around the
      embedded pool; a shutdown that meets its deadline cuts off no request.
    \<^item> \<open>EndToEnd\<close>: the composition of the program, the pool and the HTTP stack, from a request to its
      response.

  \<^bold>\<open>Parameters.\<close> Code outside the repository is an argument: YAML and JSON, MessagePack on the Go side, gzip, the
  file system, random bytes, the certificate library, the placeholder page of the engine, PHP
  applications and frameworks; of PHP itself \<open>php_env\<close> (\<^verbatim>\<open>parse_str\<close>, \<^verbatim>\<open>json_encode\<close>, \<^verbatim>\<open>getcwd\<close>, the text of
  exceptions and floats) and the memory in use. Where a theorem needs something of it, that is a hypothesis: a MessagePack decoder
  that inverts its encoder, a map order that visits every key once, a MessagePack library that
  writes and reads the structures by the names of their tags, answers that fit into a frame, an
  application that leaves the standard output to the SDK.

  \<^bold>\<open>Bounds and fuel.\<close> Counters keep their width (\<open>32 word\<close>, \<open>64 word\<close>) and wrap; worker identifiers are
  distinct for fewer than 2^32 workers. \<open>frames_fuel\<close> has the length of its input as fuel, and a frame
  has at least 14 bytes; \<open>trim_fuel\<close> has the length of the string; \<open>decodeValue\<close> has one more than the
  length of its input, which is always enough (\<open>decodeValue_total\<close>). A PHP integer is an \<open>int\<close> within 64
  bits, a PHP float its bit pattern; the floats in \<open>ParseDuration\<close> are rationals rounded to 53 bits after
  each operation. The percentages of \<open>autoScale\<close>, floats
  in the source, are compared exactly. A frame written to a pipe arrives as a whole or not at all.

  \<^bold>\<open>Not modelled.\<close> Time (a timeout may happen at any moment), logging other than the access log, the
  pools of gzip writers and of the header buffers of \<open>ReadFrame\<close>, which are overwritten before use, the decoding of YAML, the
  network and the servers of \<^verbatim>\<open>net/http\<close>, QUIC and ACME behind the calls that start them, the context key
  that no code sets (\<^verbatim>\<open>GetRequestCtx\<close>), the getters of the workers, the request objects, bootstrap and
  clean-up of the PHP frameworks, which call their code, and the example applications.
\<close>

end
